theory Spec2Isabelle
  imports Main "HOL-Library.Word"
begin

section \<open>The traffic publisher \<open>ndn-traffic-push\<close>\<close>

text \<open>
  A shallow embedding of \<^verbatim>\<open>src/ndn-traffic-push.cpp\<close>: the class
  \<^verbatim>\<open>NdnTrafficPush\<close>, its nested class \<^verbatim>\<open>DataTrafficConfiguration\<close> and
  \<^verbatim>\<open>main\<close>. Member functions become functions on a record of the members. The
  collaborators of the class (logger, face, key chain, io service, signal set, deadline
  timers, random engine) are represented by a trace of the calls made to them and by the
  little state of theirs that the program depends on.

  \<^item> \<^verbatim>\<open>std::size_t\<close> and \<^verbatim>\<open>uint64_t\<close> are 64-bit words, so counters and the length
    computation wrap around as they do in the program. Durations and points in time are
    integers (microseconds unless said otherwise); their range is not modelled.
  \<^item> A function that can throw returns the exception together with the state at the
    throw, since the callers catch and carry on.
  \<^item> The event loop is given a schedule: the completions that the io service dispatches,
    in order. A call of the loop that has not returned when the schedule ends is reported
    as blocked, with the state reached.
  \<^item> Pattern ids are natural numbers below the number of patterns, where \<open>id + 1\<close> does
    not wrap.
\<close>

subsection \<open>Machine integers and \<^verbatim>\<open>std::to_string\<close>\<close>

type_synonym uint64_t = "64 word"
type_synonym uint32_t = "32 word"
type_synonym size_t = "64 word"

definition digit_char :: "nat \<Rightarrow> char" where
  "digit_char d = ''0123456789'' ! d"

text \<open>\<^verbatim>\<open>std::to_string\<close> of an unsigned value: its decimal digits.\<close>

function to_string :: "nat \<Rightarrow> string" where
  "to_string n =
     (if n < 10 then [digit_char n] else to_string (n div 10) @ [digit_char (n mod 10)])"
  by pat_completeness auto
termination
  by (relation "measure (\<lambda>n. n)") auto

declare to_string.simps [simp del]

text \<open>The decimal form of a signed count, as \<^verbatim>\<open>operator<<\<close> prints a duration's \<^verbatim>\<open>count()\<close>.\<close>

definition to_string_int :: "int \<Rightarrow> string" where
  "to_string_int i = (if i < 0 then CHR ''-'' # to_string (nat (- i)) else to_string (nat i))"

text \<open>
  Comparison of a \<^verbatim>\<open>std::optional\<close> with a plain value: an empty optional is neither
  equal to nor greater than any value.
\<close>

definition optional_eq :: "'a option \<Rightarrow> 'a \<Rightarrow> bool" where
  "optional_eq opt v = (case opt of None \<Rightarrow> False | Some x \<Rightarrow> x = v)"

definition optional_gt :: "('a::ord) option \<Rightarrow> 'a \<Rightarrow> bool" where
  "optional_gt opt v = (case opt of None \<Rightarrow> False | Some x \<Rightarrow> v < x)"

subsection \<open>Traffic patterns\<close>

text \<open>
  \<^verbatim>\<open>DataTrafficConfiguration\<close>. Durations are counts of microseconds
  (\<open>m_contentDelay\<close>, \<open>m_generationInterval\<close>) or milliseconds (\<open>m_freshnessPeriod\<close>);
  the signing info is kept in its printed form.
\<close>

record DataTrafficConfiguration =
  m_name :: string
  m_contentDelay :: int
  m_generationInterval :: int
  m_freshnessPeriod :: int
  m_contentType :: "uint32_t option"
  m_contentLength :: "size_t option"
  m_content :: string
  m_signingInfo :: string
  m_nInterestsReceived :: uint64_t

text \<open>The default member initialisers: \<^verbatim>\<open>-1_ms\<close> marks a duration that was not configured.\<close>

definition DataTrafficConfiguration_default :: DataTrafficConfiguration where
  "DataTrafficConfiguration_default =
     \<lparr> m_name = [], m_contentDelay = - 1000, m_generationInterval = - 1000,
       m_freshnessPeriod = - 1, m_contentType = None, m_contentLength = None,
       m_content = [], m_signingInfo = [], m_nInterestsReceived = 0 \<rparr>"

definition printTrafficConfiguration :: "DataTrafficConfiguration \<Rightarrow> string" where
  "printTrafficConfiguration p =
     (if m_name p \<noteq> [] then ''Name='' @ m_name p @ '', '' else []) @
     (if 0 \<le> m_contentDelay p
      then ''ContentDelay='' @ to_string_int (m_contentDelay p) @ '', '' else []) @
     (if 0 \<le> m_generationInterval p
      then ''GenerationInterval='' @ to_string_int (m_generationInterval p) @ '', '' else []) @
     (if 0 \<le> m_freshnessPeriod p
      then ''FreshnessPeriod='' @ to_string_int (m_freshnessPeriod p) @ '', '' else []) @
     (case m_contentType p of
        Some t \<Rightarrow> ''ContentType='' @ to_string (unat t) @ '', '' | None \<Rightarrow> []) @
     (case m_contentLength p of
        Some l \<Rightarrow> ''ContentBytes='' @ to_string (unat l) @ '', '' | None \<Rightarrow> []) @
     (if m_content p \<noteq> [] then ''Content='' @ m_content p @ '', '' else []) @
     ''SigningInfo='' @ m_signingInfo p"

text \<open>\<^verbatim>\<open>checkTrafficDetailCorrectness\<close>: the body is \<^verbatim>\<open>return true\<close>.\<close>

definition checkTrafficDetailCorrectness :: "DataTrafficConfiguration \<Rightarrow> bool" where
  "checkTrafficDetailCorrectness p = True"

subsection \<open>Collaborators\<close>

text \<open>The \<^verbatim>\<open>ndn::Data\<close> object that one publish step builds.\<close>

record Data =
  d_name :: string
  d_freshnessPeriod :: "int option"
  d_contentType :: "uint32_t option"
  d_content :: string
  d_signedWith :: "string option"

text \<open>
  The exceptions that can leave a publish step: \<^verbatim>\<open>std::length_error\<close> and
  \<^verbatim>\<open>std::bad_alloc\<close> from \<^verbatim>\<open>std::string::reserve\<close>, and the faults of the two black
  boxes \<^verbatim>\<open>KeyChain::sign\<close> and \<^verbatim>\<open>Face::put\<close>.
\<close>

datatype exn = length_error | bad_alloc | sign_error | put_error

text \<open>
  What the program takes from outside and never changes: the configuration reader of
  \<^verbatim>\<open>util.hpp\<close> (not part of this source file), the implementation-defined
  \<^verbatim>\<open>std::string::max_size()\<close>, whether the allocator can provide a string buffer of a
  given number of characters, the values that the random engine hands out, whether
  signing and emission succeed, and the text of an exception.
\<close>

record env =
  readConfigurationFile :: "string \<Rightarrow> DataTrafficConfiguration list option"
  string_max_size :: nat
  reserve_ok :: "nat \<Rightarrow> bool"
  dist :: "nat \<Rightarrow> char"
  keyChain_sign_ok :: "Data \<Rightarrow> string \<Rightarrow> bool"
  face_put_ok :: "Data \<Rightarrow> bool"
  what :: "exn \<Rightarrow> string"

text \<open>The two handlers that wait on \<open>m_signalSet\<close>: the one armed in \<^verbatim>\<open>run\<close> and the
  one armed in \<^verbatim>\<open>startPushLoop\<close>.\<close>

datatype signal_handler = RunSignalHandler | PushLoopSignalHandler

text \<open>The calls to the collaborators that completed, in the order the program made them.\<close>

datatype action =
    InitializeLog
  | Log string bool bool
  | SignalSetAsyncWait signal_handler
  | SignalSetCancel
  | RegisterPrefix string nat
  | ClearRegisteredPrefixes
  | TimerAsyncWait nat int
  | KeyChainSign string
  | SleepFor int
  | FacePut Data
  | FaceShutdown
  | FaceProcessEvents
  | IoServiceStop
  | PrintUsage bool
  | PrintError string

text \<open>A \<^verbatim>\<open>boost::asio::deadline_timer\<close>: its deadline and whether a wait is pending.\<close>

record timer =
  expires_at :: int
  pending :: bool

subsection \<open>The state of \<^verbatim>\<open>NdnTrafficPush\<close>\<close>

text \<open>
  The data members, then the state of the collaborators: the handlers waiting on the signal
  set, whether the io service is stopped, the deadline timer of each running push loop
  (keyed by pattern id), the wall clock in microseconds, the number of values drawn from
  the random engine, and the trace. The two members that share their name with a member
  of the pattern class carry a suffix here.
\<close>

record NdnTrafficPush =
  m_configurationFile :: string
  m_nMaximumInterests :: "uint64_t option"
  m_contentDelayGlobal :: int
  m_trafficPatterns :: "DataTrafficConfiguration list"
  m_registeredPrefixes :: "nat list"
  m_nRegistrationsFailed :: uint64_t
  m_nInterestsReceivedTotal :: uint64_t
  m_wantQuiet :: bool
  m_hasError :: bool
  signal_waits :: "signal_handler list"
  io_stopped :: bool
  timers :: "nat \<Rightarrow> timer option"
  clock :: int
  rng_pos :: nat
  trace :: "action list"

text \<open>The constructor together with the default member initialisers.\<close>

definition NdnTrafficPush_init :: "string \<Rightarrow> NdnTrafficPush" where
  "NdnTrafficPush_init configFile =
     \<lparr> m_configurationFile = configFile, m_nMaximumInterests = None,
       m_contentDelayGlobal = 0, m_trafficPatterns = [], m_registeredPrefixes = [],
       m_nRegistrationsFailed = 0, m_nInterestsReceivedTotal = 0,
       m_wantQuiet = False, m_hasError = False,
       signal_waits = [], io_stopped = False, timers = (\<lambda>_. None), clock = 0,
       rng_pos = 0, trace = [] \<rparr>"

definition setMaximumInterests :: "uint64_t \<Rightarrow> NdnTrafficPush \<Rightarrow> NdnTrafficPush" where
  "setMaximumInterests maxInterests s = s\<lparr>m_nMaximumInterests := Some maxInterests\<rparr>"

definition setContentDelay :: "int \<Rightarrow> NdnTrafficPush \<Rightarrow> NdnTrafficPush" where
  "setContentDelay delay s = s\<lparr>m_contentDelayGlobal := delay\<rparr>"

definition setQuietLogging :: "NdnTrafficPush \<Rightarrow> NdnTrafficPush" where
  "setQuietLogging s = s\<lparr>m_wantQuiet := True\<rparr>"

text \<open>One call to a collaborator, and \<^verbatim>\<open>m_logger.log\<close> in particular.\<close>

definition emit :: "action \<Rightarrow> NdnTrafficPush \<Rightarrow> NdnTrafficPush" where
  "emit a s = s\<lparr>trace := trace s @ [a]\<rparr>"

definition logger_log :: "string \<Rightarrow> bool \<Rightarrow> bool \<Rightarrow> NdnTrafficPush \<Rightarrow> NdnTrafficPush" where
  "logger_log line a b s = emit (Log line a b) s"

subsection \<open>\<^verbatim>\<open>logStatistics\<close> and \<^verbatim>\<open>stop\<close>\<close>

definition report_header :: string where
  "report_header = [CHR 0x0A, CHR 0x0A] @ ''== Interest Traffic Report =='' @ [CHR 0x0A]"

text \<open>The body of the loop over the patterns, for the pattern at index \<open>patternId\<close>.\<close>

definition logStatistics_pattern :: "nat \<Rightarrow> DataTrafficConfiguration \<Rightarrow> action list" where
  "logStatistics_pattern patternId p =
     [Log (CHR 0x0A # ''Traffic Pattern Type #'' @ to_string (patternId + 1)) False True,
      Log (printTrafficConfiguration p) False False,
      Log (''Total Interests Received    = '' @ to_string (unat (m_nInterestsReceived p))
           @ [CHR 0x0A]) False True]"

definition logStatistics :: "NdnTrafficPush \<Rightarrow> NdnTrafficPush" where
  "logStatistics s =
     s\<lparr>trace := trace s @
        [Log report_header False True,
         Log (''Total Traffic Pattern Types = '' @ to_string (length (m_trafficPatterns s)))
           False True,
         Log (''Total Interests Received    = '' @
              to_string (unat (m_nInterestsReceivedTotal s))) False True] @
        concat (map (\<lambda>patternId.
                  logStatistics_pattern patternId (m_trafficPatterns s ! patternId))
                [0 ..< length (m_trafficPatterns s)])\<rparr>"

text \<open>\<^verbatim>\<open>stop\<close>: the report, \<^verbatim>\<open>m_face.shutdown()\<close>, \<^verbatim>\<open>m_ioService.stop()\<close>. There is
  no flag that remembers an earlier call.\<close>

definition stop :: "NdnTrafficPush \<Rightarrow> NdnTrafficPush" where
  "stop s = (emit IoServiceStop (emit FaceShutdown (logStatistics s)))\<lparr>io_stopped := True\<rparr>"

subsection \<open>Start-up validation\<close>

text \<open>\<^verbatim>\<open>checkTrafficPatternCorrectness\<close>: the body is a \<^verbatim>\<open>TODO\<close> comment and
  \<^verbatim>\<open>return true\<close>.\<close>

definition checkTrafficPatternCorrectness :: "NdnTrafficPush \<Rightarrow> bool" where
  "checkTrafficPatternCorrectness s = True"

subsection \<open>Content generation\<close>

text \<open>
  \<^verbatim>\<open>getRandomByteString\<close>: \<^verbatim>\<open>reserve\<close> throws \<^verbatim>\<open>std::length_error\<close> when asked for
  more than \<^verbatim>\<open>max_size()\<close>, and \<^verbatim>\<open>std::bad_alloc\<close> when the request is within
  \<^verbatim>\<open>max_size()\<close> but the allocator cannot provide the buffer; otherwise the loop appends
  \<open>len\<close> values of the distribution, which ranges over every value of \<^verbatim>\<open>char\<close>. The
  second argument and the second result count the values drawn from the engine so far.
\<close>

fun getRandomByteString_loop :: "env \<Rightarrow> nat \<Rightarrow> nat \<Rightarrow> string \<Rightarrow> string \<times> nat" where
  "getRandomByteString_loop E 0 pos s = (s, pos)"
| "getRandomByteString_loop E (Suc n) pos s =
     getRandomByteString_loop E n (Suc pos) (s @ [dist E pos])"

definition getRandomByteString :: "env \<Rightarrow> size_t \<Rightarrow> nat \<Rightarrow> exn + string \<times> nat" where
  "getRandomByteString E len pos =
     (if string_max_size E < unat len then Inl length_error
      else if \<not> reserve_ok E (unat len) then Inl bad_alloc
      else Inr (getRandomByteString_loop E (unat len) pos []))"

text \<open>The header that \<^verbatim>\<open>sendData\<close> writes in front of the random bytes.\<close>

definition content_header :: "DataTrafficConfiguration \<Rightarrow> string" where
  "content_header p =
     m_name p @ ''/seq='' @ to_string (unat (m_nInterestsReceived p)) @ ''&%_''"

text \<open>
  Lines 318 to 324 of \<^verbatim>\<open>sendData\<close>: the payload. The subtraction is one of
  \<^verbatim>\<open>std::size_t\<close> values and wraps around; the random bytes are drawn before the explicit
  content is looked at.
\<close>

definition sendData_content :: "env \<Rightarrow> DataTrafficConfiguration \<Rightarrow> nat \<Rightarrow> exn + string \<times> nat" where
  "sendData_content E pattern pos =
     (case (if optional_gt (m_contentLength pattern) 0
            then (case m_contentLength pattern of
                    None \<Rightarrow> Inr ([], pos)
                  | Some l \<Rightarrow>
                      (case getRandomByteString E
                              (l - of_nat (length (content_header pattern))) pos of
                         Inl x \<Rightarrow> Inl x
                       | Inr (r, pos') \<Rightarrow> Inr (content_header pattern @ r, pos')))
            else Inr ([], pos)) of
        Inl x \<Rightarrow> Inl x
      | Inr (content, pos') \<Rightarrow>
          Inr (if m_content pattern \<noteq> [] then m_content pattern else content, pos'))"

subsection \<open>The publish step \<^verbatim>\<open>sendData\<close>\<close>

text \<open>A member function that can throw returns the state it left behind either way.\<close>

datatype outcome = Returned NdnTrafficPush | Threw exn NdnTrafficPush

text \<open>Lines 310 to 316: name, freshness period and content type of the new object.\<close>

definition sendData_build :: "DataTrafficConfiguration \<Rightarrow> Data" where
  "sendData_build pattern =
     \<lparr> d_name = m_name pattern,
       d_freshnessPeriod =
         (if 0 \<le> m_freshnessPeriod pattern then Some (m_freshnessPeriod pattern) else None),
       d_contentType = m_contentType pattern,
       d_content = [],
       d_signedWith = None \<rparr>"

text \<open>Lines 329 and 330: the two increments.\<close>

definition sendData_count :: "nat \<Rightarrow> NdnTrafficPush \<Rightarrow> NdnTrafficPush" where
  "sendData_count patternId s =
     s\<lparr>m_nInterestsReceivedTotal := m_nInterestsReceivedTotal s + 1,
       m_trafficPatterns := (m_trafficPatterns s)
         [patternId := (m_trafficPatterns s ! patternId)
            \<lparr>m_nInterestsReceived :=
               m_nInterestsReceived (m_trafficPatterns s ! patternId) + 1\<rparr>]\<rparr>"

definition sendData_ids :: "nat \<Rightarrow> NdnTrafficPush \<Rightarrow> string" where
  "sendData_ids patternId s =
     ''GlobalID='' @ to_string (unat (m_nInterestsReceivedTotal s)) @
     '', LocalID='' @ to_string (unat (m_nInterestsReceived (m_trafficPatterns s ! patternId))) @
     '', Name='' @ m_name (m_trafficPatterns s ! patternId)"

text \<open>Lines 332 to 338: the line logged before the emission.\<close>

definition sendData_logSend :: "nat \<Rightarrow> NdnTrafficPush \<Rightarrow> NdnTrafficPush" where
  "sendData_logSend patternId s =
     (if \<not> m_wantQuiet s
      then logger_log (''Send Data          - PatternType='' @ to_string (patternId + 1) @
                       '', '' @ sendData_ids patternId s) True False s
      else s)"

definition sleep_for :: "int \<Rightarrow> NdnTrafficPush \<Rightarrow> NdnTrafficPush" where
  "sleep_for d s = (emit (SleepFor d) s)\<lparr>clock := clock s + d\<rparr>"

text \<open>Lines 340 to 343: the delay of the pattern, then the global delay.\<close>

definition sendData_delay :: "nat \<Rightarrow> NdnTrafficPush \<Rightarrow> NdnTrafficPush" where
  "sendData_delay patternId s =
     (let s1 = (if 0 < m_contentDelay (m_trafficPatterns s ! patternId)
                then sleep_for (m_contentDelay (m_trafficPatterns s ! patternId)) s else s)
      in if 0 < m_contentDelayGlobal s1 then sleep_for (m_contentDelayGlobal s1) s1 else s1)"

text \<open>Lines 347 to 358: the line logged after the emission.\<close>

definition sendData_logSent :: "nat \<Rightarrow> NdnTrafficPush \<Rightarrow> NdnTrafficPush" where
  "sendData_logSent patternId s =
     (if \<not> m_wantQuiet s
      then logger_log (''Successfully Sent Data          - PatternType='' @
                       to_string (patternId + 1) @ '', '' @ sendData_ids patternId s)
             True False s
      else logger_log (''Successfully Sent Data          - '' @ sendData_ids patternId s)
             True False s)"

text \<open>Lines 360 to 364: the new deadline is the old deadline plus the interval, and a new
  wait is started on the timer.\<close>

definition sendData_rearm :: "nat \<Rightarrow> NdnTrafficPush \<Rightarrow> NdnTrafficPush" where
  "sendData_rearm patternId s =
     (case timers s patternId of
        None \<Rightarrow> s
      | Some t \<Rightarrow>
          (let d = expires_at t + m_generationInterval (m_trafficPatterns s ! patternId)
           in (emit (TimerAsyncWait patternId d) s)
                \<lparr>timers := (timers s)(patternId \<mapsto> \<lparr>expires_at = d, pending = True\<rparr>)\<rparr>))"

text \<open>Lines 366 to 371: the global cap.\<close>

definition sendData_checkCap :: "NdnTrafficPush \<Rightarrow> NdnTrafficPush" where
  "sendData_checkCap s =
     (case m_nMaximumInterests s of
        None \<Rightarrow> s
      | Some m \<Rightarrow>
          if m \<le> m_nInterestsReceivedTotal s
          then (emit SignalSetCancel
                 (emit ClearRegisteredPrefixes
                   (logger_log ''Finished data sending.'' False False s)))
                 \<lparr>m_registeredPrefixes := []\<rparr>
          else s)"

definition sendData :: "env \<Rightarrow> nat \<Rightarrow> NdnTrafficPush \<Rightarrow> outcome" where
  "sendData E patternId s =
     (let pattern = m_trafficPatterns s ! patternId in
      case sendData_content E pattern (rng_pos s) of
        Inl x \<Rightarrow> Threw x s
      | Inr (content, pos') \<Rightarrow>
          (let data = (sendData_build pattern)\<lparr>d_content := content\<rparr>;
               s1 = s\<lparr>rng_pos := pos'\<rparr>
           in if \<not> keyChain_sign_ok E data (m_signingInfo pattern) then Threw sign_error s1
              else
                (let signed = data\<lparr>d_signedWith := Some (m_signingInfo pattern)\<rparr>;
                     s2 = sendData_count patternId
                            (emit (KeyChainSign (m_signingInfo pattern)) s1);
                     s3 = sendData_logSend patternId s2;
                     s4 = sendData_delay patternId s3
                 in if \<not> face_put_ok E signed then Threw put_error s4
                    else Returned
                           (sendData_checkCap
                             (sendData_rearm patternId
                               (sendData_logSent patternId (emit (FacePut signed) s4)))))))"

subsection \<open>The other handlers\<close>

definition onRegisterFailed :: "string \<Rightarrow> nat \<Rightarrow> NdnTrafficPush \<Rightarrow> NdnTrafficPush" where
  "onRegisterFailed reason patternId s =
     (let s1 = logger_log (''Prefix registration failed - PatternType='' @
                           to_string (patternId + 1) @
                           '', Name='' @ m_name (m_trafficPatterns s ! patternId) @
                           '', Reason='' @ reason) True True s;
          s2 = s1\<lparr>m_nRegistrationsFailed := m_nRegistrationsFailed s1 + 1\<rparr>
      in if m_nRegistrationsFailed s2 = of_nat (length (m_trafficPatterns s2))
         then stop (logger_log ''Registration failure.'' False False (s2\<lparr>m_hasError := True\<rparr>))
         else s2)"

text \<open>The handler that \<^verbatim>\<open>run\<close> passes to \<^verbatim>\<open>m_signalSet.async_wait\<close> (lines 111 to 118).
  The handler of \<^verbatim>\<open>startPushLoop\<close> (line 287) is \<open>stop\<close> itself.\<close>

definition run_signalHandler :: "NdnTrafficPush \<Rightarrow> NdnTrafficPush" where
  "run_signalHandler s =
     (let s1 = (case m_nMaximumInterests s of
                  None \<Rightarrow> s
                | Some m \<Rightarrow>
                    if m_nInterestsReceivedTotal s < m
                    then (logger_log ''Async wait error set.'' False False s)
                           \<lparr>m_hasError := True\<rparr>
                    else s)
      in stop (logger_log ''Async wait ended.'' False False s1))"

subsection \<open>The event loop\<close>

text \<open>
  What the io service can do next: let time pass, complete the wait on the timer of a push
  loop, complete a wait on the signal set (a signal arrived, or the set was cancelled: both
  handlers ignore the error code), or deliver the failure of a prefix registration. A
  completion is only dispatched when the matching wait or registration exists; anything
  else in the schedule is skipped.
\<close>

datatype event =
    Elapse nat
  | TimerFired nat
  | SignalHandlerFired signal_handler
  | RegisterFailed string nat

definition dispatch :: "env \<Rightarrow> event \<Rightarrow> NdnTrafficPush \<Rightarrow> outcome" where
  "dispatch E e s =
     (case e of
        Elapse d \<Rightarrow> Returned (s\<lparr>clock := clock s + int d\<rparr>)
      | TimerFired patternId \<Rightarrow>
          (case timers s patternId of
             None \<Rightarrow> Returned s
           | Some t \<Rightarrow>
               if pending t \<and> patternId < length (m_trafficPatterns s)
               then sendData E patternId
                      (s\<lparr>timers := (timers s)(patternId \<mapsto> t\<lparr>pending := False\<rparr>)\<rparr>)
               else Returned s)
      | SignalHandlerFired h \<Rightarrow>
          if h \<in> set (signal_waits s)
          then (let s1 = s\<lparr>signal_waits := remove1 h (signal_waits s)\<rparr>
                in Returned (case h of
                               RunSignalHandler \<Rightarrow> run_signalHandler s1
                             | PushLoopSignalHandler \<Rightarrow> stop s1))
          else Returned s
      | RegisterFailed reason patternId \<Rightarrow>
          if patternId \<in> set (m_registeredPrefixes s) \<and>
             patternId < length (m_trafficPatterns s)
          then Returned (onRegisterFailed reason patternId s)
          else Returned s)"

text \<open>
  \<^verbatim>\<open>io_service::run\<close> over a schedule: it returns when a handler has stopped the io
  service, it passes on the exception of a handler, and it is still blocked when the
  schedule ends. The rest of the schedule is handed back for the next call.
\<close>

datatype loop_exit = LoopReturned | LoopThrew exn | LoopBlocked

fun io_run :: "env \<Rightarrow> event list \<Rightarrow> NdnTrafficPush \<Rightarrow> loop_exit \<times> event list \<times> NdnTrafficPush" where
  "io_run E [] s = (LoopBlocked, [], s)"
| "io_run E (e # es) s =
     (case dispatch E e s of
        Threw x s' \<Rightarrow> (LoopThrew x, es, s')
      | Returned s' \<Rightarrow> if io_stopped s' then (LoopReturned, es, s') else io_run E es s')"

text \<open>\<^verbatim>\<open>Face::processEvents\<close> restarts a stopped io service and runs it.\<close>

definition processEvents ::
  "env \<Rightarrow> event list \<Rightarrow> NdnTrafficPush \<Rightarrow> loop_exit \<times> event list \<times> NdnTrafficPush" where
  "processEvents E sched s = io_run E sched ((emit FaceProcessEvents s)\<lparr>io_stopped := False\<rparr>)"

subsection \<open>\<^verbatim>\<open>startPushLoop\<close>\<close>

text \<open>Lines 285 to 293: the wait on the signal set, and the timer, whose first deadline is
  one interval from now.\<close>

definition startPushLoop_arm :: "nat \<Rightarrow> NdnTrafficPush \<Rightarrow> NdnTrafficPush" where
  "startPushLoop_arm patternId s =
     (let s1 = logger_log (''Starting push loop for pattern '' @ to_string (patternId + 1) @
                           ''.'') False False s;
          s2 = (emit (SignalSetAsyncWait PushLoopSignalHandler) s1)
                 \<lparr>signal_waits := signal_waits s1 @ [PushLoopSignalHandler]\<rparr>;
          d = clock s2 + m_generationInterval (m_trafficPatterns s2 ! patternId);
          s3 = (emit (TimerAsyncWait patternId d) s2)
                 \<lparr>timers := (timers s2)(patternId \<mapsto> \<lparr>expires_at = d, pending = True\<rparr>)\<rparr>
      in logger_log (''Push loop for pattern '' @ to_string (patternId + 1) @ '' started.'')
           False False s3)"

text \<open>
  The whole function: the first component of the result says that the event loop was still
  blocked when the schedule ended. The timer is a local variable and goes away on return;
  its handler refers to that variable and is not run afterwards.
\<close>

definition startPushLoop ::
  "env \<Rightarrow> nat \<Rightarrow> event list \<Rightarrow> NdnTrafficPush \<Rightarrow> bool \<times> event list \<times> NdnTrafficPush" where
  "startPushLoop E patternId sched s =
     (case processEvents E sched (startPushLoop_arm patternId s) of
        (LoopBlocked, rest, s') \<Rightarrow> (True, rest, s')
      | (LoopReturned, rest, s') \<Rightarrow>
          (False, rest, s'\<lparr>timers := (timers s')(patternId := None)\<rparr>)
      | (LoopThrew x, rest, s') \<Rightarrow>
          (False, rest,
           (emit IoServiceStop (logger_log (''ERROR: '' @ what E x) True True s'))
             \<lparr>io_stopped := True, timers := (timers s')(patternId := None)\<rparr>))"

subsection \<open>\<^verbatim>\<open>run\<close>\<close>

datatype exit_status = Exited int | Blocked

text \<open>Lines 100 to 104.\<close>

definition run_printPatterns :: "NdnTrafficPush \<Rightarrow> NdnTrafficPush" where
  "run_printPatterns s =
     fold (\<lambda>i s'.
             logger_log [] False False
               (logger_log (printTrafficConfiguration (m_trafficPatterns s' ! i)) False False
                 (logger_log (''Traffic Pattern Type #'' @ to_string (i + 1)) False False s')))
       [0 ..< length (m_trafficPatterns s)] s"

text \<open>Lines 124 to 130.\<close>

definition run_register :: "NdnTrafficPush \<Rightarrow> NdnTrafficPush" where
  "run_register s =
     fold (\<lambda>i s'.
             (emit (RegisterPrefix (m_name (m_trafficPatterns s' ! i)) i)
               (logger_log (''Registering pattern '' @ to_string (i + 1) @ ''.'')
                  True False s'))
               \<lparr>m_registeredPrefixes := m_registeredPrefixes s' @ [i]\<rparr>)
       [0 ..< length (m_trafficPatterns s)] s"

text \<open>Lines 132 to 135: the push loops are started one after the other, each call
  returning only when its event loop has returned.\<close>

fun run_pushLoops ::
  "env \<Rightarrow> nat list \<Rightarrow> event list \<Rightarrow> NdnTrafficPush \<Rightarrow> bool \<times> event list \<times> NdnTrafficPush" where
  "run_pushLoops E [] sched s = (False, sched, s)"
| "run_pushLoops E (i # ids) sched s =
     (case startPushLoop E i sched
             (logger_log (''Starting data push for pattern '' @ to_string (i + 1) @ ''.'')
                True False s) of
        (True, rest, s') \<Rightarrow> (True, rest, s')
      | (False, rest, s') \<Rightarrow> run_pushLoops E ids rest s')"

text \<open>Lines 111 to 146: everything after the test for the report-only mode.\<close>

definition run_publish :: "env \<Rightarrow> event list \<Rightarrow> NdnTrafficPush \<Rightarrow> exit_status \<times> NdnTrafficPush" where
  "run_publish E sched s =
     (let s1 = (emit (SignalSetAsyncWait RunSignalHandler) s)
                 \<lparr>signal_waits := signal_waits s @ [RunSignalHandler]\<rparr>;
          s2 = logger_log (''We have '' @ to_string (length (m_trafficPatterns s1)) @
                           '' traffic patterns.'') True False s1;
          s3 = run_register s2
      in case run_pushLoops E [0 ..< length (m_trafficPatterns s3)] sched s3 of
           (True, rest, s4) \<Rightarrow> (Blocked, s4)
         | (False, rest, s4) \<Rightarrow>
             (case processEvents E rest s4 of
                (LoopBlocked, rest', s5) \<Rightarrow> (Blocked, s5)
              | (LoopReturned, rest', s5) \<Rightarrow> (Exited (if m_hasError s5 then 1 else 0), s5)
              | (LoopThrew x, rest', s5) \<Rightarrow>
                  (Exited 1,
                   (emit IoServiceStop (logger_log (''ERROR: '' @ what E x) True True s5))
                     \<lparr>io_stopped := True\<rparr>)))"

definition run :: "env \<Rightarrow> event list \<Rightarrow> NdnTrafficPush \<Rightarrow> exit_status \<times> NdnTrafficPush" where
  "run E sched s =
     (let s0 = emit InitializeLog s in
      case readConfigurationFile E (m_configurationFile s0) of
        None \<Rightarrow> (Exited 2, s0)
      | Some patterns \<Rightarrow>
          (let s1 = s0\<lparr>m_trafficPatterns := m_trafficPatterns s0 @ patterns\<rparr> in
           if \<not> checkTrafficPatternCorrectness s1
           then (Exited 2,
                 logger_log ''ERROR: Traffic configuration provided is not proper'' False True s1)
           else
             (let s2 = run_printPatterns
                         (logger_log (''Traffic configuration file processing completed.'' @
                                      [CHR 0x0A]) True False s1)
              in if optional_eq (m_nMaximumInterests s2) 0
                 then (Exited 0, logStatistics s2)
                 else run_publish E sched s2)))"

subsection \<open>\<^verbatim>\<open>main\<close>\<close>

text \<open>
  The parsed command line: \<open>None\<close> stands for the exception of the option parser. The
  value of \<^verbatim>\<open>--count\<close> is an \<^verbatim>\<open>int\<close>; \<^verbatim>\<open>--delay\<close> has the default 0.
\<close>

record options =
  vm_help :: bool
  vm_count :: "int option"
  vm_delay :: int
  vm_quiet :: bool
  vm_configFile :: string

definition main :: "env \<Rightarrow> options option \<Rightarrow> event list \<Rightarrow> exit_status \<times> action list" where
  "main E cmdline sched =
     (case cmdline of
        None \<Rightarrow> (Exited 2, [PrintError ''ERROR: ''])
      | Some vm \<Rightarrow>
          if vm_help vm then (Exited 0, [PrintUsage True])
          else if vm_configFile vm = [] then (Exited 2, [PrintUsage False])
          else
            (let server = NdnTrafficPush_init (vm_configFile vm) in
             case (case vm_count vm of
                     None \<Rightarrow> Some server
                   | Some count \<Rightarrow>
                       if count < 0 then None
                       else Some (setMaximumInterests (of_int count) server)) of
               None \<Rightarrow>
                 (Exited 2,
                  [PrintError ''ERROR: the argument for option '--count' cannot be negative''])
             | Some server1 \<Rightarrow>
                 if vm_delay vm < 0
                 then (Exited 2,
                       [PrintError
                          ''ERROR: the argument for option '--delay' cannot be negative''])
                 else
                   (let server2 = setContentDelay (vm_delay vm) server1;
                        server3 = (if vm_quiet vm then setQuietLogging server2 else server2);
                        r = run E sched server3
                    in (fst r, trace (snd r)))))"

subsection \<open>Observations\<close>

text \<open>What a run did can be read off the trace: the objects handed to the face, the
  number of statistics reports, the number of calls of \<open>stop\<close>, and the calls other than
  log lines.\<close>

fun emitted :: "action list \<Rightarrow> Data list" where
  "emitted [] = []"
| "emitted (FacePut d # tr) = d # emitted tr"
| "emitted (a # tr) = emitted tr"

definition report_count :: "action list \<Rightarrow> nat" where
  "report_count tr = count_list tr (Log report_header False True)"

definition stop_count :: "action list \<Rightarrow> nat" where
  "stop_count tr = count_list tr FaceShutdown"

fun is_log :: "action \<Rightarrow> bool" where
  "is_log (Log line a b) = True"
| "is_log a = False"

definition effects :: "action list \<Rightarrow> action list" where
  "effects tr = filter (\<lambda>a. \<not> is_log a) tr"

text \<open>The global total is the sum, in \<^verbatim>\<open>uint64_t\<close> arithmetic, of the counters of the
  patterns.\<close>

definition counters_consistent :: "NdnTrafficPush \<Rightarrow> bool" where
  "counters_consistent s \<longleftrightarrow>
     m_nInterestsReceivedTotal s = sum_list (map m_nInterestsReceived (m_trafficPatterns s))"

subsection \<open>Sample inputs\<close>

text \<open>A pattern file with one pattern \<^verbatim>\<open>Name=/a\<close>, \<^verbatim>\<open>GenerationInterval=1000\<close>, and a
  platform on which strings hold at most \<open>2\<^sup>6\<^sup>2 - 1\<close> characters, the allocator provides
  buffers of up to \<open>2\<^sup>3\<^sup>0\<close> characters, signing and emission succeed and the random engine
  hands out the sixteen characters \<open>0\<close> to \<open>f\<close> in turn.\<close>

definition sample_pattern :: DataTrafficConfiguration where
  "sample_pattern =
     DataTrafficConfiguration_default\<lparr>m_name := ''/a'', m_generationInterval := 1000\<rparr>"

definition sample_env :: "DataTrafficConfiguration list \<Rightarrow> env" where
  "sample_env patterns =
     \<lparr> readConfigurationFile = (\<lambda>file. Some patterns),
       string_max_size = 4611686018427387903,
       reserve_ok = (\<lambda>n. n \<le> 1073741824),
       dist = (\<lambda>n. ''0123456789abcdef'' ! (n mod 16)),
       keyChain_sign_ok = (\<lambda>d i. True),
       face_put_ok = (\<lambda>d. True),
       what = (\<lambda>x. ''exception'') \<rparr>"

definition sample_options :: "int option \<Rightarrow> options" where
  "sample_options count =
     \<lparr> vm_help = False, vm_count = count, vm_delay = 0, vm_quiet = False,
       vm_configFile = ''patterns.conf'' \<rparr>"

text \<open>A publisher that has loaded the given patterns.\<close>

definition sample_server :: "DataTrafficConfiguration list \<Rightarrow> NdnTrafficPush" where
  "sample_server patterns =
     (NdnTrafficPush_init ''patterns.conf'')\<lparr>m_trafficPatterns := patterns\<rparr>"

text \<open>The same publisher in the middle of a run with a cap: every prefix registered and
  both handlers waiting on the signal set.\<close>

definition sample_running :: "DataTrafficConfiguration list \<Rightarrow> uint64_t \<Rightarrow> NdnTrafficPush" where
  "sample_running patterns cap =
     (sample_server patterns)
       \<lparr>m_nMaximumInterests := Some cap,
         m_registeredPrefixes := [0 ..< length patterns],
         signal_waits := [RunSignalHandler, PushLoopSignalHandler]\<rparr>"

section \<open>Properties\<close>

subsection \<open>Unfolding the program on a given input\<close>

text \<open>The weak congruence rules make the simplifier evaluate the subject of a case
  distinction before it looks at the branches, as a program does.\<close>

lemmas sample_defs =
  sample_server_def sample_running_def sample_pattern_def sample_env_def sample_options_def
  DataTrafficConfiguration_default_def NdnTrafficPush_init_def

lemmas sendData_defs =
  sendData_def sendData_content_def sendData_build_def sendData_count_def sendData_logSend_def
  sendData_delay_def sendData_logSent_def sendData_rearm_def sendData_checkCap_def
  sendData_ids_def sleep_for_def emit_def logger_log_def optional_gt_def content_header_def

lemmas run_defs =
  main_def run_def run_publish_def run_register_def run_printPatterns_def
  startPushLoop_def startPushLoop_arm_def processEvents_def dispatch_def
  run_signalHandler_def stop_def logStatistics_def logStatistics_pattern_def onRegisterFailed_def
  setMaximumInterests_def setContentDelay_def setQuietLogging_def
  checkTrafficPatternCorrectness_def optional_eq_def printTrafficConfiguration_def
  to_string_int_def

lemmas eval_congs =
  outcome.case_cong_weak option.case_cong_weak sum.case_cong_weak prod.case_cong_weak
  loop_exit.case_cong_weak event.case_cong_weak signal_handler.case_cong_weak
  bool.case_cong_weak let_weak_cong

lemma dispatch_Elapse [simp]: "dispatch E (Elapse d) s = Returned (s\<lparr>clock := clock s + int d\<rparr>)"
  by (simp add: dispatch_def)

lemma dispatch_TimerFired:
  "dispatch E (TimerFired patternId) s =
     (case timers s patternId of
        None \<Rightarrow> Returned s
      | Some t \<Rightarrow>
          if pending t \<and> patternId < length (m_trafficPatterns s)
          then sendData E patternId
                 (s\<lparr>timers := (timers s)(patternId \<mapsto> t\<lparr>pending := False\<rparr>)\<rparr>)
          else Returned s)"
  by (simp add: dispatch_def)

subsection \<open>Decimal digits\<close>

lemma to_string_digit: "n < 10 \<Longrightarrow> to_string n = [digit_char n]"
  by (simp add: to_string.simps)

lemma to_string_0: "to_string 0 = ''0''"
  by (simp add: to_string.simps digit_char_def)

lemma to_string_1: "to_string (Suc 0) = ''1''"
  by (simp add: to_string.simps digit_char_def)

lemma to_string_2: "to_string 2 = ''2''"
  by (simp add: to_string.simps digit_char_def)

subsection \<open>The observations distribute over the trace\<close>

lemma emitted_append [simp]: "emitted (xs @ ys) = emitted xs @ emitted ys"
  by (induction xs rule: emitted.induct) simp_all

lemma effects_append: "effects (xs @ ys) = effects xs @ effects ys"
  by (simp add: effects_def)

lemma report_count_append: "report_count (xs @ ys) = report_count xs + report_count ys"
  by (simp add: report_count_def)

lemma report_count_Nil: "report_count [] = 0"
  by (simp add: report_count_def)

lemma report_count_Cons:
  "report_count (a # tr) = (if a = Log report_header False True then 1 else 0) + report_count tr"
  by (simp add: report_count_def)

lemma report_count_concat:
  "(\<And>x. x \<in> set xs \<Longrightarrow> report_count (f x) = 0) \<Longrightarrow> report_count (concat (map f xs)) = 0"
  by (induction xs) (simp_all add: report_count_append report_count_Nil)

subsection \<open>The statistics report\<close>

lemma report_count_pattern: "report_count (logStatistics_pattern i p) = 0"
  by (simp add: report_count_Cons report_count_Nil logStatistics_pattern_def report_header_def)

lemma report_count_logStatistics:
  "report_count (trace (logStatistics s)) = report_count (trace s) + 1"
  by (simp add: logStatistics_def report_count_append report_count_concat report_count_pattern
        report_count_Cons report_count_Nil report_header_def)

lemma report_count_stop: "report_count (trace (stop s)) = report_count (trace s) + 1"
  by (simp add: stop_def emit_def report_count_append report_count_logStatistics
       report_count_Cons report_count_Nil)

subsection \<open>What each step leaves alone\<close>

lemma emit_fields [simp]:
  "m_configurationFile (emit a s) = m_configurationFile s \<and>
   m_nMaximumInterests (emit a s) = m_nMaximumInterests s \<and>
   m_contentDelayGlobal (emit a s) = m_contentDelayGlobal s \<and>
   m_trafficPatterns (emit a s) = m_trafficPatterns s \<and>
   m_registeredPrefixes (emit a s) = m_registeredPrefixes s \<and>
   m_nRegistrationsFailed (emit a s) = m_nRegistrationsFailed s \<and>
   m_nInterestsReceivedTotal (emit a s) = m_nInterestsReceivedTotal s \<and>
   m_wantQuiet (emit a s) = m_wantQuiet s \<and>
   m_hasError (emit a s) = m_hasError s \<and>
   signal_waits (emit a s) = signal_waits s \<and>
   io_stopped (emit a s) = io_stopped s \<and>
   timers (emit a s) = timers s \<and>
   clock (emit a s) = clock s \<and>
   rng_pos (emit a s) = rng_pos s"
  by (simp add: emit_def)

lemma logger_log_fields [simp]:
  "m_configurationFile (logger_log line a b s) = m_configurationFile s \<and>
   m_nMaximumInterests (logger_log line a b s) = m_nMaximumInterests s \<and>
   m_contentDelayGlobal (logger_log line a b s) = m_contentDelayGlobal s \<and>
   m_trafficPatterns (logger_log line a b s) = m_trafficPatterns s \<and>
   m_registeredPrefixes (logger_log line a b s) = m_registeredPrefixes s \<and>
   m_nRegistrationsFailed (logger_log line a b s) = m_nRegistrationsFailed s \<and>
   m_nInterestsReceivedTotal (logger_log line a b s) = m_nInterestsReceivedTotal s \<and>
   m_wantQuiet (logger_log line a b s) = m_wantQuiet s \<and>
   m_hasError (logger_log line a b s) = m_hasError s \<and>
   signal_waits (logger_log line a b s) = signal_waits s \<and>
   io_stopped (logger_log line a b s) = io_stopped s \<and>
   timers (logger_log line a b s) = timers s \<and>
   clock (logger_log line a b s) = clock s \<and>
   rng_pos (logger_log line a b s) = rng_pos s"
  by (simp add: logger_log_def emit_def)

lemma sleep_for_fields [simp]:
  "m_configurationFile (sleep_for d s) = m_configurationFile s \<and>
   m_nMaximumInterests (sleep_for d s) = m_nMaximumInterests s \<and>
   m_contentDelayGlobal (sleep_for d s) = m_contentDelayGlobal s \<and>
   m_trafficPatterns (sleep_for d s) = m_trafficPatterns s \<and>
   m_registeredPrefixes (sleep_for d s) = m_registeredPrefixes s \<and>
   m_nRegistrationsFailed (sleep_for d s) = m_nRegistrationsFailed s \<and>
   m_nInterestsReceivedTotal (sleep_for d s) = m_nInterestsReceivedTotal s \<and>
   m_wantQuiet (sleep_for d s) = m_wantQuiet s \<and>
   m_hasError (sleep_for d s) = m_hasError s \<and>
   signal_waits (sleep_for d s) = signal_waits s \<and>
   io_stopped (sleep_for d s) = io_stopped s \<and>
   timers (sleep_for d s) = timers s \<and>
   rng_pos (sleep_for d s) = rng_pos s"
  by (simp add: sleep_for_def emit_def)

lemma logStatistics_fields [simp]:
  "m_configurationFile (logStatistics s) = m_configurationFile s \<and>
   m_nMaximumInterests (logStatistics s) = m_nMaximumInterests s \<and>
   m_contentDelayGlobal (logStatistics s) = m_contentDelayGlobal s \<and>
   m_trafficPatterns (logStatistics s) = m_trafficPatterns s \<and>
   m_registeredPrefixes (logStatistics s) = m_registeredPrefixes s \<and>
   m_nRegistrationsFailed (logStatistics s) = m_nRegistrationsFailed s \<and>
   m_nInterestsReceivedTotal (logStatistics s) = m_nInterestsReceivedTotal s \<and>
   m_wantQuiet (logStatistics s) = m_wantQuiet s \<and>
   m_hasError (logStatistics s) = m_hasError s \<and>
   signal_waits (logStatistics s) = signal_waits s \<and>
   io_stopped (logStatistics s) = io_stopped s \<and>
   timers (logStatistics s) = timers s \<and>
   clock (logStatistics s) = clock s \<and>
   rng_pos (logStatistics s) = rng_pos s"
  by (simp add: logStatistics_def)

lemma stop_fields [simp]:
  "m_configurationFile (stop s) = m_configurationFile s \<and>
   m_nMaximumInterests (stop s) = m_nMaximumInterests s \<and>
   m_contentDelayGlobal (stop s) = m_contentDelayGlobal s \<and>
   m_trafficPatterns (stop s) = m_trafficPatterns s \<and>
   m_registeredPrefixes (stop s) = m_registeredPrefixes s \<and>
   m_nRegistrationsFailed (stop s) = m_nRegistrationsFailed s \<and>
   m_nInterestsReceivedTotal (stop s) = m_nInterestsReceivedTotal s \<and>
   m_wantQuiet (stop s) = m_wantQuiet s \<and>
   m_hasError (stop s) = m_hasError s \<and>
   signal_waits (stop s) = signal_waits s \<and>
   timers (stop s) = timers s \<and>
   clock (stop s) = clock s \<and>
   rng_pos (stop s) = rng_pos s"
  by (simp add: stop_def emit_def logStatistics_def)

lemma sendData_count_fields [simp]:
  "m_configurationFile (sendData_count patternId s) = m_configurationFile s \<and>
   m_nMaximumInterests (sendData_count patternId s) = m_nMaximumInterests s \<and>
   m_contentDelayGlobal (sendData_count patternId s) = m_contentDelayGlobal s \<and>
   m_registeredPrefixes (sendData_count patternId s) = m_registeredPrefixes s \<and>
   m_nRegistrationsFailed (sendData_count patternId s) = m_nRegistrationsFailed s \<and>
   m_wantQuiet (sendData_count patternId s) = m_wantQuiet s \<and>
   m_hasError (sendData_count patternId s) = m_hasError s \<and>
   signal_waits (sendData_count patternId s) = signal_waits s \<and>
   io_stopped (sendData_count patternId s) = io_stopped s \<and>
   timers (sendData_count patternId s) = timers s \<and>
   clock (sendData_count patternId s) = clock s \<and>
   rng_pos (sendData_count patternId s) = rng_pos s \<and>
   trace (sendData_count patternId s) = trace s"
  by (simp add: sendData_count_def)

lemma sendData_logSend_fields [simp]:
  "m_configurationFile (sendData_logSend patternId s) = m_configurationFile s \<and>
   m_nMaximumInterests (sendData_logSend patternId s) = m_nMaximumInterests s \<and>
   m_contentDelayGlobal (sendData_logSend patternId s) = m_contentDelayGlobal s \<and>
   m_trafficPatterns (sendData_logSend patternId s) = m_trafficPatterns s \<and>
   m_registeredPrefixes (sendData_logSend patternId s) = m_registeredPrefixes s \<and>
   m_nRegistrationsFailed (sendData_logSend patternId s) = m_nRegistrationsFailed s \<and>
   m_nInterestsReceivedTotal (sendData_logSend patternId s) = m_nInterestsReceivedTotal s \<and>
   m_wantQuiet (sendData_logSend patternId s) = m_wantQuiet s \<and>
   m_hasError (sendData_logSend patternId s) = m_hasError s \<and>
   signal_waits (sendData_logSend patternId s) = signal_waits s \<and>
   io_stopped (sendData_logSend patternId s) = io_stopped s \<and>
   timers (sendData_logSend patternId s) = timers s \<and>
   clock (sendData_logSend patternId s) = clock s \<and>
   rng_pos (sendData_logSend patternId s) = rng_pos s"
  by (simp add: sendData_logSend_def logger_log_def emit_def)

lemma sendData_delay_fields [simp]:
  "m_configurationFile (sendData_delay patternId s) = m_configurationFile s \<and>
   m_nMaximumInterests (sendData_delay patternId s) = m_nMaximumInterests s \<and>
   m_contentDelayGlobal (sendData_delay patternId s) = m_contentDelayGlobal s \<and>
   m_trafficPatterns (sendData_delay patternId s) = m_trafficPatterns s \<and>
   m_registeredPrefixes (sendData_delay patternId s) = m_registeredPrefixes s \<and>
   m_nRegistrationsFailed (sendData_delay patternId s) = m_nRegistrationsFailed s \<and>
   m_nInterestsReceivedTotal (sendData_delay patternId s) = m_nInterestsReceivedTotal s \<and>
   m_wantQuiet (sendData_delay patternId s) = m_wantQuiet s \<and>
   m_hasError (sendData_delay patternId s) = m_hasError s \<and>
   signal_waits (sendData_delay patternId s) = signal_waits s \<and>
   io_stopped (sendData_delay patternId s) = io_stopped s \<and>
   timers (sendData_delay patternId s) = timers s \<and>
   rng_pos (sendData_delay patternId s) = rng_pos s"
  by (simp add: sendData_delay_def sleep_for_def emit_def Let_def)

lemma sendData_logSent_fields [simp]:
  "m_configurationFile (sendData_logSent patternId s) = m_configurationFile s \<and>
   m_nMaximumInterests (sendData_logSent patternId s) = m_nMaximumInterests s \<and>
   m_contentDelayGlobal (sendData_logSent patternId s) = m_contentDelayGlobal s \<and>
   m_trafficPatterns (sendData_logSent patternId s) = m_trafficPatterns s \<and>
   m_registeredPrefixes (sendData_logSent patternId s) = m_registeredPrefixes s \<and>
   m_nRegistrationsFailed (sendData_logSent patternId s) = m_nRegistrationsFailed s \<and>
   m_nInterestsReceivedTotal (sendData_logSent patternId s) = m_nInterestsReceivedTotal s \<and>
   m_wantQuiet (sendData_logSent patternId s) = m_wantQuiet s \<and>
   m_hasError (sendData_logSent patternId s) = m_hasError s \<and>
   signal_waits (sendData_logSent patternId s) = signal_waits s \<and>
   io_stopped (sendData_logSent patternId s) = io_stopped s \<and>
   timers (sendData_logSent patternId s) = timers s \<and>
   clock (sendData_logSent patternId s) = clock s \<and>
   rng_pos (sendData_logSent patternId s) = rng_pos s"
  by (simp add: sendData_logSent_def logger_log_def emit_def)

lemma sendData_rearm_fields [simp]:
  "m_configurationFile (sendData_rearm patternId s) = m_configurationFile s \<and>
   m_nMaximumInterests (sendData_rearm patternId s) = m_nMaximumInterests s \<and>
   m_contentDelayGlobal (sendData_rearm patternId s) = m_contentDelayGlobal s \<and>
   m_trafficPatterns (sendData_rearm patternId s) = m_trafficPatterns s \<and>
   m_registeredPrefixes (sendData_rearm patternId s) = m_registeredPrefixes s \<and>
   m_nRegistrationsFailed (sendData_rearm patternId s) = m_nRegistrationsFailed s \<and>
   m_nInterestsReceivedTotal (sendData_rearm patternId s) = m_nInterestsReceivedTotal s \<and>
   m_wantQuiet (sendData_rearm patternId s) = m_wantQuiet s \<and>
   m_hasError (sendData_rearm patternId s) = m_hasError s \<and>
   signal_waits (sendData_rearm patternId s) = signal_waits s \<and>
   io_stopped (sendData_rearm patternId s) = io_stopped s \<and>
   clock (sendData_rearm patternId s) = clock s \<and>
   rng_pos (sendData_rearm patternId s) = rng_pos s"
  by (simp add: sendData_rearm_def emit_def Let_def split: option.splits)

lemma sendData_checkCap_fields [simp]:
  "m_configurationFile (sendData_checkCap s) = m_configurationFile s \<and>
   m_nMaximumInterests (sendData_checkCap s) = m_nMaximumInterests s \<and>
   m_contentDelayGlobal (sendData_checkCap s) = m_contentDelayGlobal s \<and>
   m_trafficPatterns (sendData_checkCap s) = m_trafficPatterns s \<and>
   m_nRegistrationsFailed (sendData_checkCap s) = m_nRegistrationsFailed s \<and>
   m_nInterestsReceivedTotal (sendData_checkCap s) = m_nInterestsReceivedTotal s \<and>
   m_wantQuiet (sendData_checkCap s) = m_wantQuiet s \<and>
   m_hasError (sendData_checkCap s) = m_hasError s \<and>
   signal_waits (sendData_checkCap s) = signal_waits s \<and>
   io_stopped (sendData_checkCap s) = io_stopped s \<and>
   timers (sendData_checkCap s) = timers s \<and>
   clock (sendData_checkCap s) = clock s \<and>
   rng_pos (sendData_checkCap s) = rng_pos s"
  by (simp add: sendData_checkCap_def logger_log_def emit_def split: option.splits)

lemma startPushLoop_arm_fields [simp]:
  "m_configurationFile (startPushLoop_arm patternId s) = m_configurationFile s \<and>
   m_nMaximumInterests (startPushLoop_arm patternId s) = m_nMaximumInterests s \<and>
   m_contentDelayGlobal (startPushLoop_arm patternId s) = m_contentDelayGlobal s \<and>
   m_trafficPatterns (startPushLoop_arm patternId s) = m_trafficPatterns s \<and>
   m_registeredPrefixes (startPushLoop_arm patternId s) = m_registeredPrefixes s \<and>
   m_nRegistrationsFailed (startPushLoop_arm patternId s) = m_nRegistrationsFailed s \<and>
   m_nInterestsReceivedTotal (startPushLoop_arm patternId s) = m_nInterestsReceivedTotal s \<and>
   m_wantQuiet (startPushLoop_arm patternId s) = m_wantQuiet s \<and>
   m_hasError (startPushLoop_arm patternId s) = m_hasError s \<and>
   io_stopped (startPushLoop_arm patternId s) = io_stopped s \<and>
   clock (startPushLoop_arm patternId s) = clock s \<and>
   rng_pos (startPushLoop_arm patternId s) = rng_pos s"
  by (simp add: startPushLoop_arm_def logger_log_def emit_def Let_def)

subsection \<open>What each step adds to the trace\<close>

lemma trace_emit [simp]: "trace (emit a s) = trace s @ [a]"
  by (simp add: emit_def)

lemma trace_logger_log [simp]: "trace (logger_log line a b s) = trace s @ [Log line a b]"
  by (simp add: logger_log_def)

lemma trace_sleep_for [simp]: "trace (sleep_for d s) = trace s @ [SleepFor d]"
  by (simp add: sleep_for_def)

lemma trace_sendData_count [simp]: "trace (sendData_count patternId s) = trace s"
  by (simp add: sendData_count_def)

lemma emitted_sendData_steps [simp]:
  "emitted (trace (sendData_logSend patternId s)) = emitted (trace s) \<and>
   emitted (trace (sendData_delay patternId s)) = emitted (trace s) \<and>
   emitted (trace (sendData_logSent patternId s)) = emitted (trace s) \<and>
   emitted (trace (sendData_rearm patternId s)) = emitted (trace s) \<and>
   emitted (trace (sendData_checkCap s)) = emitted (trace s)"
  by (simp add: sendData_logSend_def sendData_delay_def sendData_logSent_def sendData_rearm_def
        sendData_checkCap_def Let_def split: option.splits)

lemma length_patterns_sendData_count [simp]:
  "length (m_trafficPatterns (sendData_count patternId s)) = length (m_trafficPatterns s)"
  by (simp add: sendData_count_def)

lemma total_sendData_count [simp]:
  "m_nInterestsReceivedTotal (sendData_count patternId s) = m_nInterestsReceivedTotal s + 1"
  by (simp add: sendData_count_def)

lemma patterns_sendData_count:
  "m_trafficPatterns (sendData_count patternId s) =
     (m_trafficPatterns s)[patternId := (m_trafficPatterns s ! patternId)
        \<lparr>m_nInterestsReceived := m_nInterestsReceived (m_trafficPatterns s ! patternId) + 1\<rparr>]"
  by (simp add: sendData_count_def)

subsection \<open>The publish step as a whole\<close>

lemma sendData_Returned_emitted:
  assumes "sendData E patternId s = Returned s'"
  shows "\<exists>content pos'.
           sendData_content E (m_trafficPatterns s ! patternId) (rng_pos s) = Inr (content, pos') \<and>
           emitted (trace s') = emitted (trace s) @
             [(sendData_build (m_trafficPatterns s ! patternId))
                \<lparr>d_content := content,
                  d_signedWith := Some (m_signingInfo (m_trafficPatterns s ! patternId))\<rparr>]"
proof (cases "sendData_content E (m_trafficPatterns s ! patternId) (rng_pos s)")
  case (Inl x)
  with assms show ?thesis by (simp add: sendData_def)
next
  case (Inr r)
  obtain content pos' where r: "r = (content, pos')" by (cases r)
  from assms Inr r show ?thesis
    by (auto simp: sendData_def Let_def split: if_splits)
qed

lemma sendData_Threw_emitted:
  assumes "sendData E patternId s = Threw x s'"
  shows "emitted (trace s') = emitted (trace s)"
proof (cases "sendData_content E (m_trafficPatterns s ! patternId) (rng_pos s)")
  case (Inl y)
  with assms show ?thesis by (simp add: sendData_def)
next
  case (Inr r)
  obtain content pos' where r: "r = (content, pos')" by (cases r)
  from assms Inr r show ?thesis
    by (auto simp: sendData_def Let_def split: if_splits)
qed

subsection \<open>A content length of zero\<close>

lemma sendData_content_zero:
  assumes "m_contentLength pattern = Some 0" "m_content pattern = []"
  shows "sendData_content E pattern pos = Inr ([], pos)"
  using assms by (simp add: sendData_content_def optional_gt_def)

lemma sendData_Returned_rng:
  assumes "sendData E patternId s = Returned s'"
      and "sendData_content E (m_trafficPatterns s ! patternId) (rng_pos s) = Inr (content, pos')"
  shows "rng_pos s' = pos'"
  using assms by (auto simp: sendData_def Let_def split: if_splits)

lemma sendData_Threw_length_error:
  assumes "sendData E patternId s = Threw length_error s'"
  shows "sendData_content E (m_trafficPatterns s ! patternId) (rng_pos s) = Inl length_error"
  using assms by (auto simp: sendData_def Let_def split: if_splits sum.splits)

text \<open>
  C10. A pattern whose \<open>ContentBytes\<close> is configured as 0 and whose \<open>Content\<close> is empty:
  the guard \<^verbatim>\<open>m_contentLength > 0\<close> is false as it is for an absent value, so the payload
  is empty, no header is written, no random value is drawn and no length is computed. Every
  firing that emits an object emits one with the empty payload, and a firing never fails
  with the length error.
\<close>

theorem zero_content_length_empty_payload:
  assumes "m_contentLength (m_trafficPatterns s ! patternId) = Some 0"
      and "m_content (m_trafficPatterns s ! patternId) = []"
  shows "sendData_content E (m_trafficPatterns s ! patternId) (rng_pos s) = Inr ([], rng_pos s) \<and>
         sendData_content E (m_trafficPatterns s ! patternId) (rng_pos s) =
           sendData_content E ((m_trafficPatterns s ! patternId)\<lparr>m_contentLength := None\<rparr>)
             (rng_pos s) \<and>
         (case sendData E patternId s of
            Returned s' \<Rightarrow>
              (\<exists>d. emitted (trace s') = emitted (trace s) @ [d] \<and> d_content d = []) \<and>
              rng_pos s' = rng_pos s
          | Threw x s' \<Rightarrow> x \<noteq> length_error \<and> emitted (trace s') = emitted (trace s))"
proof -
  have c: "sendData_content E (m_trafficPatterns s ! patternId) (rng_pos s) = Inr ([], rng_pos s)"
    using assms by (rule sendData_content_zero)
  have n: "sendData_content E ((m_trafficPatterns s ! patternId)\<lparr>m_contentLength := None\<rparr>)
             (rng_pos s) = Inr ([], rng_pos s)"
    using assms(2) by (simp add: sendData_content_def optional_gt_def)
  show ?thesis
  proof (cases "sendData E patternId s")
    case (Returned s')
    from sendData_Returned_emitted [OF Returned] c
    have "\<exists>d. emitted (trace s') = emitted (trace s) @ [d] \<and> d_content d = []"
      by auto
    moreover have "rng_pos s' = rng_pos s"
      using Returned c by (rule sendData_Returned_rng)
    ultimately show ?thesis using c n Returned by simp
  next
    case (Threw x s')
    have "x \<noteq> length_error"
    proof
      assume "x = length_error"
      with Threw have "sendData E patternId s = Threw length_error s'" by simp
      from sendData_Threw_length_error [OF this] c show False by simp
    qed
    with sendData_Threw_emitted [OF Threw] c n Threw show ?thesis by simp
  qed
qed

theorem zero_content_length_empty_payload_witness:
  "m_contentLength
     (m_trafficPatterns (sample_server [sample_pattern\<lparr>m_contentLength := Some 0\<rparr>]) ! 0) = Some 0 \<and>
   m_content
     (m_trafficPatterns (sample_server [sample_pattern\<lparr>m_contentLength := Some 0\<rparr>]) ! 0) = [] \<and>
   (\<exists>s'. sendData (sample_env []) 0 (sample_server [sample_pattern\<lparr>m_contentLength := Some 0\<rparr>])
           = Returned s') \<and>
   (case sendData (sample_env []) 0 (sample_server [sample_pattern\<lparr>m_contentLength := Some 0\<rparr>]) of
      Returned s' \<Rightarrow>
        (\<exists>d. emitted (trace s') =
               emitted (trace (sample_server [sample_pattern\<lparr>m_contentLength := Some 0\<rparr>])) @ [d] \<and>
             d_content d = []) \<and>
        rng_pos s' = rng_pos (sample_server [sample_pattern\<lparr>m_contentLength := Some 0\<rparr>])
    | Threw x s' \<Rightarrow>
        x \<noteq> length_error \<and>
        emitted (trace s') =
          emitted (trace (sample_server [sample_pattern\<lparr>m_contentLength := Some 0\<rparr>])))"
proof -
  let ?s = "sample_server [sample_pattern\<lparr>m_contentLength := Some 0\<rparr>]"
  have h1: "m_contentLength (m_trafficPatterns ?s ! 0) = Some 0"
    by (simp add: sample_defs)
  have h2: "m_content (m_trafficPatterns ?s ! 0) = []"
    by (simp add: sample_defs)
  have r: "\<exists>s'. sendData (sample_env []) 0 ?s = Returned s'"
    by (simp add: sample_defs sendData_defs)
  from zero_content_length_empty_payload [OF h1 h2, of "sample_env []"] h1 h2 r
  show ?thesis by blast
qed

subsection \<open>The payload\<close>

lemma getRandomByteString_loop_eq:
  "getRandomByteString_loop E n pos s = (s @ map (dist E) [pos ..< pos + n], pos + n)"
proof (induction n arbitrary: pos s)
  case 0
  show ?case by simp
next
  case (Suc n)
  have "[pos ..< pos + Suc n] = pos # [Suc pos ..< Suc pos + n]"
    by (simp add: upt_rec)
  with Suc show ?case by simp
qed

lemma unat_sub_header:
  fixes L :: size_t
  assumes "h \<le> unat L"
  shows "unat (L - of_nat h) = unat L - h"
proof -
  have "unat L < 2 ^ 64" using unsigned_less [of L, where 'a = nat] by simp
  with assms have "h < 2 ^ 64" by simp
  hence u: "unat (of_nat h :: size_t) = h" by (simp add: unat_of_nat)
  hence "(of_nat h :: size_t) \<le> L" using assms by (simp add: word_le_nat_alt)
  thus ?thesis using u by (simp add: unat_sub)
qed

lemma sendData_content_explicit:
  assumes "m_content p \<noteq> []"
  shows "case sendData_content E p pos of
           Inl x \<Rightarrow> x = length_error \<or> x = bad_alloc
         | Inr r \<Rightarrow> fst r = m_content p"
  using assms
  by (auto simp: sendData_content_def getRandomByteString_def getRandomByteString_loop_eq
        split: sum.splits option.splits if_splits)

lemma sendData_content_generated:
  assumes "m_contentLength p = Some l" and "0 < l"
      and "length (content_header p) \<le> unat l"
      and "unat l - length (content_header p) \<le> string_max_size E"
      and "reserve_ok E (unat l - length (content_header p))"
  shows "sendData_content E p pos =
           Inr (if m_content p \<noteq> [] then m_content p
                else content_header p @
                     map (dist E) [pos ..< pos + (unat l - length (content_header p))],
                pos + (unat l - length (content_header p)))"
  using assms
  by (simp add: sendData_content_def optional_gt_def getRandomByteString_def
        getRandomByteString_loop_eq unat_sub_header)

lemma sendData_content_length:
  assumes "m_content p = []" and "m_contentLength p = Some l"
      and "length (content_header p) < unat l"
      and "sendData_content E p pos = Inr (content, pos')"
  shows "length content = unat l \<and> take (length (content_header p)) content = content_header p
         \<and> pos' = pos + (unat l - length (content_header p))"
proof -
  from assms(3) have pos: "0 < l" by (cases "l = 0") (simp_all add: word_greater_zero_iff)
  from assms(3) have le: "length (content_header p) \<le> unat l" by simp
  have m: "unat l - length (content_header p) \<le> string_max_size E"
  proof (rule ccontr)
    assume "\<not> ?thesis"
    with assms(1,2) pos le have "sendData_content E p pos = Inl length_error"
      by (simp add: sendData_content_def optional_gt_def getRandomByteString_def unat_sub_header)
    with assms(4) show False by simp
  qed
  have r: "reserve_ok E (unat l - length (content_header p))"
  proof (rule ccontr)
    assume "\<not> ?thesis"
    with assms(1,2) pos le m have "sendData_content E p pos = Inl bad_alloc"
      by (simp add: sendData_content_def optional_gt_def getRandomByteString_def unat_sub_header)
    with assms(4) show False by simp
  qed
  from sendData_content_generated [OF assms(2) pos le m r, of pos] assms(1,3,4)
  show ?thesis by auto
qed

text \<open>
  C4, at the failing input: the pattern \<^verbatim>\<open>Name=/a\<close>, \<^verbatim>\<open>ContentBytes=5\<close>, no
  \<^verbatim>\<open>Content\<close>, nothing published yet. The header \<^verbatim>\<open>/a/seq=0&%_\<close> has 11 characters.
  The code compares nothing: it computes \<open>5 - 11\<close> in \<^verbatim>\<open>std::size_t\<close>, which is
  18446744073709551610, and asks \<^verbatim>\<open>getRandomByteString\<close> for that many characters; the
  request fails inside \<^verbatim>\<open>reserve\<close> with \<^verbatim>\<open>std::length_error\<close>. The handler in
  \<^verbatim>\<open>startPushLoop\<close> catches the exception and stops the io service, the error flag stays
  unset, and the run that is then ended by a signal exits with status 0.
\<close>

theorem short_content_length_wraps_around:
  "content_header (sample_pattern\<lparr>m_contentLength := Some 5\<rparr>) = ''/a/seq=0&%_'' \<and>
   (5 :: size_t) - of_nat (length (content_header (sample_pattern\<lparr>m_contentLength := Some 5\<rparr>)))
     = 18446744073709551610 \<and>
   sendData_content (sample_env []) (sample_pattern\<lparr>m_contentLength := Some 5\<rparr>) 0
     = Inl length_error \<and>
   sendData (sample_env []) 0 (sample_server [sample_pattern\<lparr>m_contentLength := Some 5\<rparr>])
     = Threw length_error (sample_server [sample_pattern\<lparr>m_contentLength := Some 5\<rparr>]) \<and>
   fst (main (sample_env [sample_pattern\<lparr>m_contentLength := Some 5\<rparr>])
          (Some (sample_options None))
          [TimerFired 0, SignalHandlerFired RunSignalHandler]) = Exited 0"
proof -
  have h: "content_header (sample_pattern\<lparr>m_contentLength := Some 5\<rparr>) = ''/a/seq=0&%_''"
    by (simp add: content_header_def sample_defs to_string_0)
  have w: "(5 :: size_t) - of_nat (length (content_header (sample_pattern\<lparr>m_contentLength := Some 5\<rparr>)))
            = 18446744073709551610"
    by (simp add: h)
  have c: "sendData_content (sample_env []) (sample_pattern\<lparr>m_contentLength := Some 5\<rparr>) 0
            = Inl length_error"
    by (simp add: sendData_content_def optional_gt_def content_header_def to_string_0
          getRandomByteString_def sample_defs)
  have s: "sendData (sample_env []) 0 (sample_server [sample_pattern\<lparr>m_contentLength := Some 5\<rparr>])
            = Threw length_error (sample_server [sample_pattern\<lparr>m_contentLength := Some 5\<rparr>])"
    by (simp add: sendData_defs to_string_0 getRandomByteString_def sample_defs)
  have r: "fst (main (sample_env [sample_pattern\<lparr>m_contentLength := Some 5\<rparr>])
                 (Some (sample_options None))
                 [TimerFired 0, SignalHandlerFired RunSignalHandler]) = Exited 0"
    by (simp add: run_defs sample_defs sendData_defs getRandomByteString_def
          to_string_0 to_string_1 Let_def)
  from h w c s r show ?thesis by blast
qed

text \<open>
  C6, as stated, fails on the second half: with \<^verbatim>\<open>Content=hi\<close> and
  \<^verbatim>\<open>ContentBytes=20\<close> on the pattern \<^verbatim>\<open>/a\<close> the payload is \<^verbatim>\<open>hi\<close>, but the nine
  characters of filler behind the header of 11 were drawn from the random engine first:
  the engine has moved from position 0 to position 9.
\<close>

theorem explicit_content_filler_is_drawn:
  "sendData_content (sample_env [])
     (sample_pattern\<lparr>m_contentLength := Some 20, m_content := ''hi''\<rparr>) 0 = Inr (''hi'', 9)"
  by (simp add: sendData_content_def optional_gt_def content_header_def to_string_0
        getRandomByteString_def sample_defs getRandomByteString_loop_eq)

text \<open>
  C6, amended. For a pattern with an explicit content, whatever its content length: an
  object that is published carries the literal content as its payload, and a firing that
  publishes nothing leaves the emitted objects as they were. The filler is generated all
  the same and thrown away: when the content length is positive and not below the header
  length, and a string of content length minus header length characters can be reserved
  (that number is at most \<^verbatim>\<open>max_size()\<close> and the allocator provides the buffer), the
  random engine moves on by the content length minus the header length before the
  explicit content replaces the generated string.
\<close>

theorem explicit_content_is_the_payload:
  assumes "m_content (m_trafficPatterns s ! patternId) \<noteq> []"
  shows "(case sendData E patternId s of
            Returned s' \<Rightarrow>
              (\<exists>d. emitted (trace s') = emitted (trace s) @ [d] \<and>
                   d_content d = m_content (m_trafficPatterns s ! patternId))
          | Threw x s' \<Rightarrow> emitted (trace s') = emitted (trace s)) \<and>
         (\<forall>l. m_contentLength (m_trafficPatterns s ! patternId) = Some l \<and> 0 < l \<and>
              length (content_header (m_trafficPatterns s ! patternId)) \<le> unat l \<and>
              unat l - length (content_header (m_trafficPatterns s ! patternId))
                \<le> string_max_size E \<and>
              reserve_ok E (unat l - length (content_header (m_trafficPatterns s ! patternId)))
                \<longrightarrow>
              sendData_content E (m_trafficPatterns s ! patternId) (rng_pos s) =
                Inr (m_content (m_trafficPatterns s ! patternId),
                     rng_pos s +
                     (unat l - length (content_header (m_trafficPatterns s ! patternId)))))"
proof -
  let ?p = "m_trafficPatterns s ! patternId"
  have first: "case sendData E patternId s of
            Returned s' \<Rightarrow>
              (\<exists>d. emitted (trace s') = emitted (trace s) @ [d] \<and> d_content d = m_content ?p)
          | Threw x s' \<Rightarrow> emitted (trace s') = emitted (trace s)"
  proof (cases "sendData E patternId s")
    case (Returned s')
    from sendData_Returned_emitted [OF Returned]
    obtain content pos' where
      c: "sendData_content E ?p (rng_pos s) = Inr (content, pos')" and
      e: "emitted (trace s') = emitted (trace s) @
            [(sendData_build ?p)\<lparr>d_content := content, d_signedWith := Some (m_signingInfo ?p)\<rparr>]"
      by blast
    from sendData_content_explicit [OF assms, of E "rng_pos s"] c
    have "content = m_content ?p" by simp
    with e Returned show ?thesis by simp
  next
    case (Threw x s')
    with sendData_Threw_emitted [OF Threw] show ?thesis by simp
  qed
  have second: "\<forall>l. m_contentLength ?p = Some l \<and> 0 < l \<and> length (content_header ?p) \<le> unat l \<and>
              unat l - length (content_header ?p) \<le> string_max_size E \<and>
              reserve_ok E (unat l - length (content_header ?p)) \<longrightarrow>
              sendData_content E ?p (rng_pos s) =
                Inr (m_content ?p, rng_pos s + (unat l - length (content_header ?p)))"
    using assms by (auto simp: sendData_content_generated)
  from first second show ?thesis by blast
qed

theorem explicit_content_is_the_payload_witness:
  "m_content (m_trafficPatterns
      (sample_server [sample_pattern\<lparr>m_contentLength := Some 20, m_content := ''hi''\<rparr>]) ! 0) \<noteq> [] \<and>
   emitted (trace (sample_server
      [sample_pattern\<lparr>m_contentLength := Some 20, m_content := ''hi''\<rparr>])) = [] \<and>
   (\<exists>s' d. sendData (sample_env []) 0
              (sample_server [sample_pattern\<lparr>m_contentLength := Some 20, m_content := ''hi''\<rparr>])
             = Returned s' \<and>
           emitted (trace s') = [d] \<and> d_content d = ''hi'' \<and> rng_pos s' = 9) \<and>
   length (content_header (m_trafficPatterns
      (sample_server [sample_pattern\<lparr>m_contentLength := Some 20, m_content := ''hi''\<rparr>]) ! 0)) = 11 \<and>
   11 \<le> unat (20 :: size_t) \<and>
   unat (20 :: size_t) - 11 \<le> string_max_size (sample_env []) \<and>
   reserve_ok (sample_env []) (unat (20 :: size_t) - 11) \<and>
   sendData_content (sample_env [])
     (m_trafficPatterns
        (sample_server [sample_pattern\<lparr>m_contentLength := Some 20, m_content := ''hi''\<rparr>]) ! 0)
     (rng_pos (sample_server [sample_pattern\<lparr>m_contentLength := Some 20, m_content := ''hi''\<rparr>]))
     = Inr (''hi'', 9)"
proof -
  let ?s = "sample_server [sample_pattern\<lparr>m_contentLength := Some 20, m_content := ''hi''\<rparr>]"
  let ?p = "m_trafficPatterns ?s ! 0"
  have h: "m_content ?p \<noteq> []"
    by (simp add: sample_defs)
  have e: "emitted (trace ?s) = []"
    by (simp add: sample_defs)
  have r: "\<exists>s'. sendData (sample_env []) 0 ?s = Returned s' \<and> rng_pos s' = 9"
    by (simp add: sample_defs sendData_defs getRandomByteString_def getRandomByteString_loop_eq
          to_string_0 to_string_1)
  have c: "m_content ?p = ''hi''"
    by (simp add: sample_defs)
  have l: "m_contentLength ?p = Some 20" "rng_pos ?s = 0"
    by (simp_all add: sample_defs)
  have n: "length (content_header ?p) = 11"
    by (simp add: sample_defs content_header_def to_string_0)
  have m: "11 \<le> unat (20 :: size_t)" "unat (20 :: size_t) - 11 \<le> string_max_size (sample_env [])"
    "reserve_ok (sample_env []) (unat (20 :: size_t) - 11)"
    by (simp_all add: sample_defs)
  note inst = explicit_content_is_the_payload [OF h, of "sample_env []"]
  from r obtain s' where s': "sendData (sample_env []) 0 ?s = Returned s'" "rng_pos s' = 9"
    by blast
  from inst s'(1) e c
  have first: "\<exists>d. emitted (trace s') = [d] \<and> d_content d = ''hi''"
    by simp
  from inst have "m_contentLength ?p = Some 20 \<and> (0 :: size_t) < 20 \<and>
      length (content_header ?p) \<le> unat (20 :: size_t) \<and>
      unat (20 :: size_t) - length (content_header ?p) \<le> string_max_size (sample_env []) \<and>
      reserve_ok (sample_env []) (unat (20 :: size_t) - length (content_header ?p)) \<longrightarrow>
      sendData_content (sample_env []) ?p (rng_pos ?s) =
        Inr (m_content ?p, rng_pos ?s + (unat (20 :: size_t) - length (content_header ?p)))"
    by blast
  with l n m c have second: "sendData_content (sample_env []) ?p (rng_pos ?s) = Inr (''hi'', 9)"
    by simp
  from h e s' first n m second show ?thesis by blast
qed

subsection \<open>Stopping\<close>

lemma stop_count_append: "stop_count (xs @ ys) = stop_count xs + stop_count ys"
  by (simp add: stop_count_def)

lemma stop_count_logStatistics: "stop_count (trace (logStatistics s)) = stop_count (trace s)"
proof -
  have "count_list (concat (map f xs)) FaceShutdown = 0"
    if "\<And>x. x \<in> set xs \<Longrightarrow> count_list (f x) FaceShutdown = 0"
    for f :: "nat \<Rightarrow> action list" and xs
    using that by (induction xs) simp_all
  then show ?thesis
    by (simp add: logStatistics_def stop_count_def logStatistics_pattern_def)
qed

lemma stop_count_stop: "stop_count (trace (stop s)) = stop_count (trace s) + 1"
  using stop_count_logStatistics [of s] by (simp add: stop_def stop_count_def)

lemma io_stopped_stop [simp]: "io_stopped (stop s)"
  by (simp add: stop_def)

lemma stop_but_trace: "(stop (stop s))\<lparr>trace := t\<rparr> = (stop s)\<lparr>trace := t\<rparr>"
  by (simp add: stop_def emit_def logStatistics_def)

lemma report_count_funpow_stop:
  "report_count (trace ((stop ^^ n) s)) = report_count (trace s) + n"
  by (induction n) (simp_all add: report_count_stop)

lemma stop_count_funpow_stop:
  "stop_count (trace ((stop ^^ n) s)) = stop_count (trace s) + n"
  by (induction n) (simp_all add: stop_count_stop)

lemma report_count_run_signalHandler:
  "report_count (trace (run_signalHandler s)) = report_count (trace s) + 1"
  by (simp add: run_signalHandler_def report_count_stop report_count_append report_count_Cons
        report_count_Nil report_header_def split: option.splits)

text \<open>
  C2, as stated, fails: \<open>stop\<close> keeps no record of having run. On a publisher with one
  pattern the first call emits the statistics report and the second call emits it again,
  so the second call is not a no-op. A whole run shows the same: one pattern, a cap of 1;
  the timer fires once, one object is published, the cap is reached and the signal set is
  cancelled; the two handlers that wait on it, the one of \<^verbatim>\<open>run\<close> and the one of
  \<^verbatim>\<open>startPushLoop\<close>, then each call \<open>stop\<close>, and the run ends with status 0 after
  two reports.
\<close>

theorem stop_twice_reports_twice:
  "report_count (trace (sample_server [sample_pattern])) = 0 \<and>
   report_count (trace (stop (sample_server [sample_pattern]))) = 1 \<and>
   report_count (trace (stop (stop (sample_server [sample_pattern])))) = 2 \<and>
   stop (stop (sample_server [sample_pattern])) \<noteq> stop (sample_server [sample_pattern]) \<and>
   fst (main (sample_env [sample_pattern]) (Some (sample_options (Some 1)))
          [TimerFired 0, SignalHandlerFired RunSignalHandler,
           SignalHandlerFired PushLoopSignalHandler]) = Exited 0 \<and>
   length (emitted
     (snd (main (sample_env [sample_pattern]) (Some (sample_options (Some 1)))
             [TimerFired 0, SignalHandlerFired RunSignalHandler,
              SignalHandlerFired PushLoopSignalHandler]))) = 1 \<and>
   report_count
     (snd (main (sample_env [sample_pattern]) (Some (sample_options (Some 1)))
             [TimerFired 0, SignalHandlerFired RunSignalHandler,
              SignalHandlerFired PushLoopSignalHandler])) = 2"
proof -
  have a: "report_count (trace (sample_server [sample_pattern])) = 0"
    by (simp add: sample_defs report_count_Nil)
  have b: "report_count (trace (stop (sample_server [sample_pattern]))) = 1"
    using a by (simp add: report_count_stop)
  have c: "report_count (trace (stop (stop (sample_server [sample_pattern])))) = 2"
    using b by (simp add: report_count_stop)
  from b c have d: "stop (stop (sample_server [sample_pattern])) \<noteq> stop (sample_server [sample_pattern])"
    by auto
  have e: "fst (main (sample_env [sample_pattern]) (Some (sample_options (Some 1)))
          [TimerFired 0, SignalHandlerFired RunSignalHandler,
           SignalHandlerFired PushLoopSignalHandler]) = Exited 0 \<and>
   length (emitted
     (snd (main (sample_env [sample_pattern]) (Some (sample_options (Some 1)))
             [TimerFired 0, SignalHandlerFired RunSignalHandler,
              SignalHandlerFired PushLoopSignalHandler]))) = 1 \<and>
   report_count
     (snd (main (sample_env [sample_pattern]) (Some (sample_options (Some 1)))
             [TimerFired 0, SignalHandlerFired RunSignalHandler,
              SignalHandlerFired PushLoopSignalHandler])) = 2"
    by (simp add: run_defs dispatch_TimerFired sample_defs sendData_defs to_string_0
          to_string_1 Let_def report_count_Cons report_count_Nil report_count_append
          report_header_def cong: eval_congs)
  from a b c d e show ?thesis by blast
qed

lemma stop_count_steps:
  "stop_count (trace (logger_log line a b s)) = stop_count (trace s) \<and>
   stop_count (trace (sleep_for d s)) = stop_count (trace s) \<and>
   stop_count (trace (sendData_count patternId s)) = stop_count (trace s) \<and>
   stop_count (trace (sendData_logSend patternId s)) = stop_count (trace s) \<and>
   stop_count (trace (sendData_delay patternId s)) = stop_count (trace s) \<and>
   stop_count (trace (sendData_logSent patternId s)) = stop_count (trace s) \<and>
   stop_count (trace (sendData_rearm patternId s)) = stop_count (trace s) \<and>
   stop_count (trace (sendData_checkCap s)) = stop_count (trace s)"
  by (simp add: stop_count_def sendData_logSend_def sendData_delay_def sendData_logSent_def
        sendData_rearm_def sendData_checkCap_def Let_def split: option.splits)

lemma report_count_steps:
  "report_count (trace (logger_log line a False s)) = report_count (trace s) \<and>
   report_count (trace (emit (FacePut d) s)) = report_count (trace s) \<and>
   report_count (trace (emit (KeyChainSign i) s)) = report_count (trace s) \<and>
   report_count (trace (sleep_for dl s)) = report_count (trace s) \<and>
   report_count (trace (sendData_count patternId s)) = report_count (trace s) \<and>
   report_count (trace (sendData_logSend patternId s)) = report_count (trace s) \<and>
   report_count (trace (sendData_delay patternId s)) = report_count (trace s) \<and>
   report_count (trace (sendData_logSent patternId s)) = report_count (trace s) \<and>
   report_count (trace (sendData_rearm patternId s)) = report_count (trace s) \<and>
   report_count (trace (sendData_checkCap s)) = report_count (trace s)"
  by (simp add: report_count_def sendData_logSend_def sendData_delay_def sendData_logSent_def
        sendData_rearm_def sendData_checkCap_def Let_def split: option.splits)

lemma sendData_no_stop:
  "case sendData E patternId s of
     Returned s' \<Rightarrow> stop_count (trace s') = stop_count (trace s) \<and>
                    report_count (trace s') = report_count (trace s) \<and>
                    io_stopped s' = io_stopped s
   | Threw x s' \<Rightarrow> stop_count (trace s') = stop_count (trace s) \<and>
                   report_count (trace s') = report_count (trace s) \<and>
                   io_stopped s' = io_stopped s"
proof (cases "sendData_content E (m_trafficPatterns s ! patternId) (rng_pos s)")
  case (Inl x)
  then show ?thesis by (simp add: sendData_def)
next
  case (Inr r)
  obtain content pos' where r: "r = (content, pos')" by (cases r)
  have e: "stop_count (tr @ [a]) = stop_count tr" if "a \<noteq> FaceShutdown" for a tr
    using that by (simp add: stop_count_def)
  have f: "report_count (tr @ [a]) = report_count tr" if "a \<noteq> Log report_header False True"
    for a tr
    using that by (simp add: report_count_def)
  from Inr r show ?thesis
    by (simp add: sendData_def Let_def e f stop_count_steps report_count_steps)
qed

lemma sendData_checkCap_reached:
  assumes "m_nMaximumInterests s = Some m" and "m \<le> m_nInterestsReceivedTotal s"
  shows "sendData_checkCap s =
           s\<lparr>m_registeredPrefixes := [],
             trace := trace s @ [Log ''Finished data sending.'' False False,
                                 ClearRegisteredPrefixes, SignalSetCancel]\<rparr>"
  using assms by (simp add: sendData_checkCap_def logger_log_def emit_def)

lemma sendData_cap_reached:
  assumes "sendData E patternId s = Returned s'"
      and "m_nMaximumInterests s = Some m" and "m \<le> m_nInterestsReceivedTotal s + 1"
  shows "m_registeredPrefixes s' = [] \<and>
         (\<exists>tr. trace s' = tr @ [Log ''Finished data sending.'' False False,
                                ClearRegisteredPrefixes, SignalSetCancel])"
proof (cases "sendData_content E (m_trafficPatterns s ! patternId) (rng_pos s)")
  case (Inl x)
  with assms show ?thesis by (simp add: sendData_def)
next
  case (Inr r)
  obtain content pos' where r: "r = (content, pos')" by (cases r)
  from assms(1) Inr r obtain s5 where
    s': "s' = sendData_checkCap s5" and
    m: "m_nMaximumInterests s5 = m_nMaximumInterests s" and
    t: "m_nInterestsReceivedTotal s5 = m_nInterestsReceivedTotal s + 1"
    by (auto simp: sendData_def Let_def split: if_splits)
  from sendData_checkCap_reached [of s5 m] assms(2,3) m t s'
  show ?thesis by simp
qed


lemma stop_count_Log:
  "stop_count (tr @ Log line a b # rest) = stop_count (tr @ rest)"
  by (simp add: stop_count_def)

lemma dispatch_signal_handler:
  assumes "h \<in> set (signal_waits s)"
  shows "\<exists>s'. dispatch E (SignalHandlerFired h) s = Returned s' \<and>
              report_count (trace s') = report_count (trace s) + 1 \<and>
              stop_count (trace s') = stop_count (trace s) + 1 \<and>
              io_stopped s'"
proof (cases h)
  case RunSignalHandler
  have "stop_count (trace (run_signalHandler s0)) = stop_count (trace s0) + 1" for s0
    by (simp add: run_signalHandler_def stop_count_stop stop_count_Log split: option.splits)
  moreover have "io_stopped (run_signalHandler s0)" for s0
    by (simp add: run_signalHandler_def)
  ultimately show ?thesis
    using assms RunSignalHandler
    by (simp add: dispatch_def Let_def report_count_run_signalHandler)
next
  case PushLoopSignalHandler
  with assms show ?thesis
    by (simp add: dispatch_def Let_def report_count_stop stop_count_stop)
qed

lemma stop_count_onRegisterFailed:
  "stop_count (trace (onRegisterFailed reason patternId s)) =
     stop_count (trace s) +
     (if m_nRegistrationsFailed s + 1 = of_nat (length (m_trafficPatterns s)) then 1 else 0)"
  by (simp add: onRegisterFailed_def Let_def stop_count_stop stop_count_Log)

lemma report_count_onRegisterFailed:
  "report_count (trace (onRegisterFailed reason patternId s)) =
     report_count (trace s) +
     (if m_nRegistrationsFailed s + 1 = of_nat (length (m_trafficPatterns s)) then 1 else 0)"
  by (simp add: onRegisterFailed_def Let_def report_count_stop report_count_append
        report_count_Cons report_count_Nil report_header_def)

text \<open>
  C2, amended. \<open>stop\<close> has no guard: every call emits the statistics report, shuts the
  face down and stops the io service, so after \<open>n\<close> calls there are \<open>n\<close> more reports and
  \<open>n\<close> more shutdowns, and a repeated call changes nothing but the output. Each of the two
  handlers that wait on the signal set calls \<open>stop\<close> once whenever it is dispatched, and a
  registration failure calls it once exactly when it brings the count of failures to the
  number of patterns. Reaching the cap does not call \<open>stop\<close>: a publish step, however it
  ends, adds no report and no shutdown and leaves the io service as it was; when it returns
  with the total at or above the cap, it has released the registration handles and, as the
  last thing it did, cancelled the signal set.
\<close>

theorem stop_reports_on_every_call:
  "report_count (trace ((stop ^^ n) s)) = report_count (trace s) + n \<and>
   stop_count (trace ((stop ^^ n) s)) = stop_count (trace s) + n \<and>
   io_stopped (stop s) \<and>
   (stop (stop s))\<lparr>trace := t\<rparr> = (stop s)\<lparr>trace := t\<rparr> \<and>
   (\<forall>h \<in> set (signal_waits s).
      \<exists>s'. dispatch E (SignalHandlerFired h) s = Returned s' \<and>
           report_count (trace s') = report_count (trace s) + 1 \<and>
           stop_count (trace s') = stop_count (trace s) + 1 \<and>
           io_stopped s') \<and>
   report_count (trace (onRegisterFailed reason patternId s)) =
     report_count (trace s) +
     (if m_nRegistrationsFailed s + 1 = of_nat (length (m_trafficPatterns s)) then 1 else 0) \<and>
   stop_count (trace (onRegisterFailed reason patternId s)) =
     stop_count (trace s) +
     (if m_nRegistrationsFailed s + 1 = of_nat (length (m_trafficPatterns s)) then 1 else 0) \<and>
   (case sendData E patternId s of
      Returned s' \<Rightarrow>
        stop_count (trace s') = stop_count (trace s) \<and>
        report_count (trace s') = report_count (trace s) \<and>
        io_stopped s' = io_stopped s \<and>
        (\<forall>m. m_nMaximumInterests s = Some m \<and> m \<le> m_nInterestsReceivedTotal s + 1 \<longrightarrow>
             m_registeredPrefixes s' = [] \<and>
             (\<exists>tr. trace s' = tr @ [Log ''Finished data sending.'' False False,
                                    ClearRegisteredPrefixes, SignalSetCancel]))
    | Threw x s' \<Rightarrow>
        stop_count (trace s') = stop_count (trace s) \<and>
        report_count (trace s') = report_count (trace s) \<and>
        io_stopped s' = io_stopped s)"
proof -
  have a: "report_count (trace ((stop ^^ n) s)) = report_count (trace s) + n"
    by (rule report_count_funpow_stop)
  have b: "stop_count (trace ((stop ^^ n) s)) = stop_count (trace s) + n"
    by (rule stop_count_funpow_stop)
  have c: "io_stopped (stop s)" by simp
  have d: "(stop (stop s))\<lparr>trace := t\<rparr> = (stop s)\<lparr>trace := t\<rparr>" by (rule stop_but_trace)
  have e: "\<forall>h \<in> set (signal_waits s).
      \<exists>s'. dispatch E (SignalHandlerFired h) s = Returned s' \<and>
           report_count (trace s') = report_count (trace s) + 1 \<and>
           stop_count (trace s') = stop_count (trace s) + 1 \<and>
           io_stopped s'"
    by (blast intro: dispatch_signal_handler)
  note f = report_count_onRegisterFailed [of reason patternId s]
  note g = stop_count_onRegisterFailed [of reason patternId s]
  have h: "case sendData E patternId s of
      Returned s' \<Rightarrow>
        stop_count (trace s') = stop_count (trace s) \<and>
        report_count (trace s') = report_count (trace s) \<and>
        io_stopped s' = io_stopped s \<and>
        (\<forall>m. m_nMaximumInterests s = Some m \<and> m \<le> m_nInterestsReceivedTotal s + 1 \<longrightarrow>
             m_registeredPrefixes s' = [] \<and>
             (\<exists>tr. trace s' = tr @ [Log ''Finished data sending.'' False False,
                                    ClearRegisteredPrefixes, SignalSetCancel]))
    | Threw x s' \<Rightarrow>
        stop_count (trace s') = stop_count (trace s) \<and>
        report_count (trace s') = report_count (trace s) \<and>
        io_stopped s' = io_stopped s"
  proof (cases "sendData E patternId s")
    case (Returned s')
    from sendData_no_stop [where E = E and patternId = patternId and s = s] Returned
    have "stop_count (trace s') = stop_count (trace s) \<and>
          report_count (trace s') = report_count (trace s) \<and>
          io_stopped s' = io_stopped s" by simp
    moreover have "m_registeredPrefixes s' = [] \<and>
             (\<exists>tr. trace s' = tr @ [Log ''Finished data sending.'' False False,
                                    ClearRegisteredPrefixes, SignalSetCancel])"
      if "m_nMaximumInterests s = Some m" "m \<le> m_nInterestsReceivedTotal s + 1" for m
      using Returned that by (rule sendData_cap_reached)
    ultimately show ?thesis using Returned by simp
  next
    case (Threw x s')
    with sendData_no_stop [where E = E and patternId = patternId and s = s] show ?thesis by simp
  qed
  from a b c d e f g h show ?thesis by blast
qed


theorem stop_reports_on_every_call_witness:
  "report_count (trace ((stop ^^ 3) (sample_server [sample_pattern]))) = 3 \<and>
   stop_count (trace ((stop ^^ 3) (sample_server [sample_pattern]))) = 3 \<and>
   report_count (trace (onRegisterFailed ''timeout'' 0 (sample_server [sample_pattern]))) = 1 \<and>
   stop_count (trace (onRegisterFailed ''timeout'' 0 (sample_server [sample_pattern]))) = 1 \<and>
   report_count
     (trace (onRegisterFailed ''timeout'' 0 (sample_server [sample_pattern, sample_pattern]))) = 0 \<and>
   RunSignalHandler \<in> set (signal_waits (sample_running [sample_pattern] 1)) \<and>
   (\<exists>s'. dispatch (sample_env []) (SignalHandlerFired RunSignalHandler)
            (sample_running [sample_pattern] 1) = Returned s' \<and>
         report_count (trace s') = 1 \<and> stop_count (trace s') = 1 \<and> io_stopped s') \<and>
   m_nMaximumInterests (sample_running [sample_pattern] 1) = Some 1 \<and>
   (1 :: uint64_t) \<le> m_nInterestsReceivedTotal (sample_running [sample_pattern] 1) + 1 \<and>
   m_registeredPrefixes (sample_running [sample_pattern] 1) = [0] \<and>
   (\<exists>s'. sendData (sample_env []) 0 (sample_running [sample_pattern] 1) = Returned s' \<and>
         stop_count (trace s') = 0 \<and> report_count (trace s') = 0 \<and> \<not> io_stopped s' \<and>
         m_registeredPrefixes s' = [] \<and>
         (\<exists>tr. trace s' = tr @ [Log ''Finished data sending.'' False False,
                                ClearRegisteredPrefixes, SignalSetCancel]))"
proof -
  let ?E = "sample_env []"
  let ?r = "sample_running [sample_pattern] 1"
  have a: "report_count (trace (sample_server ps)) = 0 \<and> stop_count (trace (sample_server ps)) = 0"
    for ps
    by (simp add: sample_defs report_count_Nil stop_count_def)
  have b: "m_nRegistrationsFailed (sample_server ps) = 0 \<and> m_trafficPatterns (sample_server ps) = ps"
    for ps
    by (simp add: sample_defs)
  have c: "report_count (trace ?r) = 0 \<and> stop_count (trace ?r) = 0 \<and> \<not> io_stopped ?r"
    by (simp add: sample_defs report_count_Nil stop_count_def)
  have d: "RunSignalHandler \<in> set (signal_waits ?r)"
    by (simp add: sample_defs)
  have e: "m_nMaximumInterests ?r = Some 1 \<and> (1 :: uint64_t) \<le> m_nInterestsReceivedTotal ?r + 1
           \<and> m_registeredPrefixes ?r = [0]"
    by (simp add: sample_defs)
  have f: "\<exists>s'. sendData ?E 0 ?r = Returned s'"
    by (simp add: sample_defs sendData_defs to_string_0 to_string_1)
  then obtain s1 where s1: "sendData ?E 0 ?r = Returned s1" by blast
  note one = stop_reports_on_every_call
               [of 3 "sample_server [sample_pattern]" _ ?E "''timeout''" 0]
  note two = stop_reports_on_every_call
               [of 3 "sample_server [sample_pattern, sample_pattern]" _ ?E "''timeout''" 0]
  note run = stop_reports_on_every_call [of 3 ?r _ ?E "''timeout''" 0]
  from one have g: "report_count (trace ((stop ^^ 3) (sample_server [sample_pattern]))) = 3 \<and>
      stop_count (trace ((stop ^^ 3) (sample_server [sample_pattern]))) = 3 \<and>
      report_count (trace (onRegisterFailed ''timeout'' 0 (sample_server [sample_pattern]))) = 1 \<and>
      stop_count (trace (onRegisterFailed ''timeout'' 0 (sample_server [sample_pattern]))) = 1"
    by (simp add: a b)
  from two have h: "report_count
     (trace (onRegisterFailed ''timeout'' 0 (sample_server [sample_pattern, sample_pattern]))) = 0"
    by (simp add: a b)
  from run d c have i: "\<exists>s'. dispatch ?E (SignalHandlerFired RunSignalHandler) ?r = Returned s' \<and>
         report_count (trace s') = 1 \<and> stop_count (trace s') = 1 \<and> io_stopped s'"
    by auto
  from run s1 c e have j: "stop_count (trace s1) = 0 \<and> report_count (trace s1) = 0 \<and>
         \<not> io_stopped s1 \<and> m_registeredPrefixes s1 = [] \<and>
         (\<exists>tr. trace s1 = tr @ [Log ''Finished data sending.'' False False,
                                ClearRegisteredPrefixes, SignalSetCancel])"
    by simp
  from g h d i e s1 j show ?thesis by blast
qed

subsection \<open>Registration failures\<close>

lemma onRegisterFailed_partial:
  assumes "m_nRegistrationsFailed s + 1 \<noteq> of_nat (length (m_trafficPatterns s))"
  shows "onRegisterFailed reason patternId s =
           s\<lparr>m_nRegistrationsFailed := m_nRegistrationsFailed s + 1,
             trace := trace (onRegisterFailed reason patternId s)\<rparr> \<and>
         stop_count (trace (onRegisterFailed reason patternId s)) = stop_count (trace s) \<and>
         emitted (trace (onRegisterFailed reason patternId s)) = emitted (trace s)"
  using assms by (simp add: onRegisterFailed_def Let_def logger_log_def emit_def stop_count_def)

lemma onRegisterFailed_total:
  assumes "m_nRegistrationsFailed s + 1 = of_nat (length (m_trafficPatterns s))"
  shows "m_hasError (onRegisterFailed reason patternId s) \<and>
         io_stopped (onRegisterFailed reason patternId s) \<and>
         stop_count (trace (onRegisterFailed reason patternId s)) = stop_count (trace s) + 1"
  using assms
  by (simp add: onRegisterFailed_def Let_def stop_count_stop)
     (simp add: stop_count_def)

lemma onRegisterFailed_count [simp]:
  "m_nRegistrationsFailed (onRegisterFailed reason patternId s) = m_nRegistrationsFailed s + 1"
  by (simp add: onRegisterFailed_def Let_def)

lemma onRegisterFailed_patterns [simp]:
  "m_trafficPatterns (onRegisterFailed reason patternId s) = m_trafficPatterns s"
  by (simp add: onRegisterFailed_def Let_def)

lemma size_t_of_nat_eq_iff:
  assumes "m < 2 ^ 64" and "n < 2 ^ 64"
  shows "(of_nat m :: size_t) = of_nat n \<longleftrightarrow> m = n"
proof
  assume "(of_nat m :: size_t) = of_nat n"
  then have "unat (of_nat m :: size_t) = unat (of_nat n :: size_t)" by simp
  with assms show "m = n" by (simp add: unat_of_nat)
qed simp

lemma registration_failures_fold:
  assumes "m_nRegistrationsFailed s = of_nat k"
      and "k + length fs \<le> length (m_trafficPatterns s)"
      and "length (m_trafficPatterns s) < 2 ^ 64"
  shows "m_nRegistrationsFailed (fold (\<lambda>f. onRegisterFailed (fst f) (snd f)) fs s)
           = of_nat (k + length fs) \<and>
         (if k + length fs = length (m_trafficPatterns s) \<and> fs \<noteq> []
          then m_hasError (fold (\<lambda>f. onRegisterFailed (fst f) (snd f)) fs s) \<and>
               io_stopped (fold (\<lambda>f. onRegisterFailed (fst f) (snd f)) fs s) \<and>
               stop_count (trace (fold (\<lambda>f. onRegisterFailed (fst f) (snd f)) fs s))
                 = stop_count (trace s) + 1
          else (fold (\<lambda>f. onRegisterFailed (fst f) (snd f)) fs s)
                 \<lparr>trace := trace s, m_nRegistrationsFailed := m_nRegistrationsFailed s\<rparr> = s \<and>
               stop_count (trace (fold (\<lambda>f. onRegisterFailed (fst f) (snd f)) fs s))
                 = stop_count (trace s) \<and>
               emitted (trace (fold (\<lambda>f. onRegisterFailed (fst f) (snd f)) fs s))
                 = emitted (trace s))"
  using assms
proof (induction fs arbitrary: s k)
  case Nil
  then show ?case by simp
next
  case (Cons f fs)
  let ?g = "\<lambda>f. onRegisterFailed (fst f) (snd f)"
  let ?s1 = "onRegisterFailed (fst f) (snd f) s"
  let ?s' = "fold ?g fs ?s1"
  let ?P = "length (m_trafficPatterns s)"
  have unfold: "fold ?g (f # fs) s = ?s'" by simp
  have len: "k + length (f # fs) = Suc k + length fs" by simp
  have P1: "length (m_trafficPatterns ?s1) = ?P" by simp
  have k1: "m_nRegistrationsFailed ?s1 = of_nat (Suc k)"
    using Cons.prems(1) by simp
  have le: "Suc k + length fs \<le> length (m_trafficPatterns ?s1)"
    using Cons.prems(2) by simp
  have lt: "length (m_trafficPatterns ?s1) < 2 ^ 64"
    using Cons.prems(3) by simp
  note IH = Cons.IH [OF k1 le lt]
  have count: "m_nRegistrationsFailed ?s' = of_nat (k + length (f # fs))"
    unfolding len using IH by (rule conjunct1)
  have eq: "m_nRegistrationsFailed s + 1 = of_nat ?P \<longleftrightarrow> Suc k = ?P"
  proof -
    have a: "m_nRegistrationsFailed s + 1 = (of_nat (Suc k) :: size_t)"
      using Cons.prems(1) by simp
    have "Suc k < 2 ^ 64" using Cons.prems(2,3) by simp
    then have b: "((of_nat (Suc k) :: size_t) = of_nat ?P) = (Suc k = ?P)"
      using Cons.prems(3) by (rule size_t_of_nat_eq_iff)
    show ?thesis unfolding a by (rule b)
  qed
  show ?case
  proof (cases "Suc k = ?P")
    case True
    have fs: "fs = []"
    proof (cases fs)
      case (Cons g gs)
      with True Cons.prems(2) show ?thesis by simp
    qed simp
    from True eq have "m_nRegistrationsFailed s + 1 = of_nat ?P" by simp
    note tot = onRegisterFailed_total [OF this, of "fst f" "snd f"]
    have cond: "k + length (f # fs) = ?P \<and> f # fs \<noteq> []"
      using True fs by simp
    have "m_hasError ?s' \<and> io_stopped ?s' \<and> stop_count (trace ?s') = stop_count (trace s) + 1"
      using tot fs by simp
    with count show ?thesis
      unfolding unfold by (simp only: if_P [OF cond] simp_thms)
  next
    case False
    with eq have ne: "m_nRegistrationsFailed s + 1 \<noteq> of_nat ?P" by simp
    note part = onRegisterFailed_partial [OF ne, of "fst f" "snd f"]
    have frame: "?s1\<lparr>trace := trace s, m_nRegistrationsFailed := m_nRegistrationsFailed s\<rparr> = s"
      by (subst conjunct1 [OF part]) simp
    show ?thesis
    proof (cases "Suc k + length fs = ?P \<and> fs \<noteq> []")
      case True
      then have c1: "Suc k + length fs = length (m_trafficPatterns ?s1) \<and> fs \<noteq> []"
        by (simp only: P1 simp_thms)
      from conjunct2 [OF IH] have
        "m_hasError ?s' \<and> io_stopped ?s' \<and> stop_count (trace ?s') = stop_count (trace ?s1) + 1"
        by (simp only: if_P [OF c1])
      with part have
        g: "m_hasError ?s' \<and> io_stopped ?s' \<and> stop_count (trace ?s') = stop_count (trace s) + 1"
        by simp
      have cond: "k + length (f # fs) = ?P \<and> f # fs \<noteq> []"
        using True by simp
      from count g show ?thesis
        unfolding unfold by (simp only: if_P [OF cond] simp_thms)
    next
      case F2: False
      then have c1: "\<not> (Suc k + length fs = length (m_trafficPatterns ?s1) \<and> fs \<noteq> [])"
        by (simp only: P1 simp_thms)
      have nt: "\<not> (k + length (f # fs) = ?P \<and> f # fs \<noteq> [])"
      proof
        assume "k + length (f # fs) = ?P \<and> f # fs \<noteq> []"
        then have "Suc k + length fs = ?P" by simp
        with F2 have "fs = []" by simp
        with \<open>Suc k + length fs = ?P\<close> False show False by simp
      qed
      from conjunct2 [OF IH] have
        abc: "?s'\<lparr>trace := trace ?s1, m_nRegistrationsFailed := m_nRegistrationsFailed ?s1\<rparr> = ?s1 \<and>
          stop_count (trace ?s') = stop_count (trace ?s1) \<and>
          emitted (trace ?s') = emitted (trace ?s1)"
        by (simp only: if_not_P [OF c1])
      have "?s'\<lparr>trace := trace s, m_nRegistrationsFailed := m_nRegistrationsFailed s\<rparr>
            = (?s'\<lparr>trace := trace ?s1, m_nRegistrationsFailed := m_nRegistrationsFailed ?s1\<rparr>)
                \<lparr>trace := trace s, m_nRegistrationsFailed := m_nRegistrationsFailed s\<rparr>"
        by simp
      also have "\<dots> = s" using abc frame by simp
      finally have
        fr: "?s'\<lparr>trace := trace s, m_nRegistrationsFailed := m_nRegistrationsFailed s\<rparr> = s" .
      have "stop_count (trace ?s') = stop_count (trace s) \<and> emitted (trace ?s') = emitted (trace s)"
        using abc part by simp
      with count fr show ?thesis
        unfolding unfold by (simp only: if_not_P [OF nt] simp_thms)
    qed
  qed
qed

text \<open>
  What \<^verbatim>\<open>onRegisterFailed\<close> does. Each call adds one to the count of failures, in any
  state; if the new count equals the number of patterns the call sets the error flag and
  calls \<open>stop\<close> once, which stops the io service, and otherwise it changes nothing but
  the count and the log. Starting with no failure, after the failures \<open>fs\<close> (at most as
  many as there are patterns, each with its reason and pattern id) the count is their
  number. When that number is the number of patterns, the error flag is set, the io
  service is stopped and \<open>stop\<close> has been called exactly once. When it is smaller,
  nothing but the count and the log has changed.
\<close>

lemma onRegisterFailed_halts_only_when_total:
  assumes "m_nRegistrationsFailed s = 0"
      and "length fs \<le> length (m_trafficPatterns s)"
      and "length (m_trafficPatterns s) < 2 ^ 64"
  shows "m_nRegistrationsFailed (onRegisterFailed reason patternId s0)
           = m_nRegistrationsFailed s0 + 1 \<and>
         (if m_nRegistrationsFailed s0 + 1 = of_nat (length (m_trafficPatterns s0))
          then m_hasError (onRegisterFailed reason patternId s0) \<and>
               io_stopped (onRegisterFailed reason patternId s0) \<and>
               stop_count (trace (onRegisterFailed reason patternId s0))
                 = stop_count (trace s0) + 1
          else (onRegisterFailed reason patternId s0)
                 \<lparr>trace := trace s0, m_nRegistrationsFailed := m_nRegistrationsFailed s0\<rparr> = s0 \<and>
               stop_count (trace (onRegisterFailed reason patternId s0))
                 = stop_count (trace s0)) \<and>
         m_nRegistrationsFailed (fold (\<lambda>f. onRegisterFailed (fst f) (snd f)) fs s)
           = of_nat (length fs) \<and>
         (if length fs = length (m_trafficPatterns s) \<and> fs \<noteq> []
          then m_hasError (fold (\<lambda>f. onRegisterFailed (fst f) (snd f)) fs s) \<and>
               io_stopped (fold (\<lambda>f. onRegisterFailed (fst f) (snd f)) fs s) \<and>
               stop_count (trace (fold (\<lambda>f. onRegisterFailed (fst f) (snd f)) fs s))
                 = stop_count (trace s) + 1
          else (fold (\<lambda>f. onRegisterFailed (fst f) (snd f)) fs s)
                 \<lparr>trace := trace s, m_nRegistrationsFailed := m_nRegistrationsFailed s\<rparr> = s \<and>
               stop_count (trace (fold (\<lambda>f. onRegisterFailed (fst f) (snd f)) fs s))
                 = stop_count (trace s) \<and>
               emitted (trace (fold (\<lambda>f. onRegisterFailed (fst f) (snd f)) fs s))
                 = emitted (trace s))"
proof -
  have k: "m_nRegistrationsFailed s = of_nat 0" using assms(1) by simp
  have le: "0 + length fs \<le> length (m_trafficPatterns s)" using assms(2) by simp
  have one: "if m_nRegistrationsFailed s0 + 1 = of_nat (length (m_trafficPatterns s0))
          then m_hasError (onRegisterFailed reason patternId s0) \<and>
               io_stopped (onRegisterFailed reason patternId s0) \<and>
               stop_count (trace (onRegisterFailed reason patternId s0))
                 = stop_count (trace s0) + 1
          else (onRegisterFailed reason patternId s0)
                 \<lparr>trace := trace s0, m_nRegistrationsFailed := m_nRegistrationsFailed s0\<rparr> = s0 \<and>
               stop_count (trace (onRegisterFailed reason patternId s0))
                 = stop_count (trace s0)"
  proof (cases "m_nRegistrationsFailed s0 + 1 = of_nat (length (m_trafficPatterns s0))")
    case True
    show ?thesis
      unfolding if_P [OF True] by (rule onRegisterFailed_total [OF True])
  next
    case False
    note part = onRegisterFailed_partial [OF False, of reason patternId]
    have "(onRegisterFailed reason patternId s0)
            \<lparr>trace := trace s0, m_nRegistrationsFailed := m_nRegistrationsFailed s0\<rparr> = s0"
      by (subst conjunct1 [OF part]) simp
    with part show ?thesis
      unfolding if_not_P [OF False] by blast
  qed
  from registration_failures_fold [OF k le assms(3)] one
  show ?thesis by simp
qed

text \<open>
  C9, at the failing input: the three patterns \<^verbatim>\<open>/a\<close>, \<^verbatim>\<open>/b\<close> and \<^verbatim>\<open>/c\<close>, no cap,
  and the registration of \<^verbatim>\<open>/b\<close> fails while the event loop runs. The handler counts
  the failure and, one failure being fewer than three patterns, neither sets the error
  flag nor calls \<open>stop\<close>: the run is not halted. But \<^verbatim>\<open>/c\<close>, whose registration did
  not fail, never publishes. \<^verbatim>\<open>startPushLoop\<close> runs the event loop itself (line 296)
  and returns only when the io service is stopped or a handler throws, so the loop of
  \<^verbatim>\<open>run\<close> over the patterns (lines 132 to 135) is still inside its first call and has
  started no push loop for \<^verbatim>\<open>/b\<close> or \<^verbatim>\<open>/c\<close>. No timer exists for them: the firings
  the schedule offers for \<^verbatim>\<open>/c\<close> find no wait to complete, also after 5 seconds, five
  times its interval. The two objects that are emitted are both named \<^verbatim>\<open>/a\<close>; the
  counters of the patterns end as 2, 0 and 0.
\<close>

theorem partial_failure_starves_other_patterns:
  "fst (run (sample_env [sample_pattern, sample_pattern\<lparr>m_name := ''/b''\<rparr>,
                         sample_pattern\<lparr>m_name := ''/c''\<rparr>])
          [RegisterFailed ''timeout'' 1, TimerFired 0, TimerFired 2, Elapse 5000,
           TimerFired 2, TimerFired 0]
          (NdnTrafficPush_init ''patterns.conf'')) = Blocked \<and>
   m_nRegistrationsFailed
     (snd (run (sample_env [sample_pattern, sample_pattern\<lparr>m_name := ''/b''\<rparr>,
                            sample_pattern\<lparr>m_name := ''/c''\<rparr>])
             [RegisterFailed ''timeout'' 1, TimerFired 0, TimerFired 2, Elapse 5000,
              TimerFired 2, TimerFired 0]
             (NdnTrafficPush_init ''patterns.conf''))) = 1 \<and>
   \<not> m_hasError
     (snd (run (sample_env [sample_pattern, sample_pattern\<lparr>m_name := ''/b''\<rparr>,
                            sample_pattern\<lparr>m_name := ''/c''\<rparr>])
             [RegisterFailed ''timeout'' 1, TimerFired 0, TimerFired 2, Elapse 5000,
              TimerFired 2, TimerFired 0]
             (NdnTrafficPush_init ''patterns.conf''))) \<and>
   m_registeredPrefixes
     (snd (run (sample_env [sample_pattern, sample_pattern\<lparr>m_name := ''/b''\<rparr>,
                            sample_pattern\<lparr>m_name := ''/c''\<rparr>])
             [RegisterFailed ''timeout'' 1, TimerFired 0, TimerFired 2, Elapse 5000,
              TimerFired 2, TimerFired 0]
             (NdnTrafficPush_init ''patterns.conf''))) = [0, 1, 2] \<and>
   timers
     (snd (run (sample_env [sample_pattern, sample_pattern\<lparr>m_name := ''/b''\<rparr>,
                            sample_pattern\<lparr>m_name := ''/c''\<rparr>])
             [RegisterFailed ''timeout'' 1, TimerFired 0, TimerFired 2, Elapse 5000,
              TimerFired 2, TimerFired 0]
             (NdnTrafficPush_init ''patterns.conf''))) 2 = None \<and>
   map m_nInterestsReceived (m_trafficPatterns
     (snd (run (sample_env [sample_pattern, sample_pattern\<lparr>m_name := ''/b''\<rparr>,
                            sample_pattern\<lparr>m_name := ''/c''\<rparr>])
             [RegisterFailed ''timeout'' 1, TimerFired 0, TimerFired 2, Elapse 5000,
              TimerFired 2, TimerFired 0]
             (NdnTrafficPush_init ''patterns.conf'')))) = [2, 0, 0] \<and>
   effects (trace
     (snd (run (sample_env [sample_pattern, sample_pattern\<lparr>m_name := ''/b''\<rparr>,
                            sample_pattern\<lparr>m_name := ''/c''\<rparr>])
             [RegisterFailed ''timeout'' 1, TimerFired 0, TimerFired 2, Elapse 5000,
              TimerFired 2, TimerFired 0]
             (NdnTrafficPush_init ''patterns.conf'')))) =
     [InitializeLog, SignalSetAsyncWait RunSignalHandler,
      RegisterPrefix ''/a'' 0, RegisterPrefix ''/b'' 1, RegisterPrefix ''/c'' 2,
      SignalSetAsyncWait PushLoopSignalHandler, TimerAsyncWait 0 1000, FaceProcessEvents,
      KeyChainSign [],
      FacePut \<lparr>d_name = ''/a'', d_freshnessPeriod = None, d_contentType = None, d_content = [],
               d_signedWith = Some []\<rparr>,
      TimerAsyncWait 0 2000,
      KeyChainSign [],
      FacePut \<lparr>d_name = ''/a'', d_freshnessPeriod = None, d_contentType = None, d_content = [],
               d_signedWith = Some []\<rparr>,
      TimerAsyncWait 0 3000]"
  by (simp add: run_defs dispatch_TimerFired sample_defs sendData_defs to_string_0 to_string_1
        to_string_2 Let_def effects_def cong: eval_congs)

subsection \<open>What a publish step changes\<close>

lemma sendData_content_Inl:
  assumes "sendData_content E p pos = Inl x"
  shows "x = length_error \<or> x = bad_alloc"
  using assms
  by (auto simp: sendData_content_def getRandomByteString_def getRandomByteString_loop_eq
      split: sum.splits option.splits if_splits)

lemma timers_sendData_rearm:
  "timers (sendData_rearm patternId s) =
     (case timers s patternId of
        None \<Rightarrow> timers s
      | Some t \<Rightarrow>
          (timers s)(patternId \<mapsto>
            \<lparr>expires_at = expires_at t + m_generationInterval (m_trafficPatterns s ! patternId),
              pending = True\<rparr>))"
  by (simp add: sendData_rearm_def Let_def split: option.splits)

lemma interval_counter_update [simp]:
  "m_generationInterval (ps[i := (ps ! i)\<lparr>m_nInterestsReceived := n\<rparr>] ! i) =
     m_generationInterval (ps ! i)"
  by (cases "i < length ps") (simp_all add: list_update_beyond)

lemma interval_sendData_count [simp]:
  "m_generationInterval (m_trafficPatterns (sendData_count patternId s) ! patternId) =
     m_generationInterval (m_trafficPatterns s ! patternId)"
  by (cases "patternId < length (m_trafficPatterns s)")
     (simp_all add: sendData_count_def list_update_beyond)

lemma sendData_Returned_state:
  assumes "sendData E patternId s = Returned s'"
  shows "m_trafficPatterns s' = m_trafficPatterns (sendData_count patternId s) \<and>
         m_nInterestsReceivedTotal s' = m_nInterestsReceivedTotal s + 1 \<and>
         timers s' = timers (sendData_rearm patternId s) \<and>
         io_stopped s' = io_stopped s \<and>
         signal_waits s' = signal_waits s \<and>
         m_nMaximumInterests s' = m_nMaximumInterests s \<and>
         m_hasError s' = m_hasError s \<and>
         m_nRegistrationsFailed s' = m_nRegistrationsFailed s"
proof (cases "sendData_content E (m_trafficPatterns s ! patternId) (rng_pos s)")
  case (Inl x)
  with assms show ?thesis by (simp add: sendData_def)
next
  case (Inr r)
  obtain content pos' where r: "r = (content, pos')" by (cases r)
  from assms Inr r show ?thesis
    by (auto simp: sendData_def Let_def timers_sendData_rearm patterns_sendData_count
        split: if_splits option.splits)
qed

lemma sendData_Threw_state:
  assumes "sendData E patternId s = Threw x s'"
  shows "(if x = put_error
          then m_trafficPatterns s' = m_trafficPatterns (sendData_count patternId s) \<and>
               m_nInterestsReceivedTotal s' = m_nInterestsReceivedTotal s + 1
          else m_trafficPatterns s' = m_trafficPatterns s \<and>
               m_nInterestsReceivedTotal s' = m_nInterestsReceivedTotal s) \<and>
         timers s' = timers s \<and>
         io_stopped s' = io_stopped s \<and>
         signal_waits s' = signal_waits s \<and>
         m_nMaximumInterests s' = m_nMaximumInterests s \<and>
         m_hasError s' = m_hasError s \<and>
         m_nRegistrationsFailed s' = m_nRegistrationsFailed s"
proof (cases "sendData_content E (m_trafficPatterns s ! patternId) (rng_pos s)")
  case (Inl y)
  from sendData_content_Inl [OF Inl] have "y = length_error \<or> y = bad_alloc" .
  with assms Inl show ?thesis by (auto simp: sendData_def)
next
  case (Inr r)
  obtain content pos' where r: "r = (content, pos')" by (cases r)
  from assms Inr r show ?thesis
    by (auto simp: sendData_def Let_def patterns_sendData_count split: if_splits)
qed

lemma sendData_count_nth:
  assumes "patternId < length (m_trafficPatterns s)"
  shows "m_trafficPatterns (sendData_count patternId s) ! patternId =
           (m_trafficPatterns s ! patternId)
             \<lparr>m_nInterestsReceived := m_nInterestsReceived (m_trafficPatterns s ! patternId) + 1\<rparr>"
  using assms by (simp add: sendData_count_def)

lemma content_header_counter:
  "content_header (p\<lparr>m_nInterestsReceived := n\<rparr>) =
     m_name p @ ''/seq='' @ to_string (unat n) @ ''&%_''"
  by (simp add: content_header_def)

subsection \<open>The timer of a push loop\<close>

lemma io_run_timer:
  assumes "\<forall>e\<in>set evs. e = TimerFired patternId \<or> (\<exists>d. e = Elapse d)"
      and "io_run E evs s = (LoopBlocked, rest, s')"
      and "patternId < length (m_trafficPatterns s)"
      and "timers s patternId = Some \<lparr>expires_at = d0, pending = True\<rparr>"
  shows "timers s' patternId =
           Some \<lparr>expires_at = d0 + int (count_list evs (TimerFired patternId)) *
                                  m_generationInterval (m_trafficPatterns s ! patternId),
                 pending = True\<rparr>"
  using assms
proof (induction evs arbitrary: s d0)
  case Nil
  then show ?case by simp
next
  case (Cons e es)
  let ?I = "m_generationInterval (m_trafficPatterns s ! patternId)"
  from Cons.prems(1) have es: "\<forall>e\<in>set es. e = TimerFired patternId \<or> (\<exists>d. e = Elapse d)"
    by simp
  from Cons.prems(1) consider (timer) "e = TimerFired patternId" | (elapse) d where "e = Elapse d"
    by auto
  then show ?case
  proof cases
    case elapse
    let ?s1 = "s\<lparr>clock := clock s + int d\<rparr>"
    from Cons.prems(2) elapse have run: "io_run E es ?s1 = (LoopBlocked, rest, s')"
      by (simp split: if_splits)
    have "timers s' patternId =
            Some \<lparr>expires_at = d0 + int (count_list es (TimerFired patternId)) *
                      m_generationInterval (m_trafficPatterns ?s1 ! patternId),
                  pending = True\<rparr>"
      using es run Cons.prems(3,4) by (intro Cons.IH) simp_all
    with elapse show ?thesis by simp
  next
    case timer
    let ?s0 = "s\<lparr>timers := (timers s)(patternId \<mapsto> \<lparr>expires_at = d0, pending = False\<rparr>)\<rparr>"
    have d: "dispatch E e s = sendData E patternId ?s0"
      using timer Cons.prems(3,4) by (simp add: dispatch_TimerFired)
    show ?thesis
    proof (cases "sendData E patternId ?s0")
      case (Threw x s1)
      with d Cons.prems(2) show ?thesis by simp
    next
      case (Returned s1)
      note st = sendData_Returned_state [OF Returned]
      from d Returned Cons.prems(2) have run: "io_run E es s1 = (LoopBlocked, rest, s')"
        by (simp split: if_splits)
      have len: "patternId < length (m_trafficPatterns s1)"
        using st Cons.prems(3) by simp
      have tm: "timers s1 patternId = Some \<lparr>expires_at = d0 + ?I, pending = True\<rparr>"
        using st by (simp add: timers_sendData_rearm)
      have I1: "m_generationInterval (m_trafficPatterns s1 ! patternId) = ?I"
        using st by simp
      from Cons.IH [OF es run len tm] I1 timer show ?thesis
        by (simp add: algebra_simps)
    qed
  qed
qed

lemma startPushLoop_arm_timer:
  "timers (startPushLoop_arm patternId s) patternId =
     Some \<lparr>expires_at = clock s + m_generationInterval (m_trafficPatterns s ! patternId),
           pending = True\<rparr>"
  by (simp add: startPushLoop_arm_def Let_def)

text \<open>
  C8. \<^verbatim>\<open>startPushLoop\<close> sets the first deadline of the pattern's timer one full interval
  \<open>I\<close> after the time of the call, and a wait is pending on it. Then let the event loop
  dispatch any schedule made of firings of that timer and of arbitrary lapses of time, every
  firing returning normally (whatever it slept): the deadline on which the timer waits
  afterwards is the first deadline plus \<open>I\<close> times the number of firings. The clock does
  not enter into it.
\<close>

theorem deadlines_advance_by_the_interval:
  assumes "patternId < length (m_trafficPatterns s)"
      and "\<forall>e\<in>set evs. e = TimerFired patternId \<or> (\<exists>d. e = Elapse d)"
      and "processEvents E evs (startPushLoop_arm patternId s) = (LoopBlocked, rest, s')"
  shows "timers (startPushLoop_arm patternId s) patternId =
           Some \<lparr>expires_at = clock s + m_generationInterval (m_trafficPatterns s ! patternId),
                 pending = True\<rparr> \<and>
         timers s' patternId =
           Some \<lparr>expires_at =
                   (clock s + m_generationInterval (m_trafficPatterns s ! patternId)) +
                   int (count_list evs (TimerFired patternId)) *
                     m_generationInterval (m_trafficPatterns s ! patternId),
                 pending = True\<rparr>"
proof -
  let ?a = "startPushLoop_arm patternId s"
  let ?b = "(emit FaceProcessEvents ?a)\<lparr>io_stopped := False\<rparr>"
  have run: "io_run E evs ?b = (LoopBlocked, rest, s')"
    using assms(3) by (simp add: processEvents_def)
  have len: "patternId < length (m_trafficPatterns ?b)"
    using assms(1) by simp
  have tm: "timers ?b patternId =
              Some \<lparr>expires_at = clock s + m_generationInterval (m_trafficPatterns s ! patternId),
                    pending = True\<rparr>"
    by (simp add: startPushLoop_arm_timer)
  from io_run_timer [OF assms(2) run len tm] startPushLoop_arm_timer [of patternId s]
  show ?thesis by simp
qed

theorem deadlines_advance_by_the_interval_witness:
  "0 < length (m_trafficPatterns (sample_server [sample_pattern])) \<and>
   clock (sample_server [sample_pattern]) = 0 \<and>
   m_generationInterval (m_trafficPatterns (sample_server [sample_pattern]) ! 0) = 1000 \<and>
   fst (processEvents (sample_env []) [Elapse 1500, TimerFired 0, Elapse 7, TimerFired 0]
          (startPushLoop_arm 0 (sample_server [sample_pattern]))) = LoopBlocked \<and>
   timers (snd (snd (processEvents (sample_env [])
                       [Elapse 1500, TimerFired 0, Elapse 7, TimerFired 0]
                       (startPushLoop_arm 0 (sample_server [sample_pattern]))))) 0
     = Some \<lparr>expires_at = 3000, pending = True\<rparr>"
proof -
  let ?s = "sample_server [sample_pattern]"
  let ?evs = "[Elapse 1500, TimerFired 0, Elapse 7, TimerFired 0]"
  have h1: "0 < length (m_trafficPatterns ?s)" by (simp add: sample_defs)
  have h2: "\<forall>e\<in>set ?evs. e = TimerFired 0 \<or> (\<exists>d. e = Elapse d)" by simp
  have c: "clock ?s = 0" by (simp add: sample_defs)
  have i: "m_generationInterval (m_trafficPatterns ?s ! 0) = 1000" by (simp add: sample_defs)
  have b: "fst (processEvents (sample_env []) ?evs (startPushLoop_arm 0 ?s)) = LoopBlocked"
    by (simp add: processEvents_def startPushLoop_arm_def dispatch_TimerFired
          sample_defs sendData_defs to_string_0 to_string_1 to_string_2 Let_def
          cong: eval_congs)
  then obtain rest s' where
    r: "processEvents (sample_env []) ?evs (startPushLoop_arm 0 ?s) = (LoopBlocked, rest, s')"
    by (cases "processEvents (sample_env []) ?evs (startPushLoop_arm 0 ?s)") auto
  from deadlines_advance_by_the_interval [OF h1 h2 r] r c i h1 b
  show ?thesis by simp
qed

subsection \<open>The payloads of a sequence of firings\<close>

text \<open>
  C7. A pattern without explicit content and with content length \<open>L\<close>; a schedule made of
  firings of its timer and of lapses of time; \<open>L\<close> greater than the length of the header
  at each of these firings (the header of the \<open>k\<close>-th firing carries the sequence number
  advanced by \<open>k\<close>). Then every object emitted while the schedule is dispatched has a
  payload of exactly \<open>L\<close> characters, which begins with the header: name, \<^verbatim>\<open>/seq=\<close>, a
  number, \<^verbatim>\<open>&%_\<close>; the rest is the random filler.
\<close>

theorem generated_payload_has_content_length:
  assumes "\<forall>e\<in>set evs. e = TimerFired patternId \<or> (\<exists>d. e = Elapse d)"
      and "patternId < length (m_trafficPatterns s)"
      and "m_content (m_trafficPatterns s ! patternId) = []"
      and "m_contentLength (m_trafficPatterns s ! patternId) = Some L"
      and "\<forall>k<count_list evs (TimerFired patternId).
             length (m_name (m_trafficPatterns s ! patternId) @ ''/seq='' @
                     to_string (unat (m_nInterestsReceived (m_trafficPatterns s ! patternId)
                                      + of_nat k)) @ ''&%_'') < unat L"
  shows "\<exists>ds. emitted (trace (snd (snd (io_run E evs s)))) = emitted (trace s) @ ds \<and>
              (\<forall>d\<in>set ds. length (d_content d) = unat L \<and>
                 (\<exists>n r. d_content d =
                    m_name (m_trafficPatterns s ! patternId) @ ''/seq='' @ to_string n @
                    ''&%_'' @ r))"
  using assms
proof (induction evs arbitrary: s)
  case Nil
  then show ?case by simp
next
  case (Cons e es)
  let ?p = "m_trafficPatterns s ! patternId"
  from Cons.prems(1) have es: "\<forall>e\<in>set es. e = TimerFired patternId \<or> (\<exists>d. e = Elapse d)"
    by simp
  have same: "\<exists>ds. emitted (trace (snd (snd (io_run E es s1)))) = emitted (trace s) @ ds \<and>
                   (\<forall>d\<in>set ds. length (d_content d) = unat L \<and>
                      (\<exists>n r. d_content d = m_name ?p @ ''/seq='' @ to_string n @ ''&%_'' @ r))"
    if "m_trafficPatterns s1 = m_trafficPatterns s" and "emitted (trace s1) = emitted (trace s)"
    for s1
  proof -
    have "\<forall>k<count_list es (TimerFired patternId).
             length (m_name (m_trafficPatterns s1 ! patternId) @ ''/seq='' @
                     to_string (unat (m_nInterestsReceived (m_trafficPatterns s1 ! patternId)
                                      + of_nat k)) @ ''&%_'') < unat L"
      using Cons.prems(5) that(1) by (auto split: if_splits)
    from Cons.IH [OF es _ _ _ this] Cons.prems(2,3,4) that show ?thesis by simp
  qed
  have stay: ?case if "dispatch E e s = Returned s1"
    and "m_trafficPatterns s1 = m_trafficPatterns s" and "emitted (trace s1) = emitted (trace s)"
    for s1
  proof (cases "io_stopped s1")
    case True
    with that show ?thesis by simp
  next
    case False
    with that(1) same [OF that(2,3)] show ?thesis by simp
  qed
  from Cons.prems(1) consider (timer) "e = TimerFired patternId" | (elapse) d where "e = Elapse d"
    by auto
  then show ?case
  proof cases
    case elapse
    show ?thesis by (rule stay [of "s\<lparr>clock := clock s + int d\<rparr>"]) (simp_all add: elapse)
  next
    case timer
    show ?thesis
    proof (cases "\<exists>t. timers s patternId = Some t \<and> pending t")
      case False
      then have "dispatch E e s = Returned s"
        using timer by (auto simp: dispatch_TimerFired split: option.splits)
      then show ?thesis by (rule stay) simp_all
    next
      case True
      then obtain t where t: "timers s patternId = Some t" "pending t" by blast
      let ?s0 = "s\<lparr>timers := (timers s)(patternId \<mapsto> t\<lparr>pending := False\<rparr>)\<rparr>"
      have d: "dispatch E e s = sendData E patternId ?s0"
        using timer t Cons.prems(2) by (simp add: dispatch_TimerFired)
      show ?thesis
      proof (cases "sendData E patternId ?s0")
        case (Threw x s1)
        from sendData_Threw_emitted [OF Threw] d Threw show ?thesis by simp
      next
        case (Returned s1)
        note st = sendData_Returned_state [OF Returned]
        from sendData_Returned_emitted [OF Returned]
        obtain content pos' where
          c: "sendData_content E ?p (rng_pos s) = Inr (content, pos')" and
          em: "emitted (trace s1) = emitted (trace s) @
                 [(sendData_build ?p)\<lparr>d_content := content,
                     d_signedWith := Some (m_signingInfo ?p)\<rparr>]"
          by auto
        have "0 < count_list (e # es) (TimerFired patternId)" using timer by simp
        with Cons.prems(5) have "length (content_header ?p) < unat L"
          by (auto simp: content_header_def)
        from sendData_content_length [OF Cons.prems(3,4) this c]
        have len0: "length content = unat L"
          and tk: "take (length (content_header ?p)) content = content_header ?p"
          by simp_all
        have "content = content_header ?p @ drop (length (content_header ?p)) content"
          using tk append_take_drop_id [of "length (content_header ?p)" content] by simp
        then have "\<exists>n r. content = m_name ?p @ ''/seq='' @ to_string n @ ''&%_'' @ r"
          unfolding content_header_def by (metis append.assoc)
        with len0 have len: "length content = unat L \<and>
            (\<exists>n r. content = m_name ?p @ ''/seq='' @ to_string n @ ''&%_'' @ r)"
          by blast
        let ?d = "(sendData_build ?p)\<lparr>d_content := content,
                     d_signedWith := Some (m_signingInfo ?p)\<rparr>"
        have p1: "m_trafficPatterns s1 ! patternId =
                    ?p\<lparr>m_nInterestsReceived := m_nInterestsReceived ?p + 1\<rparr>"
          using st Cons.prems(2) by (simp add: sendData_count_def)
        have l1: "patternId < length (m_trafficPatterns s1)"
          using st Cons.prems(2) by simp
        have h1: "\<forall>k<count_list es (TimerFired patternId).
             length (m_name (m_trafficPatterns s1 ! patternId) @ ''/seq='' @
                     to_string (unat (m_nInterestsReceived (m_trafficPatterns s1 ! patternId)
                                      + of_nat k)) @ ''&%_'') < unat L"
        proof (intro allI impI)
          fix k assume "k < count_list es (TimerFired patternId)"
          then have "Suc k < count_list (e # es) (TimerFired patternId)" using timer by simp
          with Cons.prems(5) have
            "length (m_name ?p @ ''/seq='' @
                     to_string (unat (m_nInterestsReceived ?p + of_nat (Suc k))) @ ''&%_'')
               < unat L"
            by blast
          then show "length (m_name (m_trafficPatterns s1 ! patternId) @ ''/seq='' @
                     to_string (unat (m_nInterestsReceived (m_trafficPatterns s1 ! patternId)
                                      + of_nat k)) @ ''&%_'') < unat L"
            by (simp add: p1 ac_simps)
        qed
        have c1: "m_content (m_trafficPatterns s1 ! patternId) = []"
          and c2: "m_contentLength (m_trafficPatterns s1 ! patternId) = Some L"
          using Cons.prems(3,4) by (simp_all add: p1)
        from Cons.IH [OF es l1 c1 c2 h1]
        obtain ds where ds: "emitted (trace (snd (snd (io_run E es s1)))) = emitted (trace s1) @ ds"
          "\<forall>d\<in>set ds. length (d_content d) = unat L \<and>
             (\<exists>n r. d_content d = m_name ?p @ ''/seq='' @ to_string n @ ''&%_'' @ r)"
          unfolding p1 by auto
        show ?thesis
        proof (cases "io_stopped s1")
          case True
          with d Returned em len show ?thesis by simp
        next
          case False
          with d Returned have "io_run E (e # es) s = io_run E es s1" by simp
          with ds em len show ?thesis by simp
        qed
      qed
    qed
  qed
qed

theorem generated_payload_has_content_length_witness:
  "emitted (trace (startPushLoop_arm 0
      (sample_server [sample_pattern\<lparr>m_contentLength := Some 13\<rparr>]))) = [] \<and>
   length (emitted (trace (snd (snd (io_run (sample_env [])
      [TimerFired 0, Elapse 3, TimerFired 0]
      (startPushLoop_arm 0 (sample_server [sample_pattern\<lparr>m_contentLength := Some 13\<rparr>]))))))) = 2 \<and>
   map (\<lambda>d. length (d_content d))
     (emitted (trace (snd (snd (io_run (sample_env [])
        [TimerFired 0, Elapse 3, TimerFired 0]
        (startPushLoop_arm 0 (sample_server [sample_pattern\<lparr>m_contentLength := Some 13\<rparr>])))))))
     = [13, 13]"
proof -
  let ?s = "startPushLoop_arm 0 (sample_server [sample_pattern\<lparr>m_contentLength := Some 13\<rparr>])"
  let ?evs = "[TimerFired 0, Elapse 3, TimerFired 0]"
  have h1: "\<forall>e\<in>set ?evs. e = TimerFired 0 \<or> (\<exists>d. e = Elapse d)" by simp
  have h2: "0 < length (m_trafficPatterns ?s)" by (simp add: sample_defs)
  have h3: "m_content (m_trafficPatterns ?s ! 0) = []" by (simp add: sample_defs)
  have h4: "m_contentLength (m_trafficPatterns ?s ! 0) = Some 13" by (simp add: sample_defs)
  have h5: "\<forall>k<count_list ?evs (TimerFired 0).
             length (m_name (m_trafficPatterns ?s ! 0) @ ''/seq='' @
                     to_string (unat (m_nInterestsReceived (m_trafficPatterns ?s ! 0)
                                      + of_nat k)) @ ''&%_'') < unat (13 :: size_t)"
    by (simp add: sample_defs less_Suc_eq to_string_0 to_string_1)
  have e0: "emitted (trace ?s) = []"
    by (simp add: startPushLoop_arm_def Let_def sample_defs)
  have n: "length (emitted (trace (snd (snd (io_run (sample_env []) ?evs ?s))))) = 2"
    by (simp add: startPushLoop_arm_def dispatch_TimerFired getRandomByteString_def
          getRandomByteString_loop_eq sample_defs sendData_defs to_string_0 to_string_1
          to_string_2 Let_def cong: eval_congs)
  from generated_payload_has_content_length [OF h1 h2 h3 h4 h5, of "sample_env []"] e0
  obtain ds where ds: "emitted (trace (snd (snd (io_run (sample_env []) ?evs ?s)))) = ds"
    "\<forall>d\<in>set ds. length (d_content d) = 13"
    by auto
  from n ds(1) obtain d1 d2 where "ds = [d1, d2]"
    by (auto simp: length_Suc_conv numeral_2_eq_2)
  with ds e0 n show ?thesis by simp
qed

subsection \<open>The two counters\<close>

lemma sum_list_counter_update:
  assumes "i < length ps"
  shows "sum_list (map m_nInterestsReceived
           (ps[i := (ps ! i)\<lparr>m_nInterestsReceived := m_nInterestsReceived (ps ! i) + 1\<rparr>]))
         = sum_list (map m_nInterestsReceived ps) + 1"
  using assms
proof (induction ps arbitrary: i)
  case Nil
  then show ?case by simp
next
  case (Cons p ps)
  show ?case
  proof (cases i)
    case 0
    then show ?thesis by simp
  next
    case (Suc j)
    with Cons.prems have "j < length ps" by simp
    from Cons.IH [OF this] Suc show ?thesis by simp
  qed
qed

lemma counters_consistent_same:
  assumes "m_trafficPatterns s' = m_trafficPatterns s"
      and "m_nInterestsReceivedTotal s' = m_nInterestsReceivedTotal s"
  shows "counters_consistent s' = counters_consistent s"
  using assms by (simp add: counters_consistent_def)

lemma counters_consistent_sendData_count:
  assumes "patternId < length (m_trafficPatterns s)" and "counters_consistent s"
  shows "counters_consistent (sendData_count patternId s)"
  using assms by (simp add: counters_consistent_def sendData_count_def sum_list_counter_update)

lemma counters_consistent_sendData:
  assumes "patternId < length (m_trafficPatterns s)" and "counters_consistent s"
  shows "case sendData E patternId s of
           Returned s' \<Rightarrow> counters_consistent s'
         | Threw x s' \<Rightarrow> counters_consistent s'"
proof (cases "sendData E patternId s")
  case (Returned s')
  from sendData_Returned_state [OF Returned] counters_consistent_sendData_count [OF assms]
  have "counters_consistent s'" by (simp add: counters_consistent_def)
  with Returned show ?thesis by simp
next
  case (Threw x s')
  from sendData_Threw_state [OF Threw] counters_consistent_sendData_count [OF assms] assms(2)
  have "counters_consistent s'" by (simp add: counters_consistent_def split: if_splits)
  with Threw show ?thesis by simp
qed

lemma run_signalHandler_counters [simp]:
  "m_trafficPatterns (run_signalHandler s) = m_trafficPatterns s \<and>
   m_nInterestsReceivedTotal (run_signalHandler s) = m_nInterestsReceivedTotal s"
  by (simp add: run_signalHandler_def split: option.splits)

lemma onRegisterFailed_counters [simp]:
  "m_nInterestsReceivedTotal (onRegisterFailed reason patternId s) = m_nInterestsReceivedTotal s"
  by (simp add: onRegisterFailed_def Let_def)

lemma counters_consistent_dispatch:
  assumes "counters_consistent s"
  shows "case dispatch E e s of
           Returned s' \<Rightarrow> counters_consistent s'
         | Threw x s' \<Rightarrow> counters_consistent s'"
proof (cases e)
  case (Elapse d)
  with assms show ?thesis by (simp add: counters_consistent_def)
next
  case (TimerFired patternId)
  show ?thesis
  proof (cases "\<exists>t. timers s patternId = Some t \<and> pending t \<and>
                   patternId < length (m_trafficPatterns s)")
    case True
    then obtain t where t: "timers s patternId = Some t" "pending t"
      "patternId < length (m_trafficPatterns s)" by blast
    let ?s0 = "s\<lparr>timers := (timers s)(patternId \<mapsto> t\<lparr>pending := False\<rparr>)\<rparr>"
    have "counters_consistent ?s0" using assms by (simp add: counters_consistent_def)
    moreover have "patternId < length (m_trafficPatterns ?s0)" using t by simp
    ultimately have "case sendData E patternId ?s0 of
           Returned s' \<Rightarrow> counters_consistent s'
         | Threw x s' \<Rightarrow> counters_consistent s'"
      by (intro counters_consistent_sendData)
    with TimerFired t show ?thesis by (simp add: dispatch_TimerFired)
  next
    case False
    with TimerFired have "dispatch E e s = Returned s"
      by (auto simp: dispatch_TimerFired split: option.splits)
    with assms show ?thesis by simp
  qed
next
  case (SignalHandlerFired h)
  with assms show ?thesis
    by (cases h) (simp_all add: dispatch_def counters_consistent_def Let_def)
next
  case (RegisterFailed reason patternId)
  with assms show ?thesis
    by (simp add: dispatch_def counters_consistent_def)
qed

lemma counters_consistent_io_run:
  assumes "counters_consistent s"
  shows "counters_consistent (snd (snd (io_run E evs s)))"
  using assms
proof (induction evs arbitrary: s)
  case Nil
  then show ?case by simp
next
  case (Cons e es)
  from counters_consistent_dispatch [OF Cons.prems, of E e]
  show ?case
    by (cases "dispatch E e s") (simp_all add: Cons.IH)
qed

lemma counters_consistent_processEvents:
  assumes "counters_consistent s"
  shows "counters_consistent (snd (snd (processEvents E evs s)))"
proof -
  have "counters_consistent ((emit FaceProcessEvents s)\<lparr>io_stopped := False\<rparr>)"
    using assms by (simp add: counters_consistent_def)
  then show ?thesis
    unfolding processEvents_def by (rule counters_consistent_io_run)
qed

lemma counters_consistent_startPushLoop:
  assumes "counters_consistent s"
  shows "counters_consistent (snd (snd (startPushLoop E patternId evs s)))"
proof -
  have "counters_consistent (startPushLoop_arm patternId s)"
    using assms by (simp add: counters_consistent_def)
  from counters_consistent_processEvents [OF this, of E evs]
  show ?thesis
    by (cases "processEvents E evs (startPushLoop_arm patternId s)")
       (auto simp: startPushLoop_def counters_consistent_def split: loop_exit.splits)
qed

lemma counters_consistent_run_pushLoops:
  assumes "counters_consistent s"
  shows "counters_consistent (snd (snd (run_pushLoops E ids evs s)))"
  using assms
proof (induction ids arbitrary: evs s)
  case Nil
  then show ?case by simp
next
  case (Cons i ids)
  let ?s0 = "logger_log (''Starting data push for pattern '' @ to_string (i + 1) @ ''.'')
               True False s"
  have "counters_consistent ?s0" using Cons.prems by (simp add: counters_consistent_def)
  from counters_consistent_startPushLoop [OF this, of E i evs]
  show ?case
    by (cases "startPushLoop E i evs ?s0") (auto simp: Cons.IH split: bool.splits)
qed

lemma fold_preserves:
  assumes "\<And>x s. P s \<Longrightarrow> P (f x s)" and "P s"
  shows "P (fold f xs s)"
  using assms(2) by (induction xs arbitrary: s) (simp_all add: assms(1))

lemma run_printPatterns_counters [simp]:
  "m_trafficPatterns (run_printPatterns s) = m_trafficPatterns s \<and>
   m_nInterestsReceivedTotal (run_printPatterns s) = m_nInterestsReceivedTotal s \<and>
   m_nMaximumInterests (run_printPatterns s) = m_nMaximumInterests s"
  unfolding run_printPatterns_def
  by (rule fold_preserves) simp_all

lemma run_register_counters [simp]:
  "m_trafficPatterns (run_register s) = m_trafficPatterns s \<and>
   m_nInterestsReceivedTotal (run_register s) = m_nInterestsReceivedTotal s"
  unfolding run_register_def
  by (rule fold_preserves) simp_all

lemma counters_consistent_run_publish:
  assumes "counters_consistent s"
  shows "counters_consistent (snd (run_publish E evs s))"
proof -
  let ?s3 = "run_register
               (logger_log (''We have '' @ to_string (length (m_trafficPatterns s)) @
                            '' traffic patterns.'') True False
                 ((emit (SignalSetAsyncWait RunSignalHandler) s)
                    \<lparr>signal_waits := signal_waits s @ [RunSignalHandler]\<rparr>))"
  have c3: "counters_consistent ?s3"
    using assms by (simp add: counters_consistent_def)
  let ?r = "run_pushLoops E [0 ..< length (m_trafficPatterns ?s3)] evs ?s3"
  have c4: "counters_consistent (snd (snd ?r))"
    using c3 by (rule counters_consistent_run_pushLoops)
  have c5: "counters_consistent (snd (snd (processEvents E (fst (snd ?r)) (snd (snd ?r)))))"
    using c4 by (rule counters_consistent_processEvents)
  show ?thesis
  proof (cases ?r)
    case (fields blocked rest s4)
    show ?thesis
    proof (cases "processEvents E rest s4")
      case inner: (fields ex rest' s5)
      from c4 c5 fields inner show ?thesis
        by (simp add: run_publish_def Let_def counters_consistent_def
              split: bool.splits loop_exit.splits)
    qed
  qed
qed

lemma sum_list_counters_zero:
  assumes "\<forall>p\<in>set ps. m_nInterestsReceived p = 0"
  shows "sum_list (map m_nInterestsReceived ps) = 0"
  using assms by (induction ps) simp_all

lemma counters_consistent_run:
  assumes "counters_consistent s"
      and "\<forall>ps. readConfigurationFile E (m_configurationFile s) = Some ps \<longrightarrow>
                (\<forall>p\<in>set ps. m_nInterestsReceived p = 0)"
  shows "counters_consistent (snd (run E sched s))"
proof (cases "readConfigurationFile E (m_configurationFile s)")
  case None
  with assms(1) show ?thesis by (simp add: run_def Let_def counters_consistent_def)
next
  case (Some ps)
  with assms(2) have "sum_list (map m_nInterestsReceived ps) = 0"
    by (intro sum_list_counters_zero) simp
  with assms(1) have c: "counters_consistent
        (run_printPatterns
          (logger_log (''Traffic configuration file processing completed.'' @ [CHR 0x0A])
             True False
             ((emit InitializeLog s)\<lparr>m_trafficPatterns := m_trafficPatterns s @ ps\<rparr>)))"
    by (simp add: counters_consistent_def)
  from counters_consistent_run_publish [OF c, of E sched] c Some show ?thesis
    by (simp add: run_def Let_def checkTrafficPatternCorrectness_def counters_consistent_def)
qed

text \<open>
  C5. Let the publisher start with the global total equal to the sum of the counters of
  its patterns (a new publisher has no pattern and the total 0), and let the configuration
  reader deliver patterns that have published nothing. Then after \<^verbatim>\<open>run\<close> on any
  schedule, so also on every schedule cut short at any point, the global total equals the
  sum of the counters of the patterns. The sum is taken in \<^verbatim>\<open>uint64_t\<close>, as the counters
  are. In a publish step both counters go up by one or neither does: a step that returns
  has counted, a step whose emission fails has counted already, and a step that fails
  earlier, in generating the content or in signing, has not counted.
\<close>

theorem total_is_the_sum_of_the_counters:
  assumes "counters_consistent s"
      and "\<forall>ps. readConfigurationFile E (m_configurationFile s) = Some ps \<longrightarrow>
                (\<forall>p\<in>set ps. m_nInterestsReceived p = 0)"
  shows "counters_consistent (snd (run E sched s)) \<and>
         (\<forall>s0 patternId.
            counters_consistent s0 \<and> patternId < length (m_trafficPatterns s0) \<longrightarrow>
            (case sendData E patternId s0 of
               Returned s' \<Rightarrow>
                 counters_consistent s' \<and>
                 m_nInterestsReceivedTotal s' = m_nInterestsReceivedTotal s0 + 1 \<and>
                 m_nInterestsReceived (m_trafficPatterns s' ! patternId) =
                   m_nInterestsReceived (m_trafficPatterns s0 ! patternId) + 1
             | Threw x s' \<Rightarrow>
                 counters_consistent s' \<and>
                 (if x = put_error
                  then m_nInterestsReceivedTotal s' = m_nInterestsReceivedTotal s0 + 1 \<and>
                       m_nInterestsReceived (m_trafficPatterns s' ! patternId) =
                         m_nInterestsReceived (m_trafficPatterns s0 ! patternId) + 1
                  else m_nInterestsReceivedTotal s' = m_nInterestsReceivedTotal s0 \<and>
                       m_trafficPatterns s' = m_trafficPatterns s0)))"
proof -
  have step: "case sendData E patternId s0 of
               Returned s' \<Rightarrow>
                 counters_consistent s' \<and>
                 m_nInterestsReceivedTotal s' = m_nInterestsReceivedTotal s0 + 1 \<and>
                 m_nInterestsReceived (m_trafficPatterns s' ! patternId) =
                   m_nInterestsReceived (m_trafficPatterns s0 ! patternId) + 1
             | Threw x s' \<Rightarrow>
                 counters_consistent s' \<and>
                 (if x = put_error
                  then m_nInterestsReceivedTotal s' = m_nInterestsReceivedTotal s0 + 1 \<and>
                       m_nInterestsReceived (m_trafficPatterns s' ! patternId) =
                         m_nInterestsReceived (m_trafficPatterns s0 ! patternId) + 1
                  else m_nInterestsReceivedTotal s' = m_nInterestsReceivedTotal s0 \<and>
                       m_trafficPatterns s' = m_trafficPatterns s0)"
    if c: "counters_consistent s0" and l: "patternId < length (m_trafficPatterns s0)"
    for s0 patternId
  proof (cases "sendData E patternId s0")
    case (Returned s')
    from counters_consistent_sendData [OF l c, of E] sendData_Returned_state [OF Returned]
         sendData_count_nth [OF l] Returned
    show ?thesis by simp
  next
    case (Threw x s')
    from counters_consistent_sendData [OF l c, of E] sendData_Threw_state [OF Threw]
         sendData_count_nth [OF l] Threw
    show ?thesis by (simp split: if_splits)
  qed
  from counters_consistent_run [OF assms] step show ?thesis by blast
qed

theorem total_is_the_sum_of_the_counters_witness:
  "counters_consistent (setMaximumInterests 5 (NdnTrafficPush_init ''patterns.conf'')) \<and>
   fst (run (sample_env [sample_pattern, sample_pattern]) [TimerFired 0, Elapse 2, TimerFired 0]
          (setMaximumInterests 5 (NdnTrafficPush_init ''patterns.conf''))) = Blocked \<and>
   m_nInterestsReceivedTotal
     (snd (run (sample_env [sample_pattern, sample_pattern]) [TimerFired 0, Elapse 2, TimerFired 0]
             (setMaximumInterests 5 (NdnTrafficPush_init ''patterns.conf'')))) = 2 \<and>
   counters_consistent
     (snd (run (sample_env [sample_pattern, sample_pattern]) [TimerFired 0, Elapse 2, TimerFired 0]
             (setMaximumInterests 5 (NdnTrafficPush_init ''patterns.conf''))))"
proof -
  let ?E = "sample_env [sample_pattern, sample_pattern]"
  let ?s = "setMaximumInterests 5 (NdnTrafficPush_init ''patterns.conf'')"
  have h1: "counters_consistent ?s"
    by (simp add: counters_consistent_def setMaximumInterests_def sample_defs)
  have h2: "\<forall>ps. readConfigurationFile ?E (m_configurationFile ?s) = Some ps \<longrightarrow>
                (\<forall>p\<in>set ps. m_nInterestsReceived p = 0)"
    by (auto simp: sample_defs)
  have v: "fst (run ?E [TimerFired 0, Elapse 2, TimerFired 0] ?s) = Blocked \<and>
           m_nInterestsReceivedTotal (snd (run ?E [TimerFired 0, Elapse 2, TimerFired 0] ?s)) = 2"
    by (simp add: run_defs dispatch_TimerFired sample_defs sendData_defs to_string_0 to_string_1
          to_string_2 Let_def cong: eval_congs)
  from total_is_the_sum_of_the_counters [OF h1 h2, of "[TimerFired 0, Elapse 2, TimerFired 0]"] h1 v
  show ?thesis by blast
qed

subsection \<open>The trace only grows\<close>

lemma in_trace_steps:
  assumes "a \<in> set (trace s)"
  shows "a \<in> set (trace (sendData_count patternId s))"
    and "a \<in> set (trace (sendData_logSend patternId s))"
    and "a \<in> set (trace (sendData_delay patternId s))"
    and "a \<in> set (trace (sendData_logSent patternId s))"
    and "a \<in> set (trace (sendData_rearm patternId s))"
    and "a \<in> set (trace (sendData_checkCap s))"
    and "a \<in> set (trace (logStatistics s))"
    and "a \<in> set (trace (stop s))"
    and "a \<in> set (trace (run_signalHandler s))"
    and "a \<in> set (trace (onRegisterFailed reason patternId s))"
    and "a \<in> set (trace (startPushLoop_arm patternId s))"
  using assms
  by (simp_all add: sendData_logSend_def sendData_delay_def sendData_logSent_def
        sendData_rearm_def sendData_checkCap_def logStatistics_def stop_def
        run_signalHandler_def onRegisterFailed_def startPushLoop_arm_def Let_def
        split: option.splits)

lemma in_trace_sendData:
  assumes "a \<in> set (trace s)"
  shows "case sendData E patternId s of
           Returned s' \<Rightarrow> a \<in> set (trace s')
         | Threw x s' \<Rightarrow> a \<in> set (trace s')"
proof (cases "sendData_content E (m_trafficPatterns s ! patternId) (rng_pos s)")
  case (Inl x)
  with assms show ?thesis by (simp add: sendData_def)
next
  case (Inr r)
  obtain content pos' where r: "r = (content, pos')" by (cases r)
  from assms Inr r show ?thesis
    by (simp add: sendData_def Let_def in_trace_steps)
qed

lemma in_trace_dispatch:
  assumes "a \<in> set (trace s)"
  shows "case dispatch E e s of
           Returned s' \<Rightarrow> a \<in> set (trace s')
         | Threw x s' \<Rightarrow> a \<in> set (trace s')"
proof (cases e)
  case (Elapse d)
  with assms show ?thesis by simp
next
  case (TimerFired patternId)
  show ?thesis
  proof (cases "\<exists>t. timers s patternId = Some t \<and> pending t \<and>
                   patternId < length (m_trafficPatterns s)")
    case True
    then obtain t where t: "timers s patternId = Some t" "pending t"
      "patternId < length (m_trafficPatterns s)" by blast
    let ?s0 = "s\<lparr>timers := (timers s)(patternId \<mapsto> t\<lparr>pending := False\<rparr>)\<rparr>"
    have "a \<in> set (trace ?s0)" using assms by simp
    from in_trace_sendData [OF this, of E patternId] TimerFired t
    show ?thesis by (simp add: dispatch_TimerFired)
  next
    case False
    with TimerFired have "dispatch E e s = Returned s"
      by (auto simp: dispatch_TimerFired split: option.splits)
    with assms show ?thesis by simp
  qed
next
  case (SignalHandlerFired h)
  with assms show ?thesis
    by (cases h) (simp_all add: dispatch_def Let_def in_trace_steps)
next
  case (RegisterFailed reason patternId)
  with assms show ?thesis
    by (simp add: dispatch_def in_trace_steps)
qed

lemma in_trace_io_run:
  assumes "a \<in> set (trace s)"
  shows "a \<in> set (trace (snd (snd (io_run E evs s))))"
  using assms
proof (induction evs arbitrary: s)
  case Nil
  then show ?case by simp
next
  case (Cons e es)
  from in_trace_dispatch [OF Cons.prems, of E e]
  show ?case
    by (cases "dispatch E e s") (simp_all add: Cons.IH)
qed

lemma in_trace_processEvents:
  assumes "a \<in> set (trace s) \<or> a = FaceProcessEvents"
  shows "a \<in> set (trace (snd (snd (processEvents E evs s))))"
proof -
  have "a \<in> set (trace ((emit FaceProcessEvents s)\<lparr>io_stopped := False\<rparr>))"
    using assms by auto
  then show ?thesis
    unfolding processEvents_def by (rule in_trace_io_run)
qed

lemma in_trace_startPushLoop:
  assumes "a \<in> set (trace s) \<or> a = FaceProcessEvents"
  shows "a \<in> set (trace (snd (snd (startPushLoop E patternId evs s))))"
proof -
  have "a \<in> set (trace (startPushLoop_arm patternId s)) \<or> a = FaceProcessEvents"
    using assms by (auto simp: in_trace_steps)
  from in_trace_processEvents [OF this, of E evs]
  show ?thesis
    by (cases "processEvents E evs (startPushLoop_arm patternId s)")
       (auto simp: startPushLoop_def split: loop_exit.splits)
qed

lemma in_trace_run_pushLoops:
  assumes "a \<in> set (trace s)"
  shows "a \<in> set (trace (snd (snd (run_pushLoops E ids evs s))))"
  using assms
proof (induction ids arbitrary: evs s)
  case Nil
  then show ?case by simp
next
  case (Cons i ids)
  let ?s0 = "logger_log (''Starting data push for pattern '' @ to_string (i + 1) @ ''.'')
               True False s"
  have "a \<in> set (trace ?s0) \<or> a = FaceProcessEvents" using Cons.prems by simp
  from in_trace_startPushLoop [OF this, of E i evs]
  show ?case
    by (cases "startPushLoop E i evs ?s0") (auto simp: Cons.IH split: bool.splits)
qed

lemma run_pushLoops_enters_loop:
  assumes "ids \<noteq> []"
  shows "FaceProcessEvents \<in> set (trace (snd (snd (run_pushLoops E ids evs s))))"
proof (cases ids)
  case Nil
  with assms show ?thesis by simp
next
  case (Cons i rest)
  let ?s0 = "logger_log (''Starting data push for pattern '' @ to_string (i + 1) @ ''.'')
               True False s"
  have "FaceProcessEvents \<in> set (trace (snd (snd (startPushLoop E i evs ?s0))))"
    by (rule in_trace_startPushLoop) simp
  with Cons show ?thesis
    by (cases "startPushLoop E i evs ?s0")
       (auto simp: in_trace_run_pushLoops split: bool.splits)
qed

lemma run_publish_enters_loop:
  "FaceProcessEvents \<in> set (trace (snd (run_publish E evs s)))"
proof -
  let ?s3 = "run_register
               (logger_log (''We have '' @ to_string (length (m_trafficPatterns s)) @
                            '' traffic patterns.'') True False
                 ((emit (SignalSetAsyncWait RunSignalHandler) s)
                    \<lparr>signal_waits := signal_waits s @ [RunSignalHandler]\<rparr>))"
  let ?ids = "[0 ..< length (m_trafficPatterns ?s3)]"
  let ?r = "run_pushLoops E ?ids evs ?s3"
  show ?thesis
  proof (cases ?r)
    case (fields blocked rest s4)
    have p: "FaceProcessEvents \<in> set (trace (snd (snd (processEvents E rest s4))))"
      by (rule in_trace_processEvents) simp
    show ?thesis
    proof (cases blocked)
      case True
      have "?ids \<noteq> []"
      proof
        assume "?ids = []"
        then have "?r = (False, evs, ?s3)" by simp
        with fields True show False by simp
      qed
      from run_pushLoops_enters_loop [OF this, of E evs ?s3] fields True
      show ?thesis by (simp add: run_publish_def Let_def)
    next
      case False
      with fields p show ?thesis
        by (cases "processEvents E rest s4")
           (auto simp: run_publish_def Let_def split: loop_exit.splits)
    qed
  qed
qed

lemma in_trace_run_publish:
  assumes "a \<in> set (trace (run_register
               (logger_log (''We have '' @ to_string (length (m_trafficPatterns s)) @
                            '' traffic patterns.'') True False
                 ((emit (SignalSetAsyncWait RunSignalHandler) s)
                    \<lparr>signal_waits := signal_waits s @ [RunSignalHandler]\<rparr>))))"
  shows "a \<in> set (trace (snd (run_publish E evs s)))"
proof -
  let ?s3 = "run_register
               (logger_log (''We have '' @ to_string (length (m_trafficPatterns s)) @
                            '' traffic patterns.'') True False
                 ((emit (SignalSetAsyncWait RunSignalHandler) s)
                    \<lparr>signal_waits := signal_waits s @ [RunSignalHandler]\<rparr>))"
  let ?r = "run_pushLoops E [0 ..< length (m_trafficPatterns ?s3)] evs ?s3"
  have a4: "a \<in> set (trace (snd (snd ?r)))"
    using assms by (rule in_trace_run_pushLoops)
  show ?thesis
  proof (cases ?r)
    case (fields blocked rest s4)
    with a4 have "a \<in> set (trace s4)" by simp
    then have "a \<in> set (trace (snd (snd (processEvents E rest s4))))"
      by (intro in_trace_processEvents) simp
    with fields a4 show ?thesis
      by (cases "processEvents E rest s4")
         (auto simp: run_publish_def Let_def split: loop_exit.splits bool.splits)
  qed
qed

lemma fst_run_publish: "fst (run_publish E evs s) \<noteq> Exited 2"
  by (simp add: run_publish_def Let_def split: prod.splits bool.splits loop_exit.splits)

subsection \<open>The first firing of a push loop\<close>

lemma sendData_publishes:
  assumes "sendData_content E (m_trafficPatterns s ! patternId) (rng_pos s) = Inr (content, pos')"
      and "keyChain_sign_ok E
             ((sendData_build (m_trafficPatterns s ! patternId))\<lparr>d_content := content\<rparr>)
             (m_signingInfo (m_trafficPatterns s ! patternId))"
      and "face_put_ok E
             ((sendData_build (m_trafficPatterns s ! patternId))
                \<lparr>d_content := content,
                  d_signedWith := Some (m_signingInfo (m_trafficPatterns s ! patternId))\<rparr>)"
  shows "\<exists>s'. sendData E patternId s = Returned s' \<and>
              emitted (trace s') = emitted (trace s) @
                [(sendData_build (m_trafficPatterns s ! patternId))
                   \<lparr>d_content := content,
                     d_signedWith := Some (m_signingInfo (m_trafficPatterns s ! patternId))\<rparr>]"
  using assms by (simp add: sendData_def Let_def)

lemma dispatch_TimerFired_publishes:
  assumes "timers s patternId = Some t" and "pending t"
      and "patternId < length (m_trafficPatterns s)"
      and "sendData_content E (m_trafficPatterns s ! patternId) (rng_pos s) = Inr (content, pos')"
      and "keyChain_sign_ok E
             ((sendData_build (m_trafficPatterns s ! patternId))\<lparr>d_content := content\<rparr>)
             (m_signingInfo (m_trafficPatterns s ! patternId))"
      and "face_put_ok E
             ((sendData_build (m_trafficPatterns s ! patternId))
                \<lparr>d_content := content,
                  d_signedWith := Some (m_signingInfo (m_trafficPatterns s ! patternId))\<rparr>)"
  shows "\<exists>s'. dispatch E (TimerFired patternId) s = Returned s' \<and>
              emitted (trace s') = emitted (trace s) @
                [(sendData_build (m_trafficPatterns s ! patternId))
                   \<lparr>d_content := content,
                     d_signedWith := Some (m_signingInfo (m_trafficPatterns s ! patternId))\<rparr>] \<and>
              timers s' patternId =
                Some \<lparr>expires_at = expires_at t +
                                     m_generationInterval (m_trafficPatterns s ! patternId),
                      pending = True\<rparr>"
proof -
  let ?s0 = "s\<lparr>timers := (timers s)(patternId \<mapsto> t\<lparr>pending := False\<rparr>)\<rparr>"
  have d: "dispatch E (TimerFired patternId) s = sendData E patternId ?s0"
    using assms(1,2,3) by (simp add: dispatch_TimerFired)
  have "\<exists>s'. sendData E patternId ?s0 = Returned s' \<and>
              emitted (trace s') = emitted (trace ?s0) @
                [(sendData_build (m_trafficPatterns ?s0 ! patternId))
                   \<lparr>d_content := content,
                     d_signedWith := Some (m_signingInfo (m_trafficPatterns ?s0 ! patternId))\<rparr>]"
    by (rule sendData_publishes) (simp_all add: assms)
  then obtain s' where s': "sendData E patternId ?s0 = Returned s'"
    and e: "emitted (trace s') = emitted (trace s) @
                [(sendData_build (m_trafficPatterns s ! patternId))
                   \<lparr>d_content := content,
                     d_signedWith := Some (m_signingInfo (m_trafficPatterns s ! patternId))\<rparr>]"
    by auto
  from sendData_Returned_state [OF s']
  have "timers s' = timers (sendData_rearm patternId ?s0)" by simp
  then have "timers s' patternId =
                Some \<lparr>expires_at = expires_at t +
                                     m_generationInterval (m_trafficPatterns s ! patternId),
                      pending = True\<rparr>"
    by (simp add: timers_sendData_rearm)
  with d s' e show ?thesis by simp
qed

lemma startPushLoop_arm_publishes:
  assumes "patternId < length (m_trafficPatterns s)"
      and "sendData_content E (m_trafficPatterns s ! patternId) (rng_pos s) = Inr (content, pos')"
      and "keyChain_sign_ok E
             ((sendData_build (m_trafficPatterns s ! patternId))\<lparr>d_content := content\<rparr>)
             (m_signingInfo (m_trafficPatterns s ! patternId))"
      and "face_put_ok E
             ((sendData_build (m_trafficPatterns s ! patternId))
                \<lparr>d_content := content,
                  d_signedWith := Some (m_signingInfo (m_trafficPatterns s ! patternId))\<rparr>)"
  shows "\<exists>s'. dispatch E (TimerFired patternId) (startPushLoop_arm patternId s) = Returned s' \<and>
              emitted (trace s') = emitted (trace s) @
                [(sendData_build (m_trafficPatterns s ! patternId))
                   \<lparr>d_content := content,
                     d_signedWith := Some (m_signingInfo (m_trafficPatterns s ! patternId))\<rparr>] \<and>
              timers s' patternId =
                Some \<lparr>expires_at = clock s +
                                     m_generationInterval (m_trafficPatterns s ! patternId) +
                                     m_generationInterval (m_trafficPatterns s ! patternId),
                      pending = True\<rparr>"
proof -
  let ?a = "startPushLoop_arm patternId s"
  have e: "emitted (trace ?a) = emitted (trace s)"
    by (simp add: startPushLoop_arm_def Let_def)
  have "\<exists>s'. dispatch E (TimerFired patternId) ?a = Returned s' \<and>
              emitted (trace s') = emitted (trace ?a) @
                [(sendData_build (m_trafficPatterns ?a ! patternId))
                   \<lparr>d_content := content,
                     d_signedWith := Some (m_signingInfo (m_trafficPatterns ?a ! patternId))\<rparr>] \<and>
              timers s' patternId =
                Some \<lparr>expires_at =
                        expires_at \<lparr>expires_at = clock s +
                                       m_generationInterval (m_trafficPatterns s ! patternId),
                                    pending = True\<rparr> +
                        m_generationInterval (m_trafficPatterns ?a ! patternId),
                      pending = True\<rparr>"
    by (rule dispatch_TimerFired_publishes)
       (simp_all add: startPushLoop_arm_timer assms)
  then show ?thesis by (simp add: e)
qed


lemma emitted_in_trace:
  assumes "d \<in> set (emitted tr)"
  shows "FacePut d \<in> set tr"
  using assms by (induction tr rule: emitted.induct) auto

lemma startPushLoop_first_firing:
  assumes "patternId < length (m_trafficPatterns s)"
      and "sendData_content E (m_trafficPatterns s ! patternId) (rng_pos s) = Inr (content, pos')"
      and "keyChain_sign_ok E
             ((sendData_build (m_trafficPatterns s ! patternId))\<lparr>d_content := content\<rparr>)
             (m_signingInfo (m_trafficPatterns s ! patternId))"
      and "face_put_ok E
             ((sendData_build (m_trafficPatterns s ! patternId))
                \<lparr>d_content := content,
                  d_signedWith := Some (m_signingInfo (m_trafficPatterns s ! patternId))\<rparr>)"
  shows "FacePut ((sendData_build (m_trafficPatterns s ! patternId))
                   \<lparr>d_content := content,
                     d_signedWith := Some (m_signingInfo (m_trafficPatterns s ! patternId))\<rparr>)
           \<in> set (trace (snd (snd (startPushLoop E patternId (TimerFired patternId # evs) s))))"
proof -
  let ?d = "(sendData_build (m_trafficPatterns s ! patternId))
                   \<lparr>d_content := content,
                     d_signedWith := Some (m_signingInfo (m_trafficPatterns s ! patternId))\<rparr>"
  let ?a = "startPushLoop_arm patternId s"
  let ?b = "(emit FaceProcessEvents ?a)\<lparr>io_stopped := False\<rparr>"
  have "\<exists>s'. dispatch E (TimerFired patternId) ?b = Returned s' \<and>
              emitted (trace s') = emitted (trace ?b) @
                [(sendData_build (m_trafficPatterns ?b ! patternId))
                   \<lparr>d_content := content,
                     d_signedWith := Some (m_signingInfo (m_trafficPatterns ?b ! patternId))\<rparr>] \<and>
              timers s' patternId =
                Some \<lparr>expires_at =
                        expires_at \<lparr>expires_at = clock s +
                                       m_generationInterval (m_trafficPatterns s ! patternId),
                                    pending = True\<rparr> +
                        m_generationInterval (m_trafficPatterns ?b ! patternId),
                      pending = True\<rparr>"
    by (rule dispatch_TimerFired_publishes)
       (simp_all add: startPushLoop_arm_timer assms)
  then obtain s' where d: "dispatch E (TimerFired patternId) ?b = Returned s'"
    and e: "emitted (trace s') = emitted (trace ?b) @ [?d]"
    by auto
  from e have "?d \<in> set (emitted (trace s'))" by simp
  then have m: "FacePut ?d \<in> set (trace s')" by (rule emitted_in_trace)
  have "FacePut ?d \<in> set (trace (snd (snd (io_run E (TimerFired patternId # evs) ?b))))"
  proof (cases "io_stopped s'")
    case True
    with d m show ?thesis by simp
  next
    case False
    with d in_trace_io_run [OF m, of E evs] show ?thesis by simp
  qed
  then show ?thesis
    by (cases "io_run E (TimerFired patternId # evs) ?b")
       (auto simp: startPushLoop_def processEvents_def split: loop_exit.splits)
qed

lemma run_pushLoops_first_firing:
  assumes "patternId < length (m_trafficPatterns s)"
      and "sendData_content E (m_trafficPatterns s ! patternId) (rng_pos s) = Inr (content, pos')"
      and "keyChain_sign_ok E
             ((sendData_build (m_trafficPatterns s ! patternId))\<lparr>d_content := content\<rparr>)
             (m_signingInfo (m_trafficPatterns s ! patternId))"
      and "face_put_ok E
             ((sendData_build (m_trafficPatterns s ! patternId))
                \<lparr>d_content := content,
                  d_signedWith := Some (m_signingInfo (m_trafficPatterns s ! patternId))\<rparr>)"
  shows "FacePut ((sendData_build (m_trafficPatterns s ! patternId))
                   \<lparr>d_content := content,
                     d_signedWith := Some (m_signingInfo (m_trafficPatterns s ! patternId))\<rparr>)
           \<in> set (trace (snd (snd
                (run_pushLoops E (patternId # ids) (TimerFired patternId # evs) s))))"
proof -
  let ?d = "(sendData_build (m_trafficPatterns s ! patternId))
                   \<lparr>d_content := content,
                     d_signedWith := Some (m_signingInfo (m_trafficPatterns s ! patternId))\<rparr>"
  let ?s0 = "logger_log (''Starting data push for pattern '' @ to_string (patternId + 1) @ ''.'')
               True False s"
  have "FacePut ((sendData_build (m_trafficPatterns ?s0 ! patternId))
                   \<lparr>d_content := content,
                     d_signedWith := Some (m_signingInfo (m_trafficPatterns ?s0 ! patternId))\<rparr>)
           \<in> set (trace (snd (snd (startPushLoop E patternId (TimerFired patternId # evs) ?s0))))"
    by (rule startPushLoop_first_firing) (simp_all add: assms)
  then have "FacePut ?d
           \<in> set (trace (snd (snd (startPushLoop E patternId (TimerFired patternId # evs) ?s0))))"
    by simp
  then show ?thesis
    by (cases "startPushLoop E patternId (TimerFired patternId # evs) ?s0")
       (auto simp: in_trace_run_pushLoops split: bool.splits)
qed

lemma run_register_fields [simp]:
  "rng_pos (run_register s) = rng_pos s \<and> clock (run_register s) = clock s"
  unfolding run_register_def
  by (rule fold_preserves) simp_all

lemma run_printPatterns_fields [simp]:
  "rng_pos (run_printPatterns s) = rng_pos s \<and> clock (run_printPatterns s) = clock s"
  unfolding run_printPatterns_def
  by (rule fold_preserves) simp_all

lemma run_publish_first_firing:
  assumes "m_trafficPatterns s \<noteq> []"
      and "sendData_content E (m_trafficPatterns s ! 0) (rng_pos s) = Inr (content, pos')"
      and "keyChain_sign_ok E
             ((sendData_build (m_trafficPatterns s ! 0))\<lparr>d_content := content\<rparr>)
             (m_signingInfo (m_trafficPatterns s ! 0))"
      and "face_put_ok E
             ((sendData_build (m_trafficPatterns s ! 0))
                \<lparr>d_content := content,
                  d_signedWith := Some (m_signingInfo (m_trafficPatterns s ! 0))\<rparr>)"
  shows "FacePut ((sendData_build (m_trafficPatterns s ! 0))
                   \<lparr>d_content := content,
                     d_signedWith := Some (m_signingInfo (m_trafficPatterns s ! 0))\<rparr>)
           \<in> set (trace (snd (run_publish E (TimerFired 0 # evs) s)))"
proof -
  let ?d = "(sendData_build (m_trafficPatterns s ! 0))
                   \<lparr>d_content := content,
                     d_signedWith := Some (m_signingInfo (m_trafficPatterns s ! 0))\<rparr>"
  let ?s3 = "run_register
               (logger_log (''We have '' @ to_string (length (m_trafficPatterns s)) @
                            '' traffic patterns.'') True False
                 ((emit (SignalSetAsyncWait RunSignalHandler) s)
                    \<lparr>signal_waits := signal_waits s @ [RunSignalHandler]\<rparr>))"
  let ?r = "run_pushLoops E [0 ..< length (m_trafficPatterns ?s3)] (TimerFired 0 # evs) ?s3"
  from assms(1) have ids: "[0 ..< length (m_trafficPatterns ?s3)] =
                             0 # [Suc 0 ..< length (m_trafficPatterns s)]"
    by (simp add: upt_conv_Cons)
  have "FacePut ((sendData_build (m_trafficPatterns ?s3 ! 0))
                   \<lparr>d_content := content,
                     d_signedWith := Some (m_signingInfo (m_trafficPatterns ?s3 ! 0))\<rparr>)
           \<in> set (trace (snd (snd
                (run_pushLoops E (0 # [Suc 0 ..< length (m_trafficPatterns s)])
                   (TimerFired 0 # evs) ?s3))))"
    by (rule run_pushLoops_first_firing) (simp_all add: assms)
  then have a4: "FacePut ?d \<in> set (trace (snd (snd ?r)))"
    unfolding ids by simp
  show ?thesis
  proof (cases ?r)
    case (fields blocked rest s4)
    with a4 have "FacePut ?d \<in> set (trace s4)" by simp
    then have "FacePut ?d \<in> set (trace (snd (snd (processEvents E rest s4))))"
      by (intro in_trace_processEvents) simp
    with fields a4 show ?thesis
      by (cases "processEvents E rest s4")
         (auto simp: run_publish_def Let_def split: loop_exit.splits bool.splits)
  qed
qed

lemma run_first_firing:
  assumes "readConfigurationFile E (m_configurationFile s) = Some ps" and "ps \<noteq> []"
      and "m_nMaximumInterests s \<noteq> Some 0" and "m_trafficPatterns s = []"
      and "sendData_content E (ps ! 0) (rng_pos s) = Inr (content, pos')"
      and "keyChain_sign_ok E ((sendData_build (ps ! 0))\<lparr>d_content := content\<rparr>)
             (m_signingInfo (ps ! 0))"
      and "face_put_ok E
             ((sendData_build (ps ! 0))
                \<lparr>d_content := content, d_signedWith := Some (m_signingInfo (ps ! 0))\<rparr>)"
  shows "FacePut ((sendData_build (ps ! 0))
                   \<lparr>d_content := content, d_signedWith := Some (m_signingInfo (ps ! 0))\<rparr>)
           \<in> set (trace (snd (run E (TimerFired 0 # evs) s)))"
proof -
  let ?s2 = "run_printPatterns
               (logger_log (''Traffic configuration file processing completed.'' @ [CHR 0x0A])
                  True False
                  ((emit InitializeLog s)\<lparr>m_trafficPatterns := m_trafficPatterns s @ ps\<rparr>))"
  have p2: "m_trafficPatterns ?s2 = ps" using assms(4) by simp
  have r: "run E (TimerFired 0 # evs) s = run_publish E (TimerFired 0 # evs) ?s2"
    using assms(1,3)
    by (simp add: run_def Let_def checkTrafficPatternCorrectness_def optional_eq_def
          split: option.splits)
  have "FacePut ((sendData_build (m_trafficPatterns ?s2 ! 0))
                   \<lparr>d_content := content,
                     d_signedWith := Some (m_signingInfo (m_trafficPatterns ?s2 ! 0))\<rparr>)
           \<in> set (trace (snd (run_publish E (TimerFired 0 # evs) ?s2)))"
    by (rule run_publish_first_firing) (simp_all add: assms p2)
  with r p2 show ?thesis by simp
qed


lemma d_name_sendData_build:
  "d_name ((sendData_build p)\<lparr>d_content := c, d_signedWith := i\<rparr>) = m_name p \<and>
   d_content ((sendData_build p)\<lparr>d_content := c, d_signedWith := i\<rparr>) = c"
  by (simp add: sendData_build_def)


subsection \<open>Start-up\<close>

lemma stop_count_Cons:
  "stop_count (a # tr) = (if a = FaceShutdown then 1 else 0) + stop_count tr"
  by (simp add: stop_count_def)

lemma effects_Log [simp]: "effects (tr @ [Log line a b]) = effects tr"
  by (simp add: effects_def)

lemma effects_Cons_Log [simp]: "effects (Log line a b # tr) = effects tr"
  by (simp add: effects_def)

lemma effects_Nil [simp]: "effects [] = []"
  by (simp add: effects_def)

lemma effects_logStatistics [simp]: "effects (trace (logStatistics s)) = effects (trace s)"
proof -
  have "filter (\<lambda>a. \<not> is_log a) (concat (map f xs)) = []"
    if "\<And>x. x \<in> set xs \<Longrightarrow> filter (\<lambda>a. \<not> is_log a) (f x) = []"
    for f :: "nat \<Rightarrow> action list" and xs
    using that by (induction xs) simp_all
  then show ?thesis
    by (simp add: logStatistics_def effects_def logStatistics_pattern_def)
qed

lemma emitted_logStatistics [simp]: "emitted (trace (logStatistics s)) = emitted (trace s)"
proof -
  have "emitted (concat (map f xs)) = []"
    if "\<And>x. x \<in> set xs \<Longrightarrow> emitted (f x) = []"
    for f :: "nat \<Rightarrow> action list" and xs
    using that by (induction xs) simp_all
  then show ?thesis
    by (simp add: logStatistics_def logStatistics_pattern_def)
qed

lemma run_printPatterns_observations:
  "effects (trace (run_printPatterns s)) = effects (trace s) \<and>
   report_count (trace (run_printPatterns s)) = report_count (trace s) \<and>
   emitted (trace (run_printPatterns s)) = emitted (trace s)"
  unfolding run_printPatterns_def
  by (rule fold_preserves)
     (simp_all add: effects_append report_count_append report_count_Cons report_count_Nil)

lemma run_register_registers:
  assumes "i \<in> set ids"
  shows "RegisterPrefix (m_name (m_trafficPatterns s ! i)) i \<in>
           set (trace (fold (\<lambda>i s'.
                  (emit (RegisterPrefix (m_name (m_trafficPatterns s' ! i)) i)
                    (logger_log (''Registering pattern '' @ to_string (i + 1) @ ''.'')
                       True False s'))
                    \<lparr>m_registeredPrefixes := m_registeredPrefixes s' @ [i]\<rparr>) ids s))"
  using assms
proof (induction ids arbitrary: s)
  case Nil
  then show ?case by simp
next
  case (Cons j ids)
  let ?f = "\<lambda>i s'.
              (emit (RegisterPrefix (m_name (m_trafficPatterns s' ! i)) i)
                (logger_log (''Registering pattern '' @ to_string (i + 1) @ ''.'')
                   True False s'))
                \<lparr>m_registeredPrefixes := m_registeredPrefixes s' @ [i]\<rparr>"
  have keep: "a \<in> set (trace (fold ?f xs s0))" if "a \<in> set (trace s0)" for a xs s0
    using that by (induction xs arbitrary: s0) simp_all
  show ?case
  proof (cases "i = j")
    case True
    have "RegisterPrefix (m_name (m_trafficPatterns s ! i)) i \<in> set (trace (?f j s))"
      using True by simp
    from keep [OF this, of ids] show ?thesis by simp
  next
    case False
    with Cons.prems have "i \<in> set ids" by simp
    from Cons.IH [OF this, of "?f j s"] show ?thesis by simp
  qed
qed

lemma run_report_only:
  assumes "m_nMaximumInterests s = Some 0"
      and "readConfigurationFile E (m_configurationFile s) = Some ps"
  shows "fst (run E sched s) = Exited 0 \<and>
         effects (trace (snd (run E sched s))) = effects (trace s) @ [InitializeLog] \<and>
         report_count (trace (snd (run E sched s))) = report_count (trace s) + 1 \<and>
         emitted (trace (snd (run E sched s))) = emitted (trace s) \<and>
         Log (''Total Interests Received    = '' @
              to_string (unat (m_nInterestsReceivedTotal s))) False True
           \<in> set (trace (snd (run E sched s)))"
proof -
  let ?s2 = "run_printPatterns
               (logger_log (''Traffic configuration file processing completed.'' @ [CHR 0x0A])
                  True False
                  ((emit InitializeLog s)\<lparr>m_trafficPatterns := m_trafficPatterns s @ ps\<rparr>))"
  have r: "run E sched s = (Exited 0, logStatistics ?s2)"
    using assms
    by (simp add: run_def Let_def checkTrafficPatternCorrectness_def optional_eq_def)
  have o: "effects (trace ?s2) = effects (trace s) @ [InitializeLog] \<and>
           report_count (trace ?s2) = report_count (trace s) \<and>
           emitted (trace ?s2) = emitted (trace s)"
    by (simp add: run_printPatterns_observations effects_append report_count_append
          report_count_Cons report_count_Nil)
       (simp add: effects_def)
  have t: "Log (''Total Interests Received    = '' @
              to_string (unat (m_nInterestsReceivedTotal s))) False True
           \<in> set (trace (logStatistics ?s2))"
    by (simp add: logStatistics_def)
  from r o t show ?thesis
    by (simp add: report_count_logStatistics)
qed

lemma run_publishing:
  assumes "m_nMaximumInterests s \<noteq> Some 0"
      and "readConfigurationFile E (m_configurationFile s) = Some ps"
      and "m_trafficPatterns s = []"
  shows "FaceProcessEvents \<in> set (trace (snd (run E sched s))) \<and>
         (\<forall>i<length ps. RegisterPrefix (m_name (ps ! i)) i \<in> set (trace (snd (run E sched s))))"
proof -
  let ?s2 = "run_printPatterns
               (logger_log (''Traffic configuration file processing completed.'' @ [CHR 0x0A])
                  True False
                  ((emit InitializeLog s)\<lparr>m_trafficPatterns := m_trafficPatterns s @ ps\<rparr>))"
  have p2: "m_trafficPatterns ?s2 = ps" using assms(3) by simp
  have r: "run E sched s = run_publish E sched ?s2"
    using assms(1,2)
    by (simp add: run_def Let_def checkTrafficPatternCorrectness_def optional_eq_def
          split: option.splits)
  let ?s1 = "logger_log (''We have '' @ to_string (length (m_trafficPatterns ?s2)) @
                            '' traffic patterns.'') True False
                 ((emit (SignalSetAsyncWait RunSignalHandler) ?s2)
                    \<lparr>signal_waits := signal_waits ?s2 @ [RunSignalHandler]\<rparr>)"
  have reg: "RegisterPrefix (m_name (ps ! i)) i \<in> set (trace (snd (run_publish E sched ?s2)))"
    if "i < length ps" for i
  proof -
    from that have "i \<in> set [0 ..< length (m_trafficPatterns ?s1)]"
      by (simp add: assms(3))
    from run_register_registers [OF this, of ?s1]
    have "RegisterPrefix (m_name (ps ! i)) i \<in> set (trace (run_register ?s1))"
      by (simp add: run_register_def assms(3))
    then show ?thesis by (rule in_trace_run_publish)
  qed
  from r reg run_publish_enters_loop [of E sched ?s2] show ?thesis by simp
qed

lemma run_exit_2:
  "fst (run E sched s) = Exited 2 \<longleftrightarrow> readConfigurationFile E (m_configurationFile s) = None"
  using fst_run_publish [of E sched]
  by (simp add: run_def Let_def checkTrafficPatternCorrectness_def split: option.splits)

lemma main_run:
  assumes "\<not> vm_help vm" and "vm_configFile vm \<noteq> []" and "0 \<le> vm_delay vm"
      and "vm_count vm = None \<or> (\<exists>c. vm_count vm = Some c \<and> 0 \<le> c)"
  shows "main E (Some vm) sched =
           (fst (run E sched
                  ((NdnTrafficPush_init (vm_configFile vm))
                     \<lparr>m_nMaximumInterests := map_option of_int (vm_count vm),
                       m_contentDelayGlobal := vm_delay vm,
                       m_wantQuiet := vm_quiet vm\<rparr>)),
            trace (snd (run E sched
                  ((NdnTrafficPush_init (vm_configFile vm))
                     \<lparr>m_nMaximumInterests := map_option of_int (vm_count vm),
                       m_contentDelayGlobal := vm_delay vm,
                       m_wantQuiet := vm_quiet vm\<rparr>))))"
  using assms
  by (auto simp: main_def Let_def setMaximumInterests_def setContentDelay_def
        setQuietLogging_def NdnTrafficPush_init_def)

lemma count_not_zero:
  assumes "0 < c" and "c < 2 ^ 31"
  shows "(of_int c :: uint64_t) \<noteq> 0"
proof
  assume "(of_int c :: uint64_t) = 0"
  then have "(2 :: int) ^ 64 dvd c" by (simp add: word_of_int_eq_0_iff)
  then have "(2 :: int) ^ 64 \<le> c" using assms(1) by (rule zdvd_imp_le)
  with assms(2) show False by simp
qed

text \<open>
  C1, as stated, fails for the absent option: without \<^verbatim>\<open>--count\<close> the cap is an empty
  optional, the test \<^verbatim>\<open>m_nMaximumInterests == 0\<close> is false, and the run goes on. With one
  pattern \<^verbatim>\<open>/a\<close> and an empty schedule the program registers the prefix, arms the timer,
  enters the event loop and is still in it; no report has been printed.
\<close>

theorem absent_count_is_not_report_only:
  "fst (main (sample_env [sample_pattern]) (Some (sample_options None)) []) = Blocked \<and>
   effects (snd (main (sample_env [sample_pattern]) (Some (sample_options None)) [])) =
     [InitializeLog, SignalSetAsyncWait RunSignalHandler, RegisterPrefix ''/a'' 0,
      SignalSetAsyncWait PushLoopSignalHandler, TimerAsyncWait 0 1000, FaceProcessEvents] \<and>
   report_count (snd (main (sample_env [sample_pattern]) (Some (sample_options None)) [])) = 0"
  by (simp add: run_defs sample_defs to_string_0 to_string_1 Let_def effects_def
        report_count_Cons report_count_Nil report_count_append report_header_def
        cong: eval_congs)

text \<open>
  C1, amended. Take an invocation that gets as far as \<^verbatim>\<open>run\<close> (no \<^verbatim>\<open>--help\<close>, a
  configuration file named, no negative delay) and whose configuration file is read. With
  \<^verbatim>\<open>--count 0\<close> the program is in report-only mode: it exits with status 0, it prints
  the statistics report once, the report shows a total of 0, and apart from log lines it
  asks nothing of its collaborators but to open the log: no prefix is registered, no timer
  or signal wait is started, the event loop is not entered and nothing is emitted. Without
  \<^verbatim>\<open>--count\<close>, or with a positive count, the prefix of every pattern is registered and
  the event loop is entered.
\<close>

theorem report_only_mode_is_count_zero:
  assumes "\<not> vm_help vm" and "vm_configFile vm \<noteq> []" and "0 \<le> vm_delay vm"
      and "readConfigurationFile E (vm_configFile vm) = Some ps"
  shows "(vm_count vm = Some 0 \<longrightarrow>
            fst (main E (Some vm) sched) = Exited 0 \<and>
            effects (snd (main E (Some vm) sched)) = [InitializeLog] \<and>
            report_count (snd (main E (Some vm) sched)) = 1 \<and>
            emitted (snd (main E (Some vm) sched)) = [] \<and>
            Log ''Total Interests Received    = 0'' False True
              \<in> set (snd (main E (Some vm) sched))) \<and>
         (vm_count vm = None \<or> (\<exists>c. vm_count vm = Some c \<and> 0 < c \<and> c < 2 ^ 31) \<longrightarrow>
            FaceProcessEvents \<in> set (snd (main E (Some vm) sched)) \<and>
            (\<forall>i<length ps.
               RegisterPrefix (m_name (ps ! i)) i \<in> set (snd (main E (Some vm) sched))))"
proof -
  let ?s = "(NdnTrafficPush_init (vm_configFile vm))
              \<lparr>m_nMaximumInterests := map_option of_int (vm_count vm),
                m_contentDelayGlobal := vm_delay vm,
                m_wantQuiet := vm_quiet vm\<rparr>"
  have cfg: "readConfigurationFile E (m_configurationFile ?s) = Some ps"
    using assms(4) by (simp add: NdnTrafficPush_init_def)
  have init: "trace ?s = []" "m_trafficPatterns ?s = []" "m_nInterestsReceivedTotal ?s = 0"
    by (simp_all add: NdnTrafficPush_init_def)
  have zero: "fst (main E (Some vm) sched) = Exited 0 \<and>
            effects (snd (main E (Some vm) sched)) = [InitializeLog] \<and>
            report_count (snd (main E (Some vm) sched)) = 1 \<and>
            emitted (snd (main E (Some vm) sched)) = [] \<and>
            Log ''Total Interests Received    = 0'' False True
              \<in> set (snd (main E (Some vm) sched))"
    if c: "vm_count vm = Some 0"
  proof -
    have m: "main E (Some vm) sched = (fst (run E sched ?s), trace (snd (run E sched ?s)))"
      using assms(1,2,3) c by (intro main_run) simp_all
    have cap: "m_nMaximumInterests ?s = Some 0" using c by simp
    from run_report_only [OF cap cfg, of sched] m init show ?thesis
      by (simp add: report_count_Nil to_string_0)
  qed
  have more: "FaceProcessEvents \<in> set (snd (main E (Some vm) sched)) \<and>
            (\<forall>i<length ps.
               RegisterPrefix (m_name (ps ! i)) i \<in> set (snd (main E (Some vm) sched)))"
    if c: "vm_count vm = None \<or> (\<exists>c. vm_count vm = Some c \<and> 0 < c \<and> c < 2 ^ 31)"
  proof -
    from c have "vm_count vm = None \<or> (\<exists>c. vm_count vm = Some c \<and> 0 \<le> c)" by auto
    with assms(1,2,3)
    have m: "main E (Some vm) sched = (fst (run E sched ?s), trace (snd (run E sched ?s)))"
      by (intro main_run)
    have cap: "m_nMaximumInterests ?s \<noteq> Some 0"
      using c count_not_zero by auto
    from run_publishing [OF cap cfg init(2), of sched] m show ?thesis by simp
  qed
  from zero more show ?thesis by blast
qed

theorem report_only_mode_is_count_zero_witness:
  "fst (main (sample_env [sample_pattern]) (Some (sample_options (Some 0))) [TimerFired 0])
     = Exited 0 \<and>
   effects (snd (main (sample_env [sample_pattern]) (Some (sample_options (Some 0)))
                   [TimerFired 0])) = [InitializeLog] \<and>
   report_count (snd (main (sample_env [sample_pattern]) (Some (sample_options (Some 0)))
                        [TimerFired 0])) = 1 \<and>
   RegisterPrefix ''/a'' 0
     \<in> set (snd (main (sample_env [sample_pattern]) (Some (sample_options None)) [TimerFired 0])) \<and>
   FaceProcessEvents
     \<in> set (snd (main (sample_env [sample_pattern]) (Some (sample_options (Some 7)))
                    [TimerFired 0]))"
proof -
  let ?E = "sample_env [sample_pattern]"
  have h: "\<not> vm_help (sample_options c)" "vm_configFile (sample_options c) \<noteq> []"
    "0 \<le> vm_delay (sample_options c)"
    "readConfigurationFile ?E (vm_configFile (sample_options c)) = Some [sample_pattern]"
    "vm_count (sample_options c) = c" for c
    by (simp_all add: sample_defs)
  note t = report_only_mode_is_count_zero [OF h(1,2,3,4), of _ "[TimerFired 0]"]
  have n: "m_name sample_pattern = ''/a''" by (simp add: sample_defs)
  from t [of "Some 0"] t [of None] t [of "Some 7"] n show ?thesis
    by (simp add: h(5))
qed

text \<open>
  C3, as stated, fails: nothing is validated. A pattern file whose only pattern has no
  name and no generation interval (every member at its default) is accepted. With
  \<^verbatim>\<open>--count 0\<close> the run ends with status 0, not 2. Without a cap the empty prefix is
  registered, the timer is armed with the default interval of \<^verbatim>\<open>-1_ms\<close>, and at its
  first firing an object with the empty name is published.
\<close>

theorem unnamed_pattern_is_published:
  "m_name DataTrafficConfiguration_default = [] \<and>
   m_generationInterval DataTrafficConfiguration_default = - 1000 \<and>
   fst (main (sample_env [DataTrafficConfiguration_default]) (Some (sample_options (Some 0))) [])
     = Exited 0 \<and>
   fst (main (sample_env [DataTrafficConfiguration_default]) (Some (sample_options None))
          [TimerFired 0]) = Blocked \<and>
   effects (snd (main (sample_env [DataTrafficConfiguration_default])
                   (Some (sample_options None)) [TimerFired 0])) =
     [InitializeLog, SignalSetAsyncWait RunSignalHandler, RegisterPrefix [] 0,
      SignalSetAsyncWait PushLoopSignalHandler, TimerAsyncWait 0 (- 1000), FaceProcessEvents,
      KeyChainSign [],
      FacePut \<lparr>d_name = [], d_freshnessPeriod = None, d_contentType = None, d_content = [],
               d_signedWith = Some []\<rparr>,
      TimerAsyncWait 0 (- 2000)]"
  by (simp add: run_defs dispatch_TimerFired sample_defs sendData_defs to_string_0 to_string_1
        Let_def effects_def cong: eval_congs)

text \<open>
  C3, amended. No pattern is validated at start-up: \<^verbatim>\<open>checkTrafficPatternCorrectness\<close>
  and \<^verbatim>\<open>checkTrafficDetailCorrectness\<close> accept everything, so \<^verbatim>\<open>run\<close> ends with status
  2 exactly when the configuration file cannot be read. A pattern without a name or
  without an interval keeps the defaults, the empty name and \<^verbatim>\<open>-1_ms\<close>. With a cap of 0
  the run ends with status 0; otherwise the prefix of every pattern is registered under
  the name it has. A push loop that is started for a pattern arms the timer one interval
  after the start, whatever the interval is, and a firing of that timer whose content
  generation, signing and emission succeed publishes one object under the name of the
  pattern and waits for the deadline one interval later: neither the name nor the interval
  is looked at. In particular the run publishes the first pattern of the file at the first
  firing of its timer.
\<close>

theorem patterns_are_not_validated:
  "checkTrafficPatternCorrectness s0 \<and> checkTrafficDetailCorrectness p \<and>
   (fst (run E sched s) = Exited 2 \<longleftrightarrow> readConfigurationFile E (m_configurationFile s) = None) \<and>
   m_name DataTrafficConfiguration_default = [] \<and>
   m_generationInterval DataTrafficConfiguration_default = - 1000 \<and>
   (\<forall>ps. readConfigurationFile E (m_configurationFile s) = Some ps \<and>
         m_nMaximumInterests s = Some 0 \<longrightarrow> fst (run E sched s) = Exited 0) \<and>
   (\<forall>ps. readConfigurationFile E (m_configurationFile s) = Some ps \<and>
         m_nMaximumInterests s \<noteq> Some 0 \<and> m_trafficPatterns s = [] \<longrightarrow>
         (\<forall>i<length ps. RegisterPrefix (m_name (ps ! i)) i \<in> set (trace (snd (run E sched s))))) \<and>
   timers (startPushLoop_arm patternId s1) patternId =
     Some \<lparr>expires_at = clock s1 + m_generationInterval (m_trafficPatterns s1 ! patternId),
           pending = True\<rparr> \<and>
   (\<forall>content pos'.
      patternId < length (m_trafficPatterns s1) \<and>
      sendData_content E (m_trafficPatterns s1 ! patternId) (rng_pos s1) = Inr (content, pos') \<and>
      keyChain_sign_ok E
        ((sendData_build (m_trafficPatterns s1 ! patternId))\<lparr>d_content := content\<rparr>)
        (m_signingInfo (m_trafficPatterns s1 ! patternId)) \<and>
      face_put_ok E
        ((sendData_build (m_trafficPatterns s1 ! patternId))
           \<lparr>d_content := content,
             d_signedWith := Some (m_signingInfo (m_trafficPatterns s1 ! patternId))\<rparr>) \<longrightarrow>
      (\<exists>s' d. dispatch E (TimerFired patternId) (startPushLoop_arm patternId s1) = Returned s' \<and>
              emitted (trace s') = emitted (trace s1) @ [d] \<and>
              d_name d = m_name (m_trafficPatterns s1 ! patternId) \<and>
              d_content d = content \<and>
              timers s' patternId =
                Some \<lparr>expires_at = clock s1 +
                                     m_generationInterval (m_trafficPatterns s1 ! patternId) +
                                     m_generationInterval (m_trafficPatterns s1 ! patternId),
                      pending = True\<rparr>)) \<and>
   (\<forall>ps content pos'.
      readConfigurationFile E (m_configurationFile s) = Some ps \<and> ps \<noteq> [] \<and>
      m_nMaximumInterests s \<noteq> Some 0 \<and> m_trafficPatterns s = [] \<and>
      sendData_content E (ps ! 0) (rng_pos s) = Inr (content, pos') \<and>
      keyChain_sign_ok E ((sendData_build (ps ! 0))\<lparr>d_content := content\<rparr>)
        (m_signingInfo (ps ! 0)) \<and>
      face_put_ok E
        ((sendData_build (ps ! 0))
           \<lparr>d_content := content, d_signedWith := Some (m_signingInfo (ps ! 0))\<rparr>) \<longrightarrow>
      (\<exists>d. FacePut d \<in> set (trace (snd (run E (TimerFired 0 # sched) s))) \<and>
           d_name d = m_name (ps ! 0) \<and> d_content d = content))"
proof -
  have a: "checkTrafficPatternCorrectness s0 \<and> checkTrafficDetailCorrectness p"
    by (simp add: checkTrafficPatternCorrectness_def checkTrafficDetailCorrectness_def)
  note b = run_exit_2 [of E sched s]
  have c: "m_name DataTrafficConfiguration_default = [] \<and>
           m_generationInterval DataTrafficConfiguration_default = - 1000"
    by (simp add: DataTrafficConfiguration_default_def)
  have d: "\<forall>ps. readConfigurationFile E (m_configurationFile s) = Some ps \<and>
         m_nMaximumInterests s = Some 0 \<longrightarrow> fst (run E sched s) = Exited 0"
    using run_report_only [of s E _ sched] by blast
  have e: "\<forall>ps. readConfigurationFile E (m_configurationFile s) = Some ps \<and>
         m_nMaximumInterests s \<noteq> Some 0 \<and> m_trafficPatterns s = [] \<longrightarrow>
         (\<forall>i<length ps. RegisterPrefix (m_name (ps ! i)) i \<in> set (trace (snd (run E sched s))))"
    using run_publishing [of s E _ sched] by blast
  note f = startPushLoop_arm_timer [of patternId s1]
  have g: "\<exists>s' d. dispatch E (TimerFired patternId) (startPushLoop_arm patternId s1) = Returned s' \<and>
              emitted (trace s') = emitted (trace s1) @ [d] \<and>
              d_name d = m_name (m_trafficPatterns s1 ! patternId) \<and>
              d_content d = content \<and>
              timers s' patternId =
                Some \<lparr>expires_at = clock s1 +
                                     m_generationInterval (m_trafficPatterns s1 ! patternId) +
                                     m_generationInterval (m_trafficPatterns s1 ! patternId),
                      pending = True\<rparr>"
    if "patternId < length (m_trafficPatterns s1)"
      "sendData_content E (m_trafficPatterns s1 ! patternId) (rng_pos s1) = Inr (content, pos')"
      "keyChain_sign_ok E
        ((sendData_build (m_trafficPatterns s1 ! patternId))\<lparr>d_content := content\<rparr>)
        (m_signingInfo (m_trafficPatterns s1 ! patternId))"
      "face_put_ok E
        ((sendData_build (m_trafficPatterns s1 ! patternId))
           \<lparr>d_content := content,
             d_signedWith := Some (m_signingInfo (m_trafficPatterns s1 ! patternId))\<rparr>)"
    for content pos'
    using startPushLoop_arm_publishes [OF that] d_name_sendData_build by blast
  have h: "\<exists>d. FacePut d \<in> set (trace (snd (run E (TimerFired 0 # sched) s))) \<and>
           d_name d = m_name (ps ! 0) \<and> d_content d = content"
    if "readConfigurationFile E (m_configurationFile s) = Some ps" "ps \<noteq> []"
      "m_nMaximumInterests s \<noteq> Some 0" "m_trafficPatterns s = []"
      "sendData_content E (ps ! 0) (rng_pos s) = Inr (content, pos')"
      "keyChain_sign_ok E ((sendData_build (ps ! 0))\<lparr>d_content := content\<rparr>)
        (m_signingInfo (ps ! 0))"
      "face_put_ok E
        ((sendData_build (ps ! 0))
           \<lparr>d_content := content, d_signedWith := Some (m_signingInfo (ps ! 0))\<rparr>)"
    for ps content pos'
    using run_first_firing [OF that] d_name_sendData_build by blast
  from a b c d e f g h show ?thesis by blast
qed


theorem patterns_are_not_validated_witness:
  "readConfigurationFile (sample_env [DataTrafficConfiguration_default])
     (m_configurationFile (NdnTrafficPush_init ''patterns.conf''))
     = Some [DataTrafficConfiguration_default] \<and>
   m_nMaximumInterests (setMaximumInterests 0 (NdnTrafficPush_init ''patterns.conf'')) = Some 0 \<and>
   fst (run (sample_env [DataTrafficConfiguration_default]) []
          (setMaximumInterests 0 (NdnTrafficPush_init ''patterns.conf''))) = Exited 0 \<and>
   m_nMaximumInterests (NdnTrafficPush_init ''patterns.conf'') \<noteq> Some 0 \<and>
   fst (run (sample_env [DataTrafficConfiguration_default]) []
          (NdnTrafficPush_init ''patterns.conf'')) \<noteq> Exited 2 \<and>
   RegisterPrefix [] 0
     \<in> set (trace (snd (run (sample_env [DataTrafficConfiguration_default]) []
                          (NdnTrafficPush_init ''patterns.conf'')))) \<and>
   (\<exists>d. FacePut d
          \<in> set (trace (snd (run (sample_env [DataTrafficConfiguration_default]) [TimerFired 0]
                               (NdnTrafficPush_init ''patterns.conf'')))) \<and>
        d_name d = [] \<and> d_content d = []) \<and>
   (\<exists>s' d. dispatch (sample_env [DataTrafficConfiguration_default]) (TimerFired 0)
              (startPushLoop_arm 0 (sample_server [DataTrafficConfiguration_default]))
             = Returned s' \<and>
           emitted (trace s') = [d] \<and> d_name d = [] \<and> d_content d = [] \<and>
           timers s' 0 = Some \<lparr>expires_at = - 2000, pending = True\<rparr>)"
proof -
  let ?E = "sample_env [DataTrafficConfiguration_default]"
  let ?s = "NdnTrafficPush_init ''patterns.conf''"
  let ?z = "setMaximumInterests 0 ?s"
  let ?l = "sample_server [DataTrafficConfiguration_default]"
  let ?p = "DataTrafficConfiguration_default"
  have f: "readConfigurationFile ?E (m_configurationFile ?s) = Some [?p]"
    "readConfigurationFile ?E (m_configurationFile ?z) = Some [?p]"
    by (simp_all add: sample_defs setMaximumInterests_def)
  have z: "m_nMaximumInterests ?z = Some 0"
    by (simp add: setMaximumInterests_def)
  have c: "m_nMaximumInterests ?s \<noteq> Some 0" "m_trafficPatterns ?s = []" "rng_pos ?s = 0"
    by (simp_all add: sample_defs)
  have n: "m_name ?p = []"
    by (simp add: sample_defs)
  have g: "sendData_content ?E ?p 0 = Inr ([], 0)"
    by (simp add: sendData_content_def optional_gt_def sample_defs)
  have k: "keyChain_sign_ok ?E ((sendData_build ?p)\<lparr>d_content := []\<rparr>) (m_signingInfo ?p)"
    "face_put_ok ?E ((sendData_build ?p)\<lparr>d_content := [], d_signedWith := Some (m_signingInfo ?p)\<rparr>)"
    by (simp_all add: sample_defs)
  have l: "0 < length (m_trafficPatterns ?l)" "m_trafficPatterns ?l ! 0 = ?p" "rng_pos ?l = 0"
    "clock ?l = 0" "emitted (trace ?l) = []" "m_generationInterval ?p = - 1000"
    by (simp_all add: sample_defs)
  note zero = patterns_are_not_validated
                [where E = ?E and s = ?z and sched = "[]" and ?s1.0 = ?l and patternId = 0]
  note none = patterns_are_not_validated
                [where E = ?E and s = ?s and sched = "[]" and ?s1.0 = ?l and patternId = 0]
  from zero f z have r0: "fst (run ?E [] ?z) = Exited 0" by blast
  from none f have r2: "fst (run ?E [] ?s) \<noteq> Exited 2" by simp
  from none f c have "\<forall>i<length [?p]. RegisterPrefix (m_name ([?p] ! i)) i
                        \<in> set (trace (snd (run ?E [] ?s)))"
    by blast
  then have reg: "RegisterPrefix [] 0 \<in> set (trace (snd (run ?E [] ?s)))"
    using n by simp
  from none have "sendData_content ?E ([?p] ! 0) (rng_pos ?s) = Inr ([], 0) \<and>
      keyChain_sign_ok ?E ((sendData_build ([?p] ! 0))\<lparr>d_content := []\<rparr>)
        (m_signingInfo ([?p] ! 0)) \<and>
      face_put_ok ?E
        ((sendData_build ([?p] ! 0))
           \<lparr>d_content := [], d_signedWith := Some (m_signingInfo ([?p] ! 0))\<rparr>) \<Longrightarrow>
      (\<exists>d. FacePut d \<in> set (trace (snd (run ?E [TimerFired 0] ?s))) \<and>
           d_name d = m_name ([?p] ! 0) \<and> d_content d = [])"
    using f c by blast
  with g k c n have pub: "\<exists>d. FacePut d \<in> set (trace (snd (run ?E [TimerFired 0] ?s))) \<and>
           d_name d = [] \<and> d_content d = []"
    by simp
  from none have "0 < length (m_trafficPatterns ?l) \<and>
      sendData_content ?E (m_trafficPatterns ?l ! 0) (rng_pos ?l) = Inr ([], 0) \<and>
      keyChain_sign_ok ?E
        ((sendData_build (m_trafficPatterns ?l ! 0))\<lparr>d_content := []\<rparr>)
        (m_signingInfo (m_trafficPatterns ?l ! 0)) \<and>
      face_put_ok ?E
        ((sendData_build (m_trafficPatterns ?l ! 0))
           \<lparr>d_content := [],
             d_signedWith := Some (m_signingInfo (m_trafficPatterns ?l ! 0))\<rparr>) \<Longrightarrow>
      (\<exists>s' d. dispatch ?E (TimerFired 0) (startPushLoop_arm 0 ?l) = Returned s' \<and>
              emitted (trace s') = emitted (trace ?l) @ [d] \<and>
              d_name d = m_name (m_trafficPatterns ?l ! 0) \<and>
              d_content d = [] \<and>
              timers s' 0 =
                Some \<lparr>expires_at = clock ?l +
                                     m_generationInterval (m_trafficPatterns ?l ! 0) +
                                     m_generationInterval (m_trafficPatterns ?l ! 0),
                      pending = True\<rparr>)"
    by blast
  with g k l n have loop: "\<exists>s' d. dispatch ?E (TimerFired 0) (startPushLoop_arm 0 ?l) = Returned s' \<and>
           emitted (trace s') = [d] \<and> d_name d = [] \<and> d_content d = [] \<and>
           timers s' 0 = Some \<lparr>expires_at = - 2000, pending = True\<rparr>"
    by simp
  from f(1) z r0 c(1) r2 reg pub loop show ?thesis by blast
qed

end
